(* ===== verification/HwPrelude.thy ===== *)
theory HwPrelude
  imports Main "HOL-Library.Sublist" "HOL-Library.Char_ord" "HOL-Library.List_Lexorder"
    "HOL-Library.Product_Lexorder"
begin

text \<open>
  Shared vocabulary of the development.  A table of the database is a list of rows; an
  \<open>UPDATE ... WHERE\<close> is \<open>update_where\<close>, a \<open>DELETE ... WHERE\<close> is a \<open>filter\<close>, a
  \<open>SELECT COUNT(*) ... WHERE\<close> is \<open>count_where\<close> and a lookup by primary key is \<open>find_by\<close>.
  The lemmas on them are collected in \<open>row_simps\<close>, and the locale \<open>keyed_update\<close> states
  once what an update that leaves the primary key alone does to lookups and counts.
  A call that can go wrong has an \<open>outcome\<close>: it is done, it failed without effect, or
  it is in doubt (its effect happened although the caller was told of an error, as with a
  connection lost while a commit is acknowledged).
\<close>

named_theorems row_simps \<open>lookups, counts and updates on tables\<close>
named_theorems inv_intros \<open>operations that keep an invariant\<close>

subsection \<open>Times and outcomes\<close>

text \<open>Database timestamps are microseconds since an epoch, as in PostgreSQL's timestamptz.\<close>

type_synonym time = int

abbreviation usec_per_sec :: int where "usec_per_sec \<equiv> 1000000"
abbreviation usec_per_hour :: int where "usec_per_hour \<equiv> 3600 * usec_per_sec"
abbreviation usec_per_day :: int where "usec_per_day \<equiv> 86400 * usec_per_sec"

datatype outcome = Ok | Fail | InDoubt

text \<open>SQL's \<open>x > t\<close> and \<open>x < t\<close> in a \<open>WHERE\<close> clause: a NULL column satisfies neither.\<close>

fun null_gt :: "time option \<Rightarrow> time \<Rightarrow> bool" where
  "null_gt None t = False"
| "null_gt (Some x) t = (t < x)"

fun null_lt :: "time option \<Rightarrow> time \<Rightarrow> bool" where
  "null_lt None t = False"
| "null_lt (Some x) t = (x < t)"

lemma null_gt_iff: "null_gt x t \<longleftrightarrow> (\<exists>y. x = Some y \<and> t < y)"
  by (cases x) auto

lemma null_lt_iff: "null_lt x t \<longleftrightarrow> (\<exists>y. x = Some y \<and> y < t)"
  by (cases x) auto

lemma null_gt_lt_exclusive: "null_gt x t \<Longrightarrow> u \<le> t \<Longrightarrow> \<not> null_lt x u"
  by (cases x) auto

subsection \<open>Rows of a table\<close>

definition find_by :: "('r \<Rightarrow> 'k) \<Rightarrow> 'k \<Rightarrow> 'r list \<Rightarrow> 'r option" where
  "find_by key k rs = List.find (\<lambda>r. key r = k) rs"

definition update_where :: "('r \<Rightarrow> bool) \<Rightarrow> ('r \<Rightarrow> 'r) \<Rightarrow> 'r list \<Rightarrow> 'r list" where
  "update_where P f rs = map (\<lambda>r. if P r then f r else r) rs"

definition count_where :: "('r \<Rightarrow> bool) \<Rightarrow> 'r list \<Rightarrow> nat" where
  "count_where P rs = length (filter P rs)"

lemma find_by_Nil [simp]: "find_by key k [] = None"
  by (simp add: find_by_def)

lemma find_by_Cons [simp]:
  "find_by key k (r # rs) = (if key r = k then Some r else find_by key k rs)"
  by (simp add: find_by_def)

lemma find_by_append [row_simps]:
  "find_by key k (xs @ ys) = (case find_by key k xs of None \<Rightarrow> find_by key k ys | Some r \<Rightarrow> Some r)"
  by (induction xs) auto

lemma find_by_SomeD: "find_by key k rs = Some r \<Longrightarrow> r \<in> set rs \<and> key r = k"
  by (induction rs) (auto split: if_splits)

lemma find_by_None_iff: "find_by key k rs = None \<longleftrightarrow> k \<notin> key ` set rs"
  by (induction rs) auto

lemma find_by_in_set:
  "distinct (map key rs) \<Longrightarrow> r \<in> set rs \<Longrightarrow> find_by key (key r) rs = Some r"
  by (induction rs) (auto simp: image_iff)

lemma find_by_filter:
  "distinct (map key rs) \<Longrightarrow>
     find_by key k (filter P rs) = (case find_by key k rs of None \<Rightarrow> None
        | Some r \<Rightarrow> if P r then Some r else None)"
proof (induction rs)
  case (Cons r rs)
  show ?case
  proof (cases "key r = k")
    case True
    with Cons.prems have "k \<notin> key ` set (filter P rs)" by auto
    then have "find_by key k (filter P rs) = None" by (simp add: find_by_None_iff)
    with True show ?thesis by simp
  next
    case False
    with Cons show ?thesis by simp
  qed
qed simp

lemma update_where_Nil [simp]: "update_where P f [] = []"
  by (simp add: update_where_def)

lemma update_where_Cons [simp]:
  "update_where P f (r # rs) = (if P r then f r else r) # update_where P f rs"
  by (simp add: update_where_def)

lemma update_where_append [row_simps]:
  "update_where P f (xs @ ys) = update_where P f xs @ update_where P f ys"
  by (simp add: update_where_def)

lemma length_update_where [simp]: "length (update_where P f rs) = length rs"
  by (simp add: update_where_def)

lemma in_set_update_where:
  "r' \<in> set (update_where P f rs) \<longleftrightarrow> (\<exists>r \<in> set rs. r' = (if P r then f r else r))"
  by (auto simp: update_where_def)

lemma update_where_cong_False: "(\<And>r. r \<in> set rs \<Longrightarrow> \<not> P r) \<Longrightarrow> update_where P f rs = rs"
  by (induction rs) auto

lemma map_update_where [row_simps]:
  "(\<And>r. g (f r) = g r) \<Longrightarrow> map g (update_where P f rs) = map g rs"
  by (induction rs) auto

lemma count_where_Nil [simp]: "count_where P [] = 0"
  by (simp add: count_where_def)

lemma count_where_Cons [simp]:
  "count_where P (r # rs) = (if P r then Suc (count_where P rs) else count_where P rs)"
  by (simp add: count_where_def)

lemma count_where_append [row_simps]: "count_where P (xs @ ys) = count_where P xs + count_where P ys"
  by (simp add: count_where_def)

lemma count_where_pos_iff: "0 < count_where P rs \<longleftrightarrow> (\<exists>r \<in> set rs. P r)"
  by (induction rs) auto

lemma count_where_update_le:
  "(\<And>r. r \<in> set rs \<Longrightarrow> P r \<Longrightarrow> Q (f r) \<Longrightarrow> Q r) \<Longrightarrow> count_where Q (update_where P f rs) \<le> count_where Q rs"
  by (induction rs) (auto simp: le_SucI)

lemma count_where_mono:
  "(\<And>r. r \<in> set rs \<Longrightarrow> P r \<Longrightarrow> Q r) \<Longrightarrow> count_where P rs \<le> count_where Q rs"
  by (induction rs) (auto simp: le_SucI)

lemma count_where_key:
  "distinct (map key rs) \<Longrightarrow>
     count_where (\<lambda>r. key r = k \<and> P r) rs =
       (case find_by key k rs of None \<Rightarrow> 0 | Some r \<Rightarrow> if P r then 1 else 0)"
proof (induction rs)
  case (Cons r rs)
  show ?case
  proof (cases "key r = k")
    case True
    with Cons.prems have "find_by key k rs = None" by (auto simp: find_by_None_iff)
    with Cons True show ?thesis by simp
  next
    case False
    with Cons show ?thesis by simp
  qed
qed simp

subsection \<open>Sequences of optional results\<close>

lemma those_SomeD: "those xs = Some ys \<Longrightarrow> xs = map Some ys"
  by (induction xs arbitrary: ys) (auto split: option.splits)

lemma those_map_SomeD:
  "those (map f xs) = Some ys \<Longrightarrow> length ys = length xs \<and> (\<forall>y \<in> set ys. \<exists>x \<in> set xs. f x = Some y)"
proof -
  assume "those (map f xs) = Some ys"
  then have eq: "map f xs = map Some ys" by (rule those_SomeD)
  then have "length ys = length xs" by (metis length_map)
  moreover have "\<exists>x \<in> set xs. f x = Some y" if "y \<in> set ys" for y
  proof -
    have "Some y \<in> set (map f xs)" using that by (simp add: eq)
    then show ?thesis by auto
  qed
  ultimately show ?thesis by blast
qed

subsection \<open>Updates that keep the primary key\<close>

text \<open>
  The contract between a table and an \<open>UPDATE\<close> statement of the code: the assigned columns
  do not include the primary key.  Interpreted below for every \<open>UPDATE\<close> of the model.
\<close>

locale keyed_update =
  fixes key :: "'r \<Rightarrow> 'k" and upd :: "'r \<Rightarrow> 'r"
  assumes key_upd: "key (upd r) = key r"
begin

lemma keys_update: "map key (update_where P upd rs) = map key rs"
  by (rule map_update_where) (rule key_upd)

lemma find_update:
  "find_by key k (update_where P upd rs) =
     map_option (\<lambda>r. if P r then upd r else r) (find_by key k rs)"
  by (induction rs) (auto simp: key_upd)

lemma find_update_other:
  assumes "\<And>r. P r \<Longrightarrow> key r \<noteq> k"
  shows "find_by key k (update_where P upd rs) = find_by key k rs"
proof (cases "find_by key k rs")
  case (Some r)
  then have "\<not> P r" using assms find_by_SomeD by fastforce
  then show ?thesis by (simp add: find_update Some)
qed (simp add: find_update)

end

end
