(* ===== verification/GoStrings.thy ===== *)
theory GoStrings
  imports HwPrelude
begin

text \<open>
  The parts of Go's standard library that the code calls on strings: package \<open>strings\<close>
  (\<open>HasPrefix\<close>, \<open>TrimPrefix\<close>, \<open>TrimSuffix\<close>, \<open>Split\<close>, \<open>SplitN\<close>, \<open>EqualFold\<close>, \<open>ToLower\<close>,
  \<open>TrimSpace\<close>, \<open>ContainsAny\<close>), \<open>strconv.Atoi\<close>, \<open>strconv.ParseUint\<close> in base 10 and
  \<open>net.SplitHostPort\<close>.  A Go string is a byte sequence and so is a \<open>string\<close> here.
  \<open>ToLower\<close> of a string with a byte above 127 goes through Unicode's case tables, which are
  the parameter \<open>ul\<close>.
\<close>

subsection \<open>Bytes\<close>

abbreviation byte :: "char \<Rightarrow> nat" where "byte c \<equiv> of_char c"

definition in_range :: "char \<Rightarrow> char \<Rightarrow> char \<Rightarrow> bool" where
  "in_range lo hi c \<longleftrightarrow> byte lo \<le> byte c \<and> byte c \<le> byte hi"

definition is_lower :: "char \<Rightarrow> bool" where "is_lower c \<longleftrightarrow> in_range CHR ''a'' CHR ''z'' c"
definition is_upper :: "char \<Rightarrow> bool" where "is_upper c \<longleftrightarrow> in_range CHR ''A'' CHR ''Z'' c"
definition is_digit :: "char \<Rightarrow> bool" where "is_digit c \<longleftrightarrow> in_range CHR ''0'' CHR ''9'' c"
definition is_ascii :: "char \<Rightarrow> bool" where "is_ascii c \<longleftrightarrow> byte c < 128"

definition lower_char :: "char \<Rightarrow> char" where
  "lower_char c = (if is_upper c then char_of (byte c + 32) else c)"

lemmas char_class_defs = is_lower_def is_upper_def is_digit_def in_range_def

lemma byte_char_of: "n < 256 \<Longrightarrow> byte (char_of n) = n"
  by simp

lemma byte_lower_char: "byte (lower_char c) = (if is_upper c then byte c + 32 else byte c)"
  by (auto simp: lower_char_def char_class_defs)

lemma lower_char_not_upper: "\<not> is_upper (lower_char c)"
  by (auto simp: byte_lower_char is_upper_def in_range_def)

lemma lower_char_idem [simp]: "lower_char (lower_char c) = lower_char c"
  using lower_char_not_upper [of c] by (simp add: lower_char_def [of "lower_char c"])

lemma lower_char_ascii: "is_ascii (lower_char c) \<longleftrightarrow> is_ascii c"
  by (auto simp: is_ascii_def byte_lower_char char_class_defs)

lemma lower_char_lower: "\<not> is_upper c \<Longrightarrow> lower_char c = c"
  by (simp add: lower_char_def)

lemma is_lower_not_upper: "is_lower c \<Longrightarrow> \<not> is_upper c"
  by (simp add: char_class_defs)

lemma is_digit_not_upper: "is_digit c \<Longrightarrow> \<not> is_upper c"
  by (simp add: char_class_defs)

subsection \<open>Prefixes, suffixes and splitting\<close>

definition trim_prefix :: "string \<Rightarrow> string \<Rightarrow> string" where
  "trim_prefix p s = (if prefix p s then drop (length p) s else s)"

definition trim_suffix :: "string \<Rightarrow> string \<Rightarrow> string" where
  "trim_suffix p s = (if suffix p s then take (length s - length p) s else s)"

fun split_char :: "char \<Rightarrow> string \<Rightarrow> string list" where
  "split_char d [] = [[]]"
| "split_char d (c # cs) =
     (if c = d then [] # split_char d cs
      else (case split_char d cs of [] \<Rightarrow> [[c]] | w # ws \<Rightarrow> (c # w) # ws))"

fun join_with :: "string \<Rightarrow> string list \<Rightarrow> string" where
  "join_with d [] = []"
| "join_with d [w] = w"
| "join_with d (w # ws) = w @ d @ join_with d ws"

text \<open>\<open>strings.SplitN(s, d, 2)\<close>: the part before the first separator and the rest.\<close>

fun split_first :: "char \<Rightarrow> string \<Rightarrow> (string \<times> string) option" where
  "split_first d [] = None"
| "split_first d (c # cs) =
     (if c = d then Some ([], cs) else map_option (\<lambda>(a, b). (c # a, b)) (split_first d cs))"

definition contains_any :: "string \<Rightarrow> string \<Rightarrow> bool" where
  "contains_any s chars = list_ex (\<lambda>c. c \<in> set chars) s"

lemma trim_prefix_append [simp]: "trim_prefix p (p @ s) = s"
  by (simp add: trim_prefix_def)

lemma trim_suffix_append [simp]: "trim_suffix p (s @ p) = s"
  by (simp add: trim_suffix_def suffix_def)

lemma trim_suffix_other: "\<not> suffix p s \<Longrightarrow> trim_suffix p s = s"
  by (simp add: trim_suffix_def)

lemma split_char_nonempty [simp]: "split_char d s \<noteq> []"
  by (induction s) (auto split: list.splits)

lemma split_char_no_sep: "w \<in> set (split_char d s) \<Longrightarrow> d \<notin> set w"
proof (induction s arbitrary: w)
  case (Cons c cs)
  then show ?case
    by (cases "split_char d cs") (auto split: if_splits)
qed simp

lemma split_char_chars: "w \<in> set (split_char d s) \<Longrightarrow> set w \<subseteq> set s"
proof (induction s arbitrary: w)
  case (Cons c cs)
  then show ?case
    by (cases "split_char d cs") (simp, fastforce split: if_splits)
qed simp

lemma split_char_single: "d \<notin> set s \<Longrightarrow> split_char d s = [s]"
  by (induction s) auto

lemma split_char_append: "d \<notin> set w \<Longrightarrow> split_char d (w @ d # s) = w # split_char d s"
  by (induction w) auto

lemma join_split: "join_with [d] (split_char d s) = s"
proof (induction s)
  case (Cons c cs)
  obtain w ws where w: "split_char d cs = w # ws"
    by (cases "split_char d cs") auto
  then show ?case
    using Cons.IH by (cases ws) auto
qed simp

lemma join_with_Cons: "ws \<noteq> [] \<Longrightarrow> join_with d (w # ws) = w @ d @ join_with d ws"
  by (cases ws) auto

lemma split_join:
  "ws \<noteq> [] \<Longrightarrow> \<forall>w \<in> set ws. d \<notin> set w \<Longrightarrow> split_char d (join_with [d] ws) = ws"
proof (induction ws)
  case (Cons w ws)
  then show ?case
    by (cases "ws = []") (simp_all add: split_char_single split_char_append join_with_Cons)
qed simp

lemma split_first_append: "d \<notin> set a \<Longrightarrow> split_first d (a @ d # b) = Some (a, b)"
  by (induction a) auto

lemma split_first_SomeD: "split_first d s = Some (a, b) \<Longrightarrow> s = a @ d # b \<and> d \<notin> set a"
  by (induction s arbitrary: a) (auto split: if_splits)

subsection \<open>Case folding\<close>

definition to_lower :: "(string \<Rightarrow> string) \<Rightarrow> string \<Rightarrow> string" where
  "to_lower ul s = (if list_all is_ascii s then map lower_char s else ul s)"

text \<open>
  \<open>strings.EqualFold\<close> against an ASCII word with neither k nor s: those are the two ASCII
  letters that fold with a character outside ASCII, so here folding is ASCII case.
\<close>

definition equal_fold :: "string \<Rightarrow> string \<Rightarrow> bool" where
  "equal_fold s t = (map lower_char s = map lower_char t)"

lemma to_lower_ascii: "list_all is_ascii s \<Longrightarrow> to_lower ul s = map lower_char s"
  by (simp add: to_lower_def)

lemma to_lower_id:
  "list_all is_ascii s \<Longrightarrow> list_all (\<lambda>c. \<not> is_upper c) s \<Longrightarrow> to_lower ul s = s"
  by (simp add: to_lower_def lower_char_def list_all_iff map_idI)

subsection \<open>White space\<close>

definition is_space_ascii :: "char \<Rightarrow> bool" where
  "is_space_ascii c \<longleftrightarrow> byte c \<in> {9, 10, 11, 12, 13, 32}"

text \<open>The white space above ASCII that \<open>unicode.IsSpace\<close> names, in UTF-8.\<close>

definition unicode_spaces :: "string list" where
  "unicode_spaces = map (map char_of)
     ([[0xC2, 0x85], [0xC2, 0xA0], [0xE1, 0x9A, 0x80], [0xE2, 0x80, 0xA8], [0xE2, 0x80, 0xA9],
       [0xE2, 0x80, 0xAF], [0xE2, 0x81, 0x9F], [0xE3, 0x80, 0x80 :: nat]]
      @ map (\<lambda>n. [0xE2, 0x80, n]) [0x80 ..< 0x8B])"

function trim_left_with :: "string list \<Rightarrow> string \<Rightarrow> string" where
  "trim_left_with us s =
     (case s of [] \<Rightarrow> []
      | c # cs \<Rightarrow>
          if is_space_ascii c then trim_left_with us cs
          else (case List.find (\<lambda>u. u \<noteq> [] \<and> prefix u s) us of
                  None \<Rightarrow> s
                | Some u \<Rightarrow> trim_left_with us (drop (length u) s)))"
  by pat_completeness auto
termination
  by (relation "measure (\<lambda>(us, s). length s)") (auto simp: find_Some_iff)

declare trim_left_with.simps [simp del]

definition trim_space :: "string \<Rightarrow> string" where
  "trim_space s =
     rev (trim_left_with (map rev unicode_spaces) (rev (trim_left_with unicode_spaces s)))"

lemma trim_left_with_Nil [simp]: "trim_left_with us [] = []"
  by (simp add: trim_left_with.simps [of us "[]"])

lemma trim_left_with_stop:
  assumes "\<not> is_space_ascii c" and "\<forall>u \<in> set us. u \<noteq> [] \<longrightarrow> hd u \<noteq> c"
  shows "trim_left_with us (c # cs) = c # cs"
proof -
  have "List.find (\<lambda>u. u \<noteq> [] \<and> prefix u (c # cs)) us = None"
    using assms(2) by (auto simp: find_None_iff prefix_Cons neq_Nil_conv)
  with assms(1) show ?thesis by (simp add: trim_left_with.simps [of us "c # cs"])
qed

lemma unicode_spaces_high:
  assumes "u \<in> set unicode_spaces"
  shows "u \<noteq> [] \<and> \<not> is_ascii (hd u) \<and> \<not> is_ascii (last u)"
proof -
  have "list_all (\<lambda>u. u \<noteq> [] \<and> \<not> is_ascii (hd u) \<and> \<not> is_ascii (last u)) unicode_spaces"
    by (simp add: unicode_spaces_def is_ascii_def upt_rec_numeral)
  with assms show ?thesis by (auto simp: list_all_iff)
qed

text \<open>A string that begins and ends with an ASCII character other than white space is trimmed.\<close>

lemma trim_space_id:
  assumes "s \<noteq> []" and "is_ascii (hd s)" "is_ascii (last s)"
    and "\<not> is_space_ascii (hd s)" "\<not> is_space_ascii (last s)"
  shows "trim_space s = s"
proof -
  obtain c cs where s: "s = c # cs" using assms(1) by (cases s) auto
  have l: "trim_left_with unicode_spaces s = s"
    using assms unicode_spaces_high unfolding s by (intro trim_left_with_stop) fastforce+
  obtain d ds where r: "rev s = d # ds" using assms(1) by (cases "rev s") auto
  have d: "d = last s" using r by (metis hd_rev list.sel(1))
  have "trim_left_with (map rev unicode_spaces) (rev s) = rev s"
    unfolding r
  proof (rule trim_left_with_stop)
    show "\<not> is_space_ascii d" using assms d by simp
    show "\<forall>u \<in> set (map rev unicode_spaces). u \<noteq> [] \<longrightarrow> hd u \<noteq> d"
      using assms(3) d unicode_spaces_high by (fastforce simp: hd_rev)
  qed
  then show ?thesis by (simp add: trim_space_def l)
qed

subsection \<open>Numbers\<close>

definition dec_value :: "string \<Rightarrow> nat" where
  "dec_value s = foldl (\<lambda>n c. 10 * n + (byte c - byte CHR ''0'')) 0 s"

text \<open>\<open>strconv.ParseUint(s, 10, bits)\<close>: no sign, no underscore, in range.\<close>

definition parse_uint :: "nat \<Rightarrow> string \<Rightarrow> nat option" where
  "parse_uint bits s =
     (if s \<noteq> [] \<and> list_all is_digit s \<and> dec_value s < 2 ^ bits then Some (dec_value s) else None)"

text \<open>\<open>strconv.Atoi\<close>: an optional sign, digits, in the range of a 64-bit \<open>int\<close>.\<close>

definition atoi :: "string \<Rightarrow> int option" where
  "atoi s =
     (let neg = (prefix ''-'' s); d = (if prefix ''-'' s \<or> prefix ''+'' s then tl s else s);
          v = (if neg then - int (dec_value d) else int (dec_value d))
      in if d \<noteq> [] \<and> list_all is_digit d \<and> - (2 ^ 63) \<le> v \<and> v < 2 ^ 63 then Some v else None)"

lemma parse_uint_bound: "parse_uint bits s = Some n \<Longrightarrow> n < 2 ^ bits"
  by (auto simp: parse_uint_def split: if_splits)

lemma atoi_bounds: "atoi s = Some v \<Longrightarrow> - (2 ^ 63) \<le> v \<and> v < 2 ^ 63"
  by (auto simp: atoi_def Let_def split: if_splits)

subsection \<open>net.SplitHostPort\<close>

fun index_of :: "char \<Rightarrow> string \<Rightarrow> nat option" where
  "index_of d [] = None"
| "index_of d (c # cs) = (if c = d then Some 0 else map_option Suc (index_of d cs))"

definition last_index_of :: "char \<Rightarrow> string \<Rightarrow> nat option" where
  "last_index_of d s = map_option (\<lambda>i. length s - 1 - i) (index_of d (rev s))"

text \<open>
  The address is split at its last colon; a bracketed host must close right before it, and
  no stray bracket or second colon may be left.
\<close>

definition split_host_port :: "string \<Rightarrow> (string \<times> string) option" where
  "split_host_port s =
     (case last_index_of CHR '':'' s of
        None \<Rightarrow> None
      | Some i \<Rightarrow>
          (if prefix ''['' s then
             (case index_of CHR '']'' s of
                None \<Rightarrow> None
              | Some e \<Rightarrow>
                  if e + 1 \<noteq> i then None
                  else if CHR ''['' \<in> set (drop 1 s) \<or> CHR '']'' \<in> set (drop (e + 1) s) then None
                  else Some (take (e - 1) (drop 1 s), drop (i + 1) s))
           else if CHR '':'' \<in> set (take i s) then None
           else if CHR ''['' \<in> set s \<or> CHR '']'' \<in> set s then None
           else Some (take i s, drop (i + 1) s)))"

lemma index_of_append: "d \<notin> set a \<Longrightarrow> index_of d (a @ d # b) = Some (length a)"
  by (induction a) auto

lemma last_index_of_append: "d \<notin> set b \<Longrightarrow> last_index_of d (a @ d # b) = Some (length a)"
proof -
  assume "d \<notin> set b"
  then have "index_of d (rev b @ d # rev a) = Some (length b)"
    by (simp add: index_of_append)
  then show ?thesis by (simp add: last_index_of_def)
qed

lemma index_of_None: "d \<notin> set s \<Longrightarrow> index_of d s = None"
  by (induction s) auto

lemma split_host_port_plain:
  assumes "CHR '':'' \<notin> set h" "CHR ''['' \<notin> set h" "CHR '']'' \<notin> set h"
    and "CHR '':'' \<notin> set p" "CHR ''['' \<notin> set p" "CHR '']'' \<notin> set p"
  shows "split_host_port (h @ CHR '':'' # p) = Some (h, p)"
proof -
  have "last_index_of CHR '':'' (h @ CHR '':'' # p) = Some (length h)"
    using assms by (simp add: last_index_of_append)
  moreover have "\<not> prefix ''['' (h @ CHR '':'' # p)"
    using assms by (cases h) auto
  ultimately show ?thesis
    using assms by (simp add: split_host_port_def)
qed

end
