(* ===== verification/GoEncoding.thy ===== *)
theory GoEncoding
  imports GoStrings
begin

text \<open>
  Go's \<open>base64.RawURLEncoding\<close>, \<open>base64.RawStdEncoding\<close> (no padding; the decoder skips line
  breaks and accepts non-zero trailing bits) and \<open>hex.DecodeString\<close>/\<open>hex.EncodeToString\<close>,
  with their round trips.
\<close>

definition b64_std_alphabet :: string where
  "b64_std_alphabet = ''ABCDEFGHIJKLMNOPQRSTUVWXYZabcdefghijklmnopqrstuvwxyz0123456789+/''"

definition b64_url_alphabet :: string where
  "b64_url_alphabet = ''ABCDEFGHIJKLMNOPQRSTUVWXYZabcdefghijklmnopqrstuvwxyz0123456789-_''"

subsection \<open>Bytes to six-bit groups and back\<close>

fun sextets :: "nat list \<Rightarrow> nat list" where
  "sextets [] = []"
| "sextets [a] = [a div 4, (a mod 4) * 16]"
| "sextets [a, b] = [a div 4, (a mod 4) * 16 + b div 16, (b mod 16) * 4]"
| "sextets (a # b # c # r) =
     [a div 4, (a mod 4) * 16 + b div 16, (b mod 16) * 4 + c div 64, c mod 64] @ sextets r"

fun unsextets :: "nat list \<Rightarrow> nat list option" where
  "unsextets [] = Some []"
| "unsextets [x] = None"
| "unsextets [x, y] = Some [x * 4 + y div 16]"
| "unsextets [x, y, z] = Some [x * 4 + y div 16, (y mod 16) * 16 + z div 4]"
| "unsextets (x # y # z # w # r) =
     map_option ((@) [x * 4 + y div 16, (y mod 16) * 16 + z div 4, (z mod 4) * 64 + w]) (unsextets r)"

lemma sextets_bound: "\<forall>b \<in> set bs. b < 256 \<Longrightarrow> \<forall>x \<in> set (sextets bs). x < 64"
  by (induction bs rule: sextets.induct) (auto simp: less_mult_imp_div_less)

lemma unsextets_sextets: "\<forall>b \<in> set bs. b < 256 \<Longrightarrow> unsextets (sextets bs) = Some bs"
proof (induction bs rule: sextets.induct)
  case (4 a b c r)
  then have "a < 256" "b < 256" "c < 256" and IH: "unsextets (sextets r) = Some r" by auto
  moreover have "b div 16 < 16" "c div 64 < 4" "a div 4 < 64"
    using \<open>a < 256\<close> \<open>b < 256\<close> \<open>c < 256\<close> by auto
  ultimately show ?case by simp
next
  case (3 a b)
  then have "b div 16 < 16" by auto
  then show ?case by simp
qed auto

lemma length_sextets: "length (sextets bs) = (length bs * 4 + 2) div 3"
  by (induction bs rule: sextets.induct) auto

subsection \<open>base64 text\<close>

definition b64_encode :: "string \<Rightarrow> string \<Rightarrow> string" where
  "b64_encode alpha bs = map (\<lambda>x. alpha ! x) (sextets (map of_char bs))"

definition is_line_break :: "char \<Rightarrow> bool" where
  "is_line_break c \<longleftrightarrow> byte c = 10 \<or> byte c = 13"

definition b64_decode :: "string \<Rightarrow> string \<Rightarrow> string option" where
  "b64_decode alpha s =
     Option.bind (those (map (\<lambda>c. index_of c alpha) (filter (\<lambda>c. \<not> is_line_break c) s)))
       (\<lambda>xs. map_option (map char_of) (unsextets xs))"

lemma those_map_Some: "those (map (\<lambda>x. Some (f x)) xs) = Some (map f xs)"
  by (induction xs) auto

lemma index_of_nth: "distinct alpha \<Longrightarrow> n < length alpha \<Longrightarrow> index_of (alpha ! n) alpha = Some n"
proof (induction alpha arbitrary: n)
  case (Cons c cs)
  then show ?case by (cases n) auto
qed simp

lemma those_map_index_of:
  assumes "distinct alpha" and "\<forall>x \<in> set xs. x < length alpha"
  shows "those (map (\<lambda>c. index_of c alpha) (map ((!) alpha) xs)) = Some xs"
  using assms(2) by (induction xs) (simp_all add: index_of_nth [OF assms(1)])

lemma b64_decode_encode:
  assumes "distinct alpha" "length alpha = 64" "\<forall>c \<in> set alpha. \<not> is_line_break c"
  shows "b64_decode alpha (b64_encode alpha bs) = Some bs"
proof -
  let ?xs = "sextets (map of_char bs)"
  have b: "\<forall>b \<in> set (map of_char bs :: nat list). b < 256" by auto
  have x: "\<forall>x \<in> set ?xs. x < length alpha" using sextets_bound [OF b] assms(2) by simp
  have "filter (\<lambda>c. \<not> is_line_break c) (b64_encode alpha bs) = map ((!) alpha) ?xs"
    using x assms(3) by (auto simp: b64_encode_def filter_id_conv)
  moreover have "map char_of (map of_char bs :: nat list) = bs"
    by (simp add: map_idI)
  ultimately show ?thesis
    using those_map_index_of [OF assms(1) x] unsextets_sextets [OF b]
    by (simp add: b64_decode_def)
qed

lemma b64_alphabets:
  "distinct b64_url_alphabet" "length b64_url_alphabet = 64"
  "\<forall>c \<in> set b64_url_alphabet. \<not> is_line_break c"
  "distinct b64_std_alphabet" "length b64_std_alphabet = 64"
  "\<forall>c \<in> set b64_std_alphabet. \<not> is_line_break c"
  by (simp_all add: b64_url_alphabet_def b64_std_alphabet_def is_line_break_def)

lemma b64_url_roundtrip [simp]: "b64_decode b64_url_alphabet (b64_encode b64_url_alphabet bs) = Some bs"
  by (rule b64_decode_encode) (fact b64_alphabets)+

lemma b64_std_roundtrip [simp]: "b64_decode b64_std_alphabet (b64_encode b64_std_alphabet bs) = Some bs"
  by (rule b64_decode_encode) (fact b64_alphabets)+

lemma length_b64_encode: "length (b64_encode alpha bs) = (length bs * 4 + 2) div 3"
  by (simp add: b64_encode_def length_sextets)

lemma b64_encode_chars:
  assumes "length alpha = 64"
  shows "set (b64_encode alpha bs) \<subseteq> set alpha"
proof -
  have b: "\<forall>b \<in> set (map of_char bs :: nat list). b < 256" by auto
  show ?thesis
    using sextets_bound [OF b] assms by (auto simp: b64_encode_def)
qed

subsection \<open>Hexadecimal text\<close>

definition hex_digits :: string where "hex_digits = ''0123456789abcdef''"

definition hex_value :: "char \<Rightarrow> nat option" where
  "hex_value c = index_of (lower_char c) hex_digits"

fun hex_decode :: "string \<Rightarrow> string option" where
  "hex_decode [] = Some []"
| "hex_decode [c] = None"
| "hex_decode (c # d # r) =
     (case (hex_value c, hex_value d, hex_decode r) of
        (Some x, Some y, Some bs) \<Rightarrow> Some (char_of (16 * x + y) # bs)
      | _ \<Rightarrow> None)"

definition hex_encode :: "string \<Rightarrow> string" where
  "hex_encode bs = concat (map (\<lambda>b. [hex_digits ! (byte b div 16), hex_digits ! (byte b mod 16)]) bs)"

lemma hex_value_digit: "n < 16 \<Longrightarrow> hex_value (hex_digits ! n) = Some n"
proof -
  assume "n < 16"
  have "list_all (\<lambda>n. hex_value (hex_digits ! n) = Some n) [0..<16 :: nat]"
    by code_simp
  with \<open>n < 16\<close> show ?thesis by (auto simp: list_all_iff)
qed

lemma hex_decode_encode: "hex_decode (hex_encode bs) = Some bs"
proof (induction bs)
  case (Cons b bs)
  have "byte b div 16 < 16" by (simp add: less_mult_imp_div_less)
  moreover have "16 * (byte b div 16) + byte b mod 16 = byte b" by simp
  ultimately have "hex_decode (hex_encode (b # bs)) = Some (char_of (byte b) # bs)"
    using Cons.IH by (simp add: hex_encode_def hex_value_digit del: char_of_char)
  then show ?case by simp
qed (simp add: hex_encode_def)

lemma length_hex_encode [simp]: "length (hex_encode bs) = 2 * length bs"
  by (induction bs) (simp_all add: hex_encode_def)

end
