(* ===== verification/Tokens.thy ===== *)
theory Tokens
  imports GoEncoding
begin

text \<open>
  Bearer tokens (\<open>internal/tokens/tokens.go\<close>): minting, the lookup prefix, the stored digest
  and its verification against the current SHA-256 format and the two Argon2id formats of
  older releases.  SHA-256 is the parameter \<open>sha\<close>; Argon2's \<open>IDKey\<close>, a third-party package,
  is the parameter \<open>argon\<close> (password, salt, time, memory, threads, key length).  The race in
  \<open>withLegacyVerifySlot\<close> is the parameter of type \<open>slot_event\<close>; the slots themselves are a step
  relation at the end of the theory.  Random draws are the parameter \<open>draw\<close>: the number that
  the i-th call of \<open>rand.Int\<close> returns, or None when the entropy source fails.
\<close>

type_synonym sha_fun = "string \<Rightarrow> string"
type_synonym argon_fun = "string \<Rightarrow> string \<Rightarrow> nat \<Rightarrow> nat \<Rightarrow> nat \<Rightarrow> nat \<Rightarrow> string"
type_synonym draws = "nat \<Rightarrow> nat option"

subsection \<open>Constants\<close>

definition base62Alphabet :: string where
  "base62Alphabet = ''0123456789ABCDEFGHIJKLMNOPQRSTUVWXYZabcdefghijklmnopqrstuvwxyz''"

definition apiTokenPrefix :: string where "apiTokenPrefix = ''sk_live_''"
definition rtTokenPrefix :: string where "rtTokenPrefix = ''rt_''"
definition tokenPrefixLen :: nat where "tokenPrefixLen = 12"
definition apiTokenBytes :: nat where "apiTokenBytes = 24"
definition rtTokenBytes :: nat where "rtTokenBytes = 24"
definition argonTime :: nat where "argonTime = 3"
definition argonMemory :: nat where "argonMemory = 64 * 1024"
definition argonThreads :: nat where "argonThreads = 4"
definition argonKeyLen :: nat where "argonKeyLen = 32"
definition argonSaltLen :: nat where "argonSaltLen = 16"
definition sha256HashPrefix :: string where "sha256HashPrefix = ''sha256:''"
definition maxConcurrentLegacyVerifications :: nat where "maxConcurrentLegacyVerifications = 2"
definition legacyFixedSalt :: string where "legacyFixedSalt = ''hatchway-token-hash''"

lemmas token_consts = apiTokenPrefix_def rtTokenPrefix_def tokenPrefixLen_def apiTokenBytes_def
  rtTokenBytes_def sha256HashPrefix_def

lemmas argon_consts = argonTime_def argonMemory_def argonThreads_def argonKeyLen_def argonSaltLen_def

datatype kind = KindUnknown | KindAPI | KindRuntime

record token =
  tk_kind :: kind
  tk_raw :: string
  tk_prefix :: string
  tk_hash :: string

subsection \<open>Minting\<close>

definition random_base62 :: "draws \<Rightarrow> nat \<Rightarrow> string option" where
  "random_base62 draw len = those (map (\<lambda>i. map_option (\<lambda>n. base62Alphabet ! n) (draw i)) [0..<len])"

definition HashToken :: "sha_fun \<Rightarrow> string \<Rightarrow> string" where
  "HashToken sha raw = sha256HashPrefix @ b64_encode b64_url_alphabet (sha raw)"

definition MintAPIToken :: "sha_fun \<Rightarrow> draws \<Rightarrow> token option" where
  "MintAPIToken sha draw =
     (case random_base62 draw apiTokenBytes of
        None \<Rightarrow> None
      | Some body \<Rightarrow>
          let raw = apiTokenPrefix @ body
          in Some \<lparr>tk_kind = KindAPI, tk_raw = raw, tk_prefix = take tokenPrefixLen raw,
                   tk_hash = HashToken sha raw\<rparr>)"

definition MintRuntimeToken :: "sha_fun \<Rightarrow> draws \<Rightarrow> token option" where
  "MintRuntimeToken sha draw =
     (case random_base62 draw rtTokenBytes of
        None \<Rightarrow> None
      | Some body \<Rightarrow>
          let raw = rtTokenPrefix @ body
          in Some \<lparr>tk_kind = KindRuntime, tk_raw = raw, tk_prefix = take tokenPrefixLen raw,
                   tk_hash = HashToken sha raw\<rparr>)"

definition ParsePrefix :: "string \<Rightarrow> string option" where
  "ParsePrefix raw = (if length raw < tokenPrefixLen then None else Some (take tokenPrefixLen raw))"

definition KindOf :: "string \<Rightarrow> kind" where
  "KindOf raw =
     (if prefix apiTokenPrefix raw then KindAPI
      else if prefix rtTokenPrefix raw then KindRuntime
      else KindUnknown)"

definition UsesCurrentHash :: "string \<Rightarrow> bool" where
  "UsesCurrentHash stored = prefix sha256HashPrefix stored"

subsection \<open>Verification\<close>

datatype ctx_err = DeadlineExceeded | Canceled

datatype verify_err = LegacyVerificationBusy | VerifyCtx ctx_err

datatype slot_event = SlotFree "ctx_err option" | SlotCtxDone ctx_err | SlotWaitExpired

text \<open>
  \<open>SlotFree None\<close>: a slot was free and the worker answered; \<open>SlotFree (Some e)\<close>: a slot was
  free but the context ended before the worker answered.
\<close>

fun withLegacyVerifySlot :: "slot_event \<Rightarrow> bool \<Rightarrow> verify_err + bool" where
  "withLegacyVerifySlot (SlotFree None) matches = Inr matches"
| "withLegacyVerifySlot (SlotFree (Some e)) matches = Inl (VerifyCtx e)"
| "withLegacyVerifySlot (SlotCtxDone e) matches = Inl (VerifyCtx e)"
| "withLegacyVerifySlot SlotWaitExpired matches = Inl LegacyVerificationBusy"

definition verifySHA256 :: "sha_fun \<Rightarrow> string \<Rightarrow> string \<Rightarrow> bool" where
  "verifySHA256 sha raw stored =
     (case b64_decode b64_url_alphabet (trim_prefix sha256HashPrefix stored) of
        None \<Rightarrow> False
      | Some expected \<Rightarrow> if length expected \<noteq> 32 then False else sha raw = expected)"

record phc =
  ph_salt :: string
  ph_hash :: string
  ph_mem :: nat
  ph_time :: nat
  ph_threads :: nat

text \<open>The steps of \<open>parsePHC\<close>: the six fields, the three parameters, the two base64 texts.\<close>

definition phc_params :: "string \<Rightarrow> (nat \<times> nat \<times> nat) option" where
  "phc_params s =
     (case split_char CHR '','' s of
        [m, t, p] \<Rightarrow>
          (if prefix ''m='' m \<and> prefix ''t='' t \<and> prefix ''p='' p then
             (case (parse_uint 32 (trim_prefix ''m='' m), parse_uint 32 (trim_prefix ''t='' t),
                    parse_uint 8 (trim_prefix ''p='' p)) of
                (Some mem, Some tm, Some th) \<Rightarrow> Some (mem, tm, th)
              | _ \<Rightarrow> None)
           else None)
      | _ \<Rightarrow> None)"

definition phc_decode :: "nat \<Rightarrow> string \<Rightarrow> string option" where
  "phc_decode len s =
     (case b64_decode b64_std_alphabet s of
        None \<Rightarrow> None
      | Some bs \<Rightarrow> if length bs = len then Some bs else None)"

definition parsePHC :: "string \<Rightarrow> phc option" where
  "parsePHC s =
     (case split_char CHR ''$'' s of
        [_, alg, ver, params, salt64, hash64] \<Rightarrow>
          if alg \<noteq> ''argon2id'' \<or> ver \<noteq> ''v=19'' then None
          else (case phc_params params of
                  None \<Rightarrow> None
                | Some (mem, t, threads) \<Rightarrow>
                    if mem \<noteq> argonMemory \<or> t \<noteq> argonTime \<or> threads \<noteq> argonThreads then None
                    else (case (phc_decode argonSaltLen salt64, phc_decode argonKeyLen hash64) of
                            (Some salt, Some hash) \<Rightarrow>
                              Some \<lparr>ph_salt = salt, ph_hash = hash, ph_mem = mem, ph_time = t,
                                    ph_threads = threads\<rparr>
                          | _ \<Rightarrow> None))
      | _ \<Rightarrow> None)"

definition verifyPHC :: "argon_fun \<Rightarrow> slot_event \<Rightarrow> string \<Rightarrow> string \<Rightarrow> verify_err + bool" where
  "verifyPHC argon slot raw stored =
     (case parsePHC stored of
        None \<Rightarrow> Inr False
      | Some p \<Rightarrow> withLegacyVerifySlot slot
          (argon raw (ph_salt p) (ph_time p) (ph_mem p) (ph_threads p) argonKeyLen = ph_hash p))"

definition verifyLegacy :: "argon_fun \<Rightarrow> slot_event \<Rightarrow> string \<Rightarrow> string \<Rightarrow> verify_err + bool" where
  "verifyLegacy argon slot raw stored =
     (case hex_decode stored of
        None \<Rightarrow> Inr False
      | Some expected \<Rightarrow>
          if length expected \<noteq> argonKeyLen then Inr False
          else withLegacyVerifySlot slot
            (argon raw legacyFixedSalt argonTime argonMemory argonThreads argonKeyLen = expected))"

definition VerifyTokenContext ::
  "sha_fun \<Rightarrow> argon_fun \<Rightarrow> slot_event \<Rightarrow> string \<Rightarrow> string \<Rightarrow> verify_err + bool" where
  "VerifyTokenContext sha argon slot raw stored =
     (if UsesCurrentHash stored then Inr (verifySHA256 sha raw stored)
      else if prefix ''$argon2id$'' stored then verifyPHC argon slot raw stored
      else verifyLegacy argon slot raw stored)"

text \<open>\<open>VerifyToken\<close> drops the error and returns the zero value with it.\<close>

definition VerifyToken :: "sha_fun \<Rightarrow> argon_fun \<Rightarrow> slot_event \<Rightarrow> string \<Rightarrow> string \<Rightarrow> bool" where
  "VerifyToken sha argon slot raw stored =
     (case VerifyTokenContext sha argon slot raw stored of Inl _ \<Rightarrow> False | Inr ok \<Rightarrow> ok)"

subsection \<open>Lemmas\<close>

lemma UsesCurrentHash_HashToken [simp]: "UsesCurrentHash (HashToken sha raw)"
  by (simp add: UsesCurrentHash_def HashToken_def)

text \<open>The current format decides exactly equality of digests.\<close>

lemma verifySHA256_HashToken:
  "length (sha raw') = 32 \<Longrightarrow> verifySHA256 sha raw (HashToken sha raw') \<longleftrightarrow> sha raw = sha raw'"
  by (simp add: verifySHA256_def HashToken_def)

lemma VerifyTokenContext_current:
  "UsesCurrentHash stored \<Longrightarrow> VerifyTokenContext sha argon slot raw stored = Inr (verifySHA256 sha raw stored)"
  by (simp add: VerifyTokenContext_def)

lemma random_base62_SomeD:
  assumes "random_base62 draw len = Some s" and "\<And>i n. draw i = Some n \<Longrightarrow> n < 62"
  shows "length s = len \<and> set s \<subseteq> set base62Alphabet"
proof -
  have len62: "length base62Alphabet = 62" by (simp add: base62Alphabet_def)
  from those_map_SomeD [OF assms(1) [unfolded random_base62_def]] assms(2) show ?thesis
    by (auto simp: len62 [symmetric])
qed

lemma base62_plain: "c \<in> set base62Alphabet \<Longrightarrow> is_digit c \<or> is_lower c \<or> is_upper c"
proof -
  assume c: "c \<in> set base62Alphabet"
  have "list_all (\<lambda>c. is_digit c \<or> is_lower c \<or> is_upper c) base62Alphabet" by code_simp
  with c show ?thesis by (auto simp: list_all_iff)
qed

lemma parsePHC_SomeD:
  "parsePHC s = Some p \<Longrightarrow>
     ph_mem p = argonMemory \<and> ph_time p = argonTime \<and> ph_threads p = argonThreads \<and>
     length (ph_salt p) = argonSaltLen \<and> length (ph_hash p) = argonKeyLen"
  by (auto simp: parsePHC_def phc_decode_def split: list.splits if_splits option.splits prod.splits)

text \<open>The PHC text that older releases stored.\<close>

definition phc_text :: "string \<Rightarrow> string \<Rightarrow> string" where
  "phc_text salt hash =
     join_with ''$'' ['''', ''argon2id'', ''v=19'', ''m=65536,t=3,p=4'',
       b64_encode b64_std_alphabet salt, b64_encode b64_std_alphabet hash]"

lemma b64_std_no_dollar: "CHR ''$'' \<notin> set (b64_encode b64_std_alphabet bs)"
proof -
  have "CHR ''$'' \<notin> set b64_std_alphabet" by (simp add: b64_std_alphabet_def)
  then show ?thesis using b64_encode_chars [of b64_std_alphabet bs] b64_alphabets by blast
qed

lemma phc_params_legacy: "phc_params ''m=65536,t=3,p=4'' = Some (argonMemory, argonTime, argonThreads)"
  by (simp add: phc_params_def parse_uint_def dec_value_def trim_prefix_def is_digit_def in_range_def
      argon_consts)

text \<open>What \<open>MintRuntimeToken\<close> returns is accepted by every later step.\<close>

lemma minted_runtime_token:
  assumes "MintRuntimeToken sha draw = Some t"
    and "\<And>i n. draw i = Some n \<Longrightarrow> n < 62"
    and "length (sha (tk_raw t)) = 32"
  shows "KindOf (tk_raw t) = KindRuntime \<and> length (tk_raw t) = 27 \<and>
         ParsePrefix (tk_raw t) = Some (tk_prefix t) \<and>
         VerifyTokenContext sha argon slot (tk_raw t) (tk_hash t) = Inr True"
proof -
  obtain body where body: "random_base62 draw rtTokenBytes = Some body"
    and raw: "tk_raw t = rtTokenPrefix @ body" and pre: "tk_prefix t = take tokenPrefixLen (tk_raw t)"
    and hash: "tk_hash t = HashToken sha (tk_raw t)"
    using assms(1) by (auto simp: MintRuntimeToken_def Let_def split: option.splits)
  have "length body = 24" using random_base62_SomeD [OF body assms(2)] by (simp add: rtTokenBytes_def)
  moreover have "verifySHA256 sha (tk_raw t) (tk_hash t)"
    unfolding hash using assms(3) by (simp add: verifySHA256_HashToken)
  ultimately show ?thesis
    using hash by (simp add: raw pre KindOf_def ParsePrefix_def VerifyTokenContext_current token_consts)
qed

lemma minted_runtime_chars:
  assumes "MintRuntimeToken sha draw = Some t" and "\<And>i n. draw i = Some n \<Longrightarrow> n < 62" and "c \<in> set (tk_raw t)"
  shows "is_digit c \<or> is_lower c \<or> is_upper c \<or> c = CHR ''_''"
proof -
  obtain body where "random_base62 draw rtTokenBytes = Some body" "tk_raw t = rtTokenPrefix @ body"
    using assms(1) by (auto simp: MintRuntimeToken_def Let_def split: option.splits)
  moreover from random_base62_SomeD [OF this(1) assms(2)] have "set body \<subseteq> set base62Alphabet" by simp
  ultimately show ?thesis
    using assms(3) base62_plain by (auto simp: rtTokenPrefix_def char_class_defs)
qed

subsection \<open>The slots for legacy verification\<close>

text \<open>
  The channel \<open>legacyVerifySlots\<close>: \<open>sl_used\<close> counts its elements, \<open>sl_workers\<close> the goroutines that
  run Argon2 and \<open>sl_waiting\<close> the callers in the outer \<open>select\<close>.  A caller that stops waiting for
  its worker is not a step: the worker keeps its slot until it finishes.
\<close>

record slots =
  sl_used :: nat
  sl_workers :: "nat list"
  sl_waiting :: "nat list"

definition no_slots :: slots where
  "no_slots = \<lparr>sl_used = 0, sl_workers = [], sl_waiting = []\<rparr>"

inductive slot_step :: "slots \<Rightarrow> slots \<Rightarrow> bool" where
  arrive: "slot_step s (s\<lparr>sl_waiting := i # sl_waiting s\<rparr>)"
| acquire: "i \<in> set (sl_waiting s) \<Longrightarrow> sl_used s < maxConcurrentLegacyVerifications \<Longrightarrow>
     slot_step s (s\<lparr>sl_used := sl_used s + 1, sl_workers := i # sl_workers s,
                    sl_waiting := remove1 i (sl_waiting s)\<rparr>)"
| give_up: "i \<in> set (sl_waiting s) \<Longrightarrow>
     slot_step s (s\<lparr>sl_waiting := remove1 i (sl_waiting s)\<rparr>)"
| release: "i \<in> set (sl_workers s) \<Longrightarrow>
     slot_step s (s\<lparr>sl_used := sl_used s - 1, sl_workers := remove1 i (sl_workers s)\<rparr>)"

inductive slot_reachable :: "slots \<Rightarrow> bool" where
  start: "slot_reachable no_slots"
| step: "slot_reachable s \<Longrightarrow> slot_step s t \<Longrightarrow> slot_reachable t"

definition slots_inv :: "slots \<Rightarrow> bool" where
  "slots_inv s \<longleftrightarrow> sl_used s = length (sl_workers s) \<and> sl_used s \<le> maxConcurrentLegacyVerifications"

lemma slot_step_inv: "slot_step s t \<Longrightarrow> slots_inv s \<Longrightarrow> slots_inv t"
  by (induction rule: slot_step.induct) (auto simp: slots_inv_def length_remove1)

lemma slot_reachable_inv: "slot_reachable s \<Longrightarrow> slots_inv s"
proof (induction rule: slot_reachable.induct)
  case start
  show ?case by (simp add: slots_inv_def no_slots_def)
next
  case (step s t)
  then show ?case by (blast intro: slot_step_inv)
qed

subsection \<open>Properties\<close>

text \<open>
  A freshly minted runtime token is recognised by every later step of its life: it has the
  runtime kind and 27 characters, its stored prefix is the one a lookup computes from it, and
  verification against its stored digest succeeds whatever the state of the legacy slots.
\<close>

lemma mint_runtime_token_accepted:
  assumes "MintRuntimeToken sha draw = Some t"
    and "\<And>i n. draw i = Some n \<Longrightarrow> n < 62"
    and "length (sha (tk_raw t)) = 32"
  shows "KindOf (tk_raw t) = KindRuntime \<and> length (tk_raw t) = 27 \<and>
         ParsePrefix (tk_raw t) = Some (tk_prefix t) \<and>
         VerifyTokenContext sha argon slot (tk_raw t) (tk_hash t) = Inr True"
  using assms by (rule minted_runtime_token)

lemma mint_runtime_token_accepted_witness:
  "\<exists>t. MintRuntimeToken (\<lambda>_. replicate 32 CHR ''x'') (\<lambda>_. Some 7) = Some t \<and>
     KindOf (tk_raw t) = KindRuntime \<and> length (tk_raw t) = 27 \<and>
     ParsePrefix (tk_raw t) = Some (tk_prefix t) \<and>
     VerifyTokenContext (\<lambda>_. replicate 32 CHR ''x'') (\<lambda>_ _ _ _ _ _. []) SlotWaitExpired
       (tk_raw t) (tk_hash t) = Inr True"
proof -
  have "random_base62 (\<lambda>_. Some 7) rtTokenBytes \<noteq> None" by code_simp
  then obtain t where t: "MintRuntimeToken (\<lambda>_. replicate 32 CHR ''x'') (\<lambda>_. Some 7) = Some t"
    by (auto simp: MintRuntimeToken_def Let_def)
  show ?thesis using mint_runtime_token_accepted [OF t] t by simp
qed

text \<open>
  Only the secret that was hashed opens a current credential: verification succeeds exactly
  when the SHA-256 digests agree, and it never reports an error or uses a legacy slot.
\<close>

lemma current_hash_verification_exact:
  "length (sha raw') = 32 \<Longrightarrow>
     VerifyTokenContext sha argon slot raw (HashToken sha raw') = Inr (sha raw = sha raw')"
  by (simp add: VerifyTokenContext_current verifySHA256_HashToken)

lemma current_hash_verification_exact_witness:
  "VerifyTokenContext (\<lambda>s. take 32 (s @ replicate 32 CHR ''0'')) (\<lambda>_ _ _ _ _ _. []) SlotWaitExpired
     ''rt_a'' (HashToken (\<lambda>s. take 32 (s @ replicate 32 CHR ''0'')) ''rt_b'') = Inr False"
  by (subst current_hash_verification_exact) (simp_all add: numeral_eq_Suc)

text \<open>
  What the database stores never chooses Argon2's cost: two Argon2 functions that agree on
  the fixed time, memory, threads and key length of the older releases give the same verdict on
  every stored text.
\<close>

lemma argon_cost_is_fixed:
  assumes "\<And>pw salt. argon pw salt argonTime argonMemory argonThreads argonKeyLen =
                      argon' pw salt argonTime argonMemory argonThreads argonKeyLen"
  shows "VerifyTokenContext sha argon slot raw stored = VerifyTokenContext sha argon' slot raw stored"
  using assms
  by (auto simp: VerifyTokenContext_def verifyPHC_def verifyLegacy_def dest!: parsePHC_SomeD
      split: option.splits)

lemma argon_cost_is_fixed_witness:
  "VerifyTokenContext id (\<lambda>pw salt t m p k. if m = argonMemory then pw else salt) SlotWaitExpired ''a'' ''b''
   = VerifyTokenContext id (\<lambda>pw salt t m p k. pw) SlotWaitExpired ''a'' ''b''"
  by (rule argon_cost_is_fixed) simp

text \<open>
  The PHC text of an older release parses back to its salt and digest, with exactly the costs
  that release used.
\<close>

lemma phc_text_roundtrip:
  assumes "length salt = argonSaltLen" and "length hash = argonKeyLen"
  shows "parsePHC (phc_text salt hash) =
     Some \<lparr>ph_salt = salt, ph_hash = hash, ph_mem = argonMemory, ph_time = argonTime,
           ph_threads = argonThreads\<rparr>"
proof -
  have "split_char CHR ''$'' (phc_text salt hash) =
      ['''', ''argon2id'', ''v=19'', ''m=65536,t=3,p=4'',
       b64_encode b64_std_alphabet salt, b64_encode b64_std_alphabet hash]"
    unfolding phc_text_def by (rule split_join) (simp_all add: b64_std_no_dollar)
  then show ?thesis
    using assms by (simp add: parsePHC_def phc_params_legacy phc_decode_def)
qed

lemma phc_text_roundtrip_witness:
  "parsePHC (phc_text (replicate 16 CHR ''s'') (replicate 32 CHR ''h'')) =
     Some \<lparr>ph_salt = replicate 16 CHR ''s'', ph_hash = replicate 32 CHR ''h'', ph_mem = 65536,
           ph_time = 3, ph_threads = 4\<rparr>"
  using phc_text_roundtrip [of "replicate 16 CHR ''s''" "replicate 32 CHR ''h''"]
  by (simp add: argon_consts)

text \<open>
  C16: At most two Argon2 computations run at any time, and a slot is taken exactly while a worker
  runs, also when its caller has given up waiting.
\<close>

theorem legacy_verifications_bounded:
  "slot_reachable s \<Longrightarrow> length (sl_workers s) \<le> 2 \<and> sl_used s = length (sl_workers s)"
  using slot_reachable_inv [of s] by (auto simp: slots_inv_def maxConcurrentLegacyVerifications_def)

theorem legacy_verifications_bounded_witness:
  "length (sl_workers \<lparr>sl_used = 1, sl_workers = [3], sl_waiting = []\<rparr>) \<le> 2 \<and>
   sl_used \<lparr>sl_used = 1, sl_workers = [3], sl_waiting = []\<rparr> =
     length (sl_workers \<lparr>sl_used = 1, sl_workers = [3], sl_waiting = []\<rparr>)"
proof (rule legacy_verifications_bounded)
  have "slot_reachable \<lparr>sl_used = 0, sl_workers = [], sl_waiting = [3]\<rparr>"
    using slot_reachable.step [OF slot_reachable.start slot_step.arrive [of no_slots 3]]
    by (simp add: no_slots_def)
  then show "slot_reachable \<lparr>sl_used = 1, sl_workers = [3], sl_waiting = []\<rparr>"
    using slot_step.acquire [of 3 "\<lparr>sl_used = 0, sl_workers = [], sl_waiting = [3]\<rparr>"]
    by (auto simp: maxConcurrentLegacyVerifications_def intro: slot_reachable.step)
qed

end
