(* ===== verification/Store.thy ===== *)
theory Store
  imports HwPrelude
begin

text \<open>
  The PostgreSQL schema of \<open>internal/db/migrations\<close> (as of migration 6) and the state it holds.
  A table is a list of rows; the constraints the migrations declare (primary keys, foreign keys,
  the \<open>CHECK\<close>s) are the predicate \<open>schema_ok\<close>, and an \<open>INSERT\<close> that would break one is an
  \<open>sql_error\<close>.  The \<open>status\<close> column is text restricted by \<open>tunnels_status_valid\<close> to five
  words, the constructors of \<open>status\<close>.  Serial ids of \<open>tunnel_events\<close> are the row order.

  Every call the server makes to the database has a name in the type \<open>call\<close>.  An environment
  \<open>env\<close> says of each call how it goes (\<open>e_out\<close>) and at which database time (\<open>e_time\<close>): inside a
  transaction a call that is not \<open>Ok\<close> aborts it, a commit or a single statement on the pool may
  also be in doubt.
\<close>

subsection \<open>Rows\<close>

datatype status = Reserved | Active | Closed | Expired | Revoked

fun status_text :: "status \<Rightarrow> string" where
  "status_text Reserved = ''reserved''"
| "status_text Active = ''active''"
| "status_text Closed = ''closed''"
| "status_text Expired = ''expired''"
| "status_text Revoked = ''revoked''"

text \<open>\<open>status IN ('reserved','active','closed')\<close>\<close>

fun non_terminal :: "status \<Rightarrow> bool" where
  "non_terminal Reserved = True"
| "non_terminal Active = True"
| "non_terminal Closed = True"
| "non_terminal Expired = False"
| "non_terminal Revoked = False"

text \<open>Statuses are ordered as their text, which is how \<open>ORDER BY status\<close> lists them.\<close>

instantiation status :: linorder
begin

definition less_eq_status :: "status \<Rightarrow> status \<Rightarrow> bool" where
  "less_eq_status a b = (status_text a \<le> status_text b)"

definition less_status :: "status \<Rightarrow> status \<Rightarrow> bool" where
  "less_status a b = (status_text a < status_text b)"

instance
proof
  have inj: "status_text a = status_text b \<Longrightarrow> a = b" for a b :: status
    by (cases a; cases b) simp_all
  show "(x < y) = (x \<le> y \<and> \<not> y \<le> x)" for x y :: status
    by (auto simp: less_status_def less_eq_status_def)
  show "x \<le> x" for x :: status by (simp add: less_eq_status_def)
  show "x \<le> y \<Longrightarrow> y \<le> z \<Longrightarrow> x \<le> z" for x y z :: status
    by (simp add: less_eq_status_def)
  show "x \<le> y \<Longrightarrow> y \<le> x \<Longrightarrow> x = y" for x y :: status
    by (rule inj) (simp add: less_eq_status_def)
  show "x \<le> y \<or> y \<le> x" for x y :: status by (auto simp: less_eq_status_def)
qed

end

record user_row =
  us_id :: string
  us_email :: "string option"
  us_name :: "string option"
  us_is_admin :: bool
  us_created :: time

record api_token_row =
  at_id :: string
  at_user :: string
  at_name :: string
  at_prefix :: string
  at_hash :: string
  at_revoked :: "time option"
  at_created :: time

record tunnel_row =
  tn_id :: string
  tn_user :: string
  tn_type :: string
  tn_local_host :: string
  tn_local_port :: int
  tn_status :: status
  tn_expires :: "time option"
  tn_created :: time

record rt_row =
  rt_id :: string
  rt_tunnel :: string
  rt_prefix :: string
  rt_hash :: string
  rt_expires :: time
  rt_last_used :: "time option"
  rt_use_count :: int
  rt_revoked :: "time option"
  rt_created :: time

text \<open>The JSON of an event's payload column: a new status, or a connection report.\<close>

datatype payload = NewStatus status | ConnReport string string

record event_row =
  ev_tunnel :: string
  ev_type :: string
  ev_payload :: payload
  ev_created :: time

record idem_row =
  ik_token :: string
  ik_key :: string
  ik_hash :: string
  ik_status :: "int option"
  ik_body :: "string option"
  ik_completed :: "time option"
  ik_created :: time

record db =
  db_users :: "user_row list"
  db_api_tokens :: "api_token_row list"
  db_tunnels :: "tunnel_row list"
  db_rt_tokens :: "rt_row list"
  db_events :: "event_row list"
  db_idem :: "idem_row list"

definition empty_db :: db where
  "empty_db = \<lparr>db_users = [], db_api_tokens = [], db_tunnels = [], db_rt_tokens = [],
               db_events = [], db_idem = []\<rparr>"

abbreviation ik_pk :: "idem_row \<Rightarrow> string \<times> string" where
  "ik_pk r \<equiv> (ik_token r, ik_key r)"

definition find_tunnel :: "string \<Rightarrow> db \<Rightarrow> tunnel_row option" where
  "find_tunnel tid d = find_by tn_id tid (db_tunnels d)"

definition find_idem :: "string \<Rightarrow> string \<Rightarrow> db \<Rightarrow> idem_row option" where
  "find_idem tok key d = find_by ik_pk (tok, key) (db_idem d)"

subsection \<open>Constraints\<close>

definition idem_completion_valid :: "idem_row \<Rightarrow> bool" where
  "idem_completion_valid r \<longleftrightarrow>
     (ik_completed r = None \<and> ik_status r = None \<and> ik_body r = None) \<or>
     (ik_completed r \<noteq> None \<and> (\<exists>s. ik_status r = Some s \<and> 100 \<le> s \<and> s \<le> 599))"

definition schema_ok :: "db \<Rightarrow> bool" where
  "schema_ok d \<longleftrightarrow>
     distinct (map us_id (db_users d)) \<and>
     distinct (map at_id (db_api_tokens d)) \<and>
     distinct (map tn_id (db_tunnels d)) \<and>
     distinct (map rt_id (db_rt_tokens d)) \<and>
     distinct (map ik_pk (db_idem d)) \<and>
     distinct (filter (\<lambda>e. e \<noteq> None) (map us_email (db_users d))) \<and>
     (\<forall>t \<in> set (db_api_tokens d). at_user t \<in> us_id ` set (db_users d)) \<and>
     (\<forall>t \<in> set (db_tunnels d). tn_user t \<in> us_id ` set (db_users d)) \<and>
     (\<forall>t \<in> set (db_tunnels d). 1 \<le> tn_local_port t \<and> tn_local_port t \<le> 65535) \<and>
     (\<forall>t \<in> set (db_rt_tokens d). rt_tunnel t \<in> tn_id ` set (db_tunnels d)) \<and>
     (\<forall>t \<in> set (db_rt_tokens d). 0 \<le> rt_use_count t) \<and>
     (\<forall>r \<in> set (db_idem d). ik_token r \<in> at_id ` set (db_api_tokens d)) \<and>
     (\<forall>r \<in> set (db_idem d). idem_completion_valid r)"

datatype sql_error = UniqueViolation | ForeignKeyViolation | CheckViolation

subsection \<open>The calls to the database\<close>

datatype (plugins only: size code) call =
    TrBegin | TrLookup | TrTTL | TrUpdate | TrEvent | TrCommit
  | RvBegin | RvLookup | RvUpdate | RvEvent | RvTokens | RvCommit
  | RpBegin | RpUpdate | RpScan | RpIter | RpEvent string | RpCommit
  | SwEvents | SwIdem | SwTokens
  | CtBegin | CtLock | CtCount | CtInsert nat | CtToken | CtEvent | CtComplete | CtCommit
  | LsQuery | LsScan | LsIter | GtQuery
  | IdReserve | IdSelect | IdRelease | IdUncache | IdPersist | IdPanicRelease
  | AuQuery | AuScan | AuIter
  | PlQuery | PlScan | PlIter | PlUsage | PlStatus | PlGate | PlConn
  | CmCount | CmBegin | CmUser | CmToken | CmCommit | CmExec | CmQuery | CmScan | CmIter

record env =
  e_out :: "call \<Rightarrow> outcome"
  e_time :: "call \<Rightarrow> time"

abbreviation ok :: "env \<Rightarrow> call \<Rightarrow> bool" where
  "ok e c \<equiv> e_out e c = Ok"

text \<open>A call outside a transaction: whether its effect happened, and whether it reported success.\<close>

definition pool_exec :: "env \<Rightarrow> call \<Rightarrow> ('s \<Rightarrow> 's) \<Rightarrow> 's \<Rightarrow> 's \<times> bool" where
  "pool_exec e c f s = (case e_out e c of Ok \<Rightarrow> (f s, True) | Fail \<Rightarrow> (s, False) | InDoubt \<Rightarrow> (f s, False))"

text \<open>The commit of a transaction that turned \<open>s\<close> into \<open>s'\<close>.\<close>

definition commit :: "env \<Rightarrow> call \<Rightarrow> 's \<Rightarrow> 's \<Rightarrow> 's \<times> bool" where
  "commit e c s s' = pool_exec e c (\<lambda>_. s') s"

lemma commit_simps:
  "e_out e c = Ok \<Longrightarrow> commit e c s s' = (s', True)"
  "e_out e c = Fail \<Longrightarrow> commit e c s s' = (s, False)"
  "e_out e c = InDoubt \<Longrightarrow> commit e c s s' = (s', False)"
  by (simp_all add: commit_def pool_exec_def)

lemma commit_cases:
  obtains (committed) "ok e c" "commit e c s s' = (s', True)"
  | (failed) "e_out e c = Fail" "commit e c s s' = (s, False)"
  | (in_doubt) "e_out e c = InDoubt" "commit e c s s' = (s', False)"
  by (cases "e_out e c") (auto simp: commit_simps)

lemma commit_inv: "P s \<Longrightarrow> P s' \<Longrightarrow> P (fst (commit e c s s'))"
  by (cases "e_out e c") (auto simp: commit_simps)

lemma pool_exec_inv: "P s \<Longrightarrow> P (f s) \<Longrightarrow> P (fst (pool_exec e c f s))"
  by (cases "e_out e c") (auto simp: pool_exec_def)

lemma commit_True: "commit e c s s' = (t, True) \<Longrightarrow> t = s' \<and> ok e c"
  by (cases "e_out e c") (auto simp: commit_simps)

lemma commit_fst: "fst (commit e c s s') = s \<or> fst (commit e c s s') = s'"
  by (cases "e_out e c") (auto simp: commit_simps)

text \<open>Everything goes well, at one time: the environment of the examples.\<close>

definition calm :: "time \<Rightarrow> env" where
  "calm t = \<lparr>e_out = (\<lambda>_. Ok), e_time = (\<lambda>_. t)\<rparr>"

lemma calm_simps [simp]: "e_out (calm t) c = Ok" "e_time (calm t) c = t"
  by (simp_all add: calm_def)

lemma schema_ok_empty: "schema_ok empty_db"
  by (simp add: schema_ok_def empty_db_def)

lemma find_tunnel_SomeD: "find_tunnel tid d = Some r \<Longrightarrow> r \<in> set (db_tunnels d) \<and> tn_id r = tid"
  unfolding find_tunnel_def by (rule find_by_SomeD)

lemma find_tunnel_in:
  "schema_ok d \<Longrightarrow> r \<in> set (db_tunnels d) \<Longrightarrow> find_tunnel (tn_id r) d = Some r"
  by (simp add: find_tunnel_def schema_ok_def find_by_in_set)

text \<open>Projections of \<open>schema_ok\<close> used throughout.\<close>

lemma schema_okD:
  assumes "schema_ok d"
  shows "distinct (map tn_id (db_tunnels d))" "distinct (map rt_id (db_rt_tokens d))"
    "distinct (map ik_pk (db_idem d))" "distinct (map at_id (db_api_tokens d))"
    "distinct (map us_id (db_users d))"
  using assms by (simp_all add: schema_ok_def)

lemma schema_ok_tunnels:
  assumes "schema_ok d" and "map tn_id ts = map tn_id (db_tunnels d)"
    and "map tn_user ts = map tn_user (db_tunnels d)"
    and "map tn_local_port ts = map tn_local_port (db_tunnels d)"
  shows "schema_ok (d\<lparr>db_tunnels := ts\<rparr>)"
proof -
  have ids: "tn_id ` set ts = tn_id ` set (db_tunnels d)"
    and u: "tn_user ` set ts = tn_user ` set (db_tunnels d)"
    and p: "tn_local_port ` set ts = tn_local_port ` set (db_tunnels d)"
    using assms(2-4) by (simp_all flip: set_map)
  have "tn_user ` set (db_tunnels d) \<subseteq> us_id ` set (db_users d)"
    and "tn_local_port ` set (db_tunnels d) \<subseteq> {1..65535}"
    using assms(1) by (auto simp: schema_ok_def)
  then have "tn_user ` set ts \<subseteq> us_id ` set (db_users d)" "tn_local_port ` set ts \<subseteq> {1..65535}"
    by (simp_all add: u p)
  then have "\<forall>t \<in> set ts. tn_user t \<in> us_id ` set (db_users d)"
    "\<forall>t \<in> set ts. 1 \<le> tn_local_port t \<and> tn_local_port t \<le> 65535"
    by auto
  then show ?thesis using assms(1,2) ids by (simp add: schema_ok_def)
qed

lemma schema_ok_rt_tokens:
  assumes "schema_ok d" and "distinct (map rt_id ts)"
    and "\<And>t. t \<in> set ts \<Longrightarrow> rt_tunnel t \<in> tn_id ` set (db_tunnels d) \<and> 0 \<le> rt_use_count t"
  shows "schema_ok (d\<lparr>db_rt_tokens := ts\<rparr>)"
  using assms by (simp add: schema_ok_def)

lemma schema_ok_events: "schema_ok (d\<lparr>db_events := es\<rparr>) = schema_ok d"
  by (simp add: schema_ok_def)

lemma schema_ok_idem:
  assumes "schema_ok d" and "distinct (map ik_pk rs)"
    and "\<And>r. r \<in> set rs \<Longrightarrow> ik_token r \<in> at_id ` set (db_api_tokens d) \<and> idem_completion_valid r"
  shows "schema_ok (d\<lparr>db_idem := rs\<rparr>)"
  using assms by (simp add: schema_ok_def)

subsection \<open>An example database\<close>

text \<open>One user with one API key and one tunnel with one runtime credential, used by the examples.\<close>

definition sample_db :: "status \<Rightarrow> time \<Rightarrow> db" where
  "sample_db st expires =
     \<lparr>db_users = [\<lparr>us_id = ''u1'', us_email = None, us_name = None, us_is_admin = False, us_created = 0\<rparr>],
      db_api_tokens = [\<lparr>at_id = ''k1'', at_user = ''u1'', at_name = ''laptop'', at_prefix = ''sk_live_AAAA'',
                        at_hash = ''sha256:x'', at_revoked = None, at_created = 0\<rparr>],
      db_tunnels = [\<lparr>tn_id = ''t1'', tn_user = ''u1'', tn_type = ''http'', tn_local_host = ''127.0.0.1'',
                     tn_local_port = 3000, tn_status = st, tn_expires = Some expires, tn_created = 0\<rparr>],
      db_rt_tokens = [\<lparr>rt_id = ''r1'', rt_tunnel = ''t1'', rt_prefix = ''rt_AAAAAAAAA'', rt_hash = ''sha256:y'',
                       rt_expires = expires, rt_last_used = None, rt_use_count = 0, rt_revoked = None,
                       rt_created = 0\<rparr>],
      db_events = [\<lparr>ev_tunnel = ''t1'', ev_type = ''NewTunnel'', ev_payload = NewStatus st, ev_created = 0\<rparr>],
      db_idem = []\<rparr>"

lemma schema_ok_sample [simp]: "schema_ok (sample_db st expires)"
  by (simp add: schema_ok_def sample_db_def)

lemma find_tunnel_sample:
  "find_tunnel ''t1'' (sample_db st expires) = Some (hd (db_tunnels (sample_db st expires)))"
  by (simp add: find_tunnel_def sample_db_def)

end
