(* ===== verification/Http.thy ===== *)
theory Http
  imports Json
begin

text \<open>
  HTTP as the handlers see it: a request with its body reader, what a handler does to its
  \<open>ResponseWriter\<close> as a list of writes, the response those writes amount to, the request
  context of \<open>internal/server/api/context.go\<close> and the error envelope of
  \<open>internal/server/api/errors.go\<close>.
\<close>

subsection \<open>Requests\<close>

text \<open>
  \<open>rq_limit\<close> is the bound installed by \<open>http.MaxBytesReader\<close>, \<open>rq_broken_at\<close> the number of
  bytes after which the connection fails, if it does.
\<close>

record request =
  rq_method :: string
  rq_path :: string
  rq_escaped_path :: string
  rq_raw_query :: string
  rq_headers :: "(string \<times> string) list"
  rq_body :: string
  rq_broken_at :: "nat option"
  rq_limit :: "nat option"

definition header_get :: "string \<Rightarrow> request \<Rightarrow> string" where
  "header_get k r = (case map_of (rq_headers r) k of None \<Rightarrow> '''' | Some v \<Rightarrow> v)"

text \<open>\<open>Header.Values\<close>: every value of the header, in order.\<close>

definition header_values :: "string \<Rightarrow> request \<Rightarrow> string list" where
  "header_values k r = map snd (filter (\<lambda>(k', _). k' = k) (rq_headers r))"

text \<open>What a reader of the body sees: some bytes, and how they end.\<close>

datatype body_end = BodyEOF | BodyTooLarge | BodyError

definition read_body :: "request \<Rightarrow> string \<times> body_end" where
  "read_body r =
     (let avail = (case rq_broken_at r of None \<Rightarrow> rq_body r | Some k \<Rightarrow> take k (rq_body r));
          natural = (case rq_broken_at r of None \<Rightarrow> BodyEOF | Some _ \<Rightarrow> BodyError)
      in case rq_limit r of
           None \<Rightarrow> (avail, natural)
         | Some n \<Rightarrow> if n < length avail then (take n avail, BodyTooLarge) else (avail, natural))"

lemma read_body_limit: "rq_limit r = Some n \<Longrightarrow> length (fst (read_body r)) \<le> n"
  by (auto simp: read_body_def Let_def split: option.splits)

lemma read_body_whole: "snd (read_body r) = BodyEOF \<Longrightarrow> fst (read_body r) = rq_body r"
  by (auto simp: read_body_def Let_def split: option.splits if_splits)

subsection \<open>Responses\<close>

text \<open>\<open>Panicked\<close> ends the writes of a handler that panics; what was written before it stands.\<close>

datatype wop = SetHeader string string | WriteHeader int | WriteBody string | Panicked

record response =
  rs_status :: int
  rs_headers :: "(string \<times> string) list"
  rs_body :: string

text \<open>
  \<open>net/http\<close>'s writer: the first \<open>WriteHeader\<close> fixes the status, a \<open>Write\<close> before it means
  200, headers set after it are not sent.
\<close>

record writer =
  wr_wrote :: "int option"
  wr_headers :: "(string \<times> string) list"
  wr_body :: string

definition new_writer :: writer where
  "new_writer = \<lparr>wr_wrote = None, wr_headers = [], wr_body = []\<rparr>"

fun wr_step :: "writer \<Rightarrow> wop \<Rightarrow> writer" where
  "wr_step w (SetHeader k v) =
     (if wr_wrote w = None
      then w\<lparr>wr_headers := (k, v) # filter (\<lambda>(k', _). k' \<noteq> k) (wr_headers w)\<rparr> else w)"
| "wr_step w (WriteHeader c) = (if wr_wrote w = None then w\<lparr>wr_wrote := Some c\<rparr> else w)"
| "wr_step w (WriteBody b) =
     w\<lparr>wr_wrote := (case wr_wrote w of None \<Rightarrow> Some 200 | s \<Rightarrow> s), wr_body := wr_body w @ b\<rparr>"
| "wr_step w Panicked = w"

definition finish :: "writer \<Rightarrow> response" where
  "finish w = \<lparr>rs_status = (case wr_wrote w of None \<Rightarrow> 200 | Some c \<Rightarrow> c),
               rs_headers = wr_headers w, rs_body = wr_body w\<rparr>"

definition render :: "wop list \<Rightarrow> response" where
  "render ops = finish (foldl wr_step new_writer ops)"

lemmas render_simps = render_def finish_def new_writer_def

definition is_2xx :: "int \<Rightarrow> bool" where
  "is_2xx s \<longleftrightarrow> 200 \<le> s \<and> s < 300"

subsection \<open>Errors (errors.go)\<close>

datatype error_code = ErrUnauthenticated | ErrForbidden | ErrNotFound | ErrRateLimited
  | ErrQuotaExceeded | ErrInvalidRequest | ErrInternal

fun code_text :: "error_code \<Rightarrow> string" where
  "code_text ErrUnauthenticated = ''UNAUTHENTICATED''"
| "code_text ErrForbidden = ''FORBIDDEN''"
| "code_text ErrNotFound = ''NOT_FOUND''"
| "code_text ErrRateLimited = ''RATE_LIMITED''"
| "code_text ErrQuotaExceeded = ''QUOTA_EXCEEDED''"
| "code_text ErrInvalidRequest = ''INVALID_REQUEST''"
| "code_text ErrInternal = ''INTERNAL''"

definition error_body :: "error_code \<Rightarrow> string \<Rightarrow> string" where
  "error_body code msg =
     json_text (JObj [(''error'', JObj [(''code'', JStr (code_text code)), (''message'', JStr msg)])])
       @ ''\<newline>''"

definition WriteError :: "int \<Rightarrow> error_code \<Rightarrow> string \<Rightarrow> wop list" where
  "WriteError status code msg =
     [SetHeader ''Content-Type'' ''application/json'', WriteHeader status,
      WriteBody (error_body code msg)]"

lemma render_WriteError [simp]:
  "render (WriteError st code msg) =
     \<lparr>rs_status = st, rs_headers = [(''Content-Type'', ''application/json'')],
      rs_body = error_body code msg\<rparr>"
  by (simp add: WriteError_def render_simps)

subsection \<open>The request context (context.go)\<close>

text \<open>
  The values attached under the package's context keys, and the idempotency reservation that
  \<open>handleIdempotentRequest\<close> attaches.
\<close>

record reservation =
  rv_token :: string
  rv_key :: string

record ctx =
  cx_token_id :: "string option"
  cx_user_id :: "string option"
  cx_is_admin :: "bool option"
  cx_reservation :: "reservation option"

definition background :: ctx where
  "background = \<lparr>cx_token_id = None, cx_user_id = None, cx_is_admin = None, cx_reservation = None\<rparr>"

definition ContextWithAuth :: "ctx \<Rightarrow> string \<Rightarrow> string \<Rightarrow> ctx" where
  "ContextWithAuth c tid uid = c\<lparr>cx_token_id := Some tid, cx_user_id := Some uid\<rparr>"

definition ContextWithAdmin :: "ctx \<Rightarrow> string \<Rightarrow> string \<Rightarrow> bool \<Rightarrow> ctx" where
  "ContextWithAdmin c tid uid adm = (ContextWithAuth c tid uid)\<lparr>cx_is_admin := Some adm\<rparr>"

definition TokenIDFromContext :: "ctx \<Rightarrow> string" where
  "TokenIDFromContext c = (case cx_token_id c of None \<Rightarrow> '''' | Some v \<Rightarrow> v)"

definition UserIDFromContext :: "ctx \<Rightarrow> string" where
  "UserIDFromContext c = (case cx_user_id c of None \<Rightarrow> '''' | Some v \<Rightarrow> v)"

definition IsAdminFromContext :: "ctx \<Rightarrow> bool" where
  "IsAdminFromContext c = (case cx_is_admin c of None \<Rightarrow> False | Some v \<Rightarrow> v)"

lemmas context_defs = ContextWithAuth_def ContextWithAdmin_def TokenIDFromContext_def
  UserIDFromContext_def IsAdminFromContext_def background_def

end
