(* ===== verification/Metrics.thy ===== *)
theory Metrics
  imports Store Http
begin

text \<open>
  The process counters and the Prometheus page of \<open>internal/server/api/metrics.go\<close>.
\<close>

record metrics =
  mt_ops :: "(string \<times> nat) list"
  mt_deadline :: nat
  mt_rate_rejects :: nat
  mt_transitions :: nat

definition NewMetrics :: metrics where
  "NewMetrics = \<lparr>mt_ops = map (\<lambda>op. (op, 0))
       [''Login'', ''NewProxy'', ''CloseProxy'', ''NewUserConn'', ''Ping'', ''NewWorkConn''],
     mt_deadline = 0, mt_rate_rejects = 0, mt_transitions = 0\<rparr>"

definition IncrPluginOp :: "string \<Rightarrow> metrics \<Rightarrow> metrics" where
  "IncrPluginOp op m = m\<lparr>mt_ops := map (\<lambda>(k, n). if k = op then (k, n + 1) else (k, n)) (mt_ops m)\<rparr>"

definition IncrPluginDeadlineExceeded :: "metrics \<Rightarrow> metrics" where
  "IncrPluginDeadlineExceeded m = m\<lparr>mt_deadline := mt_deadline m + 1\<rparr>"

definition IncrRateLimitReject :: "metrics \<Rightarrow> metrics" where
  "IncrRateLimitReject m = m\<lparr>mt_rate_rejects := mt_rate_rejects m + 1\<rparr>"

definition IncrTransition :: "metrics \<Rightarrow> metrics" where
  "IncrTransition m = m\<lparr>mt_transitions := mt_transitions m + 1\<rparr>"

text \<open>
  The page: counters in the order of their names, then, when the query on \<open>tunnels\<close> succeeds,
  one gauge per status that occurs, in the order of the status text.  The pool statistics are
  the parameters \<open>total_conns\<close> and \<open>idle_conns\<close>.
\<close>

definition status_counts :: "db \<Rightarrow> (status \<times> nat) list" where
  "status_counts d =
     map (\<lambda>s. (s, count_where (\<lambda>r. tn_status r = s) (db_tunnels d)))
       (sort (remdups (map tn_status (db_tunnels d))))"

definition counter_lines :: "metrics \<Rightarrow> string" where
  "counter_lines m =
     ''# HELP hatchway_plugin_ops_total frps plugin callback count by op.\<newline>'' @
     ''# TYPE hatchway_plugin_ops_total counter\<newline>'' @
     concat (map (\<lambda>(op, n). ''hatchway_plugin_ops_total{op='' @ [quote_char] @ op @ [quote_char] @ ''} ''
         @ show_nat n @ ''\<newline>'') (sort_key fst (mt_ops m))) @
     ''# HELP hatchway_rate_limit_rejections_total Requests rejected by the API rate limiter.\<newline>'' @
     ''# TYPE hatchway_rate_limit_rejections_total counter\<newline>'' @
     ''hatchway_rate_limit_rejections_total '' @ show_nat (mt_rate_rejects m) @ ''\<newline>'' @
     ''# HELP hatchway_plugin_deadline_exceeded_total Plugin callbacks that tripped the request deadline.\<newline>'' @
     ''# TYPE hatchway_plugin_deadline_exceeded_total counter\<newline>'' @
     ''hatchway_plugin_deadline_exceeded_total '' @ show_nat (mt_deadline m) @ ''\<newline>'' @
     ''# HELP hatchway_tunnel_transitions_total Tunnel state machine transitions.\<newline>'' @
     ''# TYPE hatchway_tunnel_transitions_total counter\<newline>'' @
     ''hatchway_tunnel_transitions_total '' @ show_nat (mt_transitions m) @ ''\<newline>''"

definition status_lines :: "db \<Rightarrow> string" where
  "status_lines d =
     ''# HELP hatchway_tunnels_by_status Tunnel count grouped by status.\<newline>'' @
     ''# TYPE hatchway_tunnels_by_status gauge\<newline>'' @
     concat (map (\<lambda>(s, n). ''hatchway_tunnels_by_status{status='' @ [quote_char] @ status_text s
         @ [quote_char] @ ''} '' @ show_nat n @ ''\<newline>'') (status_counts d))"

definition pool_lines :: "nat \<Rightarrow> nat \<Rightarrow> string" where
  "pool_lines total_conns idle_conns =
     ''# HELP hatchway_db_pool_total_connections Total pgx pool connections.\<newline>'' @
     ''# TYPE hatchway_db_pool_total_connections gauge\<newline>'' @
     ''hatchway_db_pool_total_connections '' @ show_nat total_conns @ ''\<newline>'' @
     ''# HELP hatchway_db_pool_idle_connections Idle pgx pool connections.\<newline>'' @
     ''# TYPE hatchway_db_pool_idle_connections gauge\<newline>'' @
     ''hatchway_db_pool_idle_connections '' @ show_nat idle_conns @ ''\<newline>''"

definition MetricsHandler :: "db option \<Rightarrow> bool \<Rightarrow> nat \<Rightarrow> nat \<Rightarrow> metrics \<Rightarrow> wop list" where
  "MetricsHandler pool query_ok total_conns idle_conns m =
     [SetHeader ''Content-Type'' ''text/plain; version=0.0.4'',
      WriteBody (counter_lines m @
        (case pool of None \<Rightarrow> []
         | Some d \<Rightarrow> (if query_ok then status_lines d else []) @ pool_lines total_conns idle_conns))]"

subsection \<open>Lemmas\<close>

text \<open>Operations that are not in the fixed table of names are not counted: the table never grows.\<close>

lemma IncrPluginOp_names: "map fst (mt_ops (IncrPluginOp op m)) = map fst (mt_ops m)"
  by (auto simp: IncrPluginOp_def)

lemma map_of_incr:
  "map_of (map (\<lambda>(k, n). if k = op then (k, n + 1) else (k, n)) kvs) k =
     map_option (\<lambda>n. if k = op then n + 1 else n) (map_of kvs k)" for kvs :: "(string \<times> nat) list"
  by (induction kvs) auto

lemma IncrPluginOp_lookup:
  "map_of (mt_ops (IncrPluginOp op m)) k = map_option (\<lambda>n. if k = op then n + 1 else n) (map_of (mt_ops m) k)"
  by (simp add: IncrPluginOp_def map_of_incr)

text \<open>The gauges partition the table: they add up to the number of tunnels, none is zero.\<close>

lemma sum_count_where:
  assumes "finite A" and "\<forall>r \<in> set rs. g r \<in> A"
  shows "(\<Sum>a \<in> A. count_where (\<lambda>r. g r = a) rs) = length rs"
  using assms(2)
proof (induction rs)
  case (Cons r rs)
  have "(\<Sum>a \<in> A. count_where (\<lambda>r. g r = a) (r # rs)) =
      (\<Sum>a \<in> A. count_where (\<lambda>r. g r = a) rs + (if g r = a then 1 else 0))"
    by (rule sum.cong) auto
  also have "\<dots> = length rs + 1"
    using Cons assms(1) by (simp add: sum.distrib)
  finally show ?case by simp
qed simp

lemma status_counts_total: "sum_list (map snd (status_counts d)) = length (db_tunnels d)"
proof -
  let ?ss = "sort (remdups (map tn_status (db_tunnels d)))"
  have d: "distinct ?ss" by simp
  have "sum_list (map snd (status_counts d)) =
      (\<Sum>s \<leftarrow> ?ss. count_where (\<lambda>r. tn_status r = s) (db_tunnels d))"
    by (simp add: status_counts_def comp_def)
  also have "\<dots> = (\<Sum>s \<in> set ?ss. count_where (\<lambda>r. tn_status r = s) (db_tunnels d))"
    by (rule sum_list_distinct_conv_sum_set [OF d])
  also have "\<dots> = length (db_tunnels d)"
    by (rule sum_count_where) auto
  finally show ?thesis .
qed

lemma status_counts_positive: "(s, n) \<in> set (status_counts d) \<Longrightarrow> 0 < n"
  by (auto simp: status_counts_def count_where_pos_iff)

end
