(* ===== verification/Float64.thy ===== *)
theory Float64
  imports Complex_Main "HOL-Library.Log_Nat"
begin

text \<open>
  Go's \<open>float64\<close>: every operation is exact and then rounded to 53 binary digits, ties to even, as
  IEEE 754 prescribes.  The limits of the exponent are left out: the operands of \<open>internal/server/api/ratelimit.go\<close>
  are 0 or between \<open>2\<^sup>-\<^sup>7\<^sup>0\<close> and \<open>2\<^sup>1\<^sup>3\<^sup>0\<close>, far from them.
\<close>

subsection \<open>Double precision\<close>

definition two_to :: "int \<Rightarrow> rat" where
  "two_to e = (if 0 \<le> e then 2 ^ nat e else 1 / 2 ^ nat (- e))"

definition round_half_even :: "rat \<Rightarrow> int" where
  "round_half_even x =
     (let n = \<lfloor>x\<rfloor>; d = x - of_int n
      in if d < 1 / 2 then n else if 1 / 2 < d then n + 1 else if even n then n else n + 1)"

text \<open>The exponent of the last of the 53 digits of a positive number.\<close>

definition last_exponent :: "rat \<Rightarrow> int" where
  "last_exponent x =
     (case quotient_of x of
        (p, q) \<Rightarrow>
          (let e = bitlen p - bitlen q - 53
           in if x < 2 ^ 53 * two_to e then e else e + 1))"

definition float64_pos :: "rat \<Rightarrow> rat" where
  "float64_pos x = (let e = last_exponent x in of_int (round_half_even (x / two_to e)) * two_to e)"

definition float64 :: "rat \<Rightarrow> rat" where
  "float64 x = (if x = 0 then 0 else if 0 < x then float64_pos x else - float64_pos (- x))"

lemma float64_0 [simp]: "float64 0 = 0"
  by (simp add: float64_def)

lemma two_to_pos [simp]: "0 < two_to e"
  by (simp add: two_to_def)

lemma two_to_nonneg [simp]: "0 \<le> two_to e" "two_to e \<noteq> 0"
  by (rule less_imp_le, rule two_to_pos) (metis two_to_pos less_irrefl)

lemma two_to_Suc: "two_to (e + 1) = 2 * two_to e"
proof (cases "0 \<le> e")
  case True
  then have "nat (e + 1) = Suc (nat e)" by simp
  with True show ?thesis by (simp add: two_to_def)
next
  case False
  then have "nat (- e) = Suc (nat (- (e + 1)))" by simp
  with False show ?thesis by (cases "e = - 1") (simp_all add: two_to_def)
qed

lemma two_to_add_nat: "two_to (e + int n) = two_to e * 2 ^ n"
proof (induction n)
  case (Suc n)
  have "two_to (e + int (Suc n)) = two_to ((e + int n) + 1)" by (simp add: algebra_simps)
  then show ?case using Suc by (simp add: two_to_Suc)
qed simp

lemma two_to_add: "two_to (a + b) = two_to a * two_to b"
proof (cases "0 \<le> b")
  case True
  then show ?thesis using two_to_add_nat [of a "nat b"] by (simp add: two_to_def [of b])
next
  case False
  then have "two_to a = two_to (a + b) * 2 ^ nat (- b)" using two_to_add_nat [of "a + b" "nat (- b)"] by simp
  with False show ?thesis by (simp add: two_to_def [of b])
qed

lemma two_to_0 [simp]: "two_to 0 = 1"
  by (simp add: two_to_def)

lemma two_to_numeral: "two_to (numeral n) = 2 ^ numeral n"
  by (simp add: two_to_def)

lemma two_to_mono: "a \<le> b \<Longrightarrow> two_to a \<le> two_to b"
proof -
  assume "a \<le> b"
  then have "two_to b = two_to a * 2 ^ nat (b - a)" using two_to_add_nat [of a "nat (b - a)"] by simp
  then show ?thesis using mult_left_mono [of 1 "2 ^ nat (b - a)" "two_to a"] by simp
qed

lemma bitlen_two_to:
  assumes "0 < p"
  shows "two_to (bitlen p - 1) \<le> of_int p" "of_int p < two_to (bitlen p)"
proof -
  note b = bitlen_bounds [OF assms]
  have "1 \<le> bitlen p" using assms by (simp add: bitlen_alt_def)
  then have "two_to (bitlen p - 1) = of_int (2 ^ nat (bitlen p - 1))" "two_to (bitlen p) = of_int (2 ^ nat (bitlen p))"
    by (simp_all add: two_to_def)
  with b show "two_to (bitlen p - 1) \<le> of_int p" "of_int p < two_to (bitlen p)"
    by (metis of_int_le_iff, metis of_int_less_iff)
qed

text \<open>With that exponent a positive number has exactly 53 digits before the point.\<close>

lemma last_exponent_bounds:
  assumes "0 < x"
  shows "2 ^ 52 * two_to (last_exponent x) \<le> x" "x < 2 ^ 53 * two_to (last_exponent x)"
proof -
  obtain p q where pq: "quotient_of x = (p, q)" by (cases "quotient_of x")
  have q: "0 < q" and x: "x = of_int p / of_int q"
    using quotient_of_denom_pos [OF pq] quotient_of_div [OF pq] by simp_all
  have p: "0 < p" using assms q unfolding x by (simp add: zero_less_divide_iff)
  define e where "e = bitlen p - bitlen q - 53"
  have split: "bitlen p - 1 = 52 + e + bitlen q" "bitlen p = 54 + e + (bitlen q - 1)" by (simp_all add: e_def)
  have "2 ^ 52 * two_to e * two_to (bitlen q) \<le> of_int p"
    using bitlen_two_to(1) [OF p] unfolding split(1) two_to_add two_to_numeral by simp
  moreover have "2 ^ 52 * two_to e * of_int q \<le> 2 ^ 52 * two_to e * two_to (bitlen q)"
    using bitlen_two_to(2) [OF q] by (intro mult_left_mono) simp_all
  ultimately have "2 ^ 52 * two_to e * of_int q \<le> of_int p" by (rule order.trans [rotated])
  then have lower: "2 ^ 52 * two_to e \<le> x" using q by (simp add: x pos_le_divide_eq)
  have "of_int p < 2 ^ 54 * two_to e * two_to (bitlen q - 1)"
    using bitlen_two_to(2) [OF p] unfolding split(2) two_to_add two_to_numeral by simp
  also have "\<dots> \<le> 2 ^ 54 * two_to e * of_int q"
    using bitlen_two_to(1) [OF q] by (intro mult_left_mono) simp_all
  finally have upper: "x < 2 ^ 54 * two_to e" using q by (simp add: x pos_divide_less_eq)
  have le: "last_exponent x = (if x < 2 ^ 53 * two_to e then e else e + 1)"
    by (simp add: last_exponent_def pq e_def Let_def)
  show "2 ^ 52 * two_to (last_exponent x) \<le> x" "x < 2 ^ 53 * two_to (last_exponent x)"
    using lower upper by (auto simp: le two_to_Suc)
qed

lemma round_half_even_error: "\<bar>of_int (round_half_even x) - x\<bar> \<le> 1 / 2"
proof -
  have "0 \<le> x - of_int \<lfloor>x\<rfloor>" "x - of_int \<lfloor>x\<rfloor> < 1" by linarith+
  then show ?thesis by (auto simp: round_half_even_def Let_def abs_le_iff)
qed

lemma round_half_even_int [simp]: "round_half_even (of_int n) = n"
  by (simp add: round_half_even_def)

text \<open>What the proofs use: the relative error of one operation, and that integers up to \<open>2\<^sup>5\<^sup>3\<close> are exact.\<close>

lemma float64_error:
  assumes "0 \<le> x"
  shows "\<bar>float64 x - x\<bar> \<le> x / 2 ^ 53"
proof (cases "x = 0")
  case False
  with assms have pos: "0 < x" by simp
  let ?u = "two_to (last_exponent x)"
  have "float64 x - x = (of_int (round_half_even (x / ?u)) - x / ?u) * ?u"
    using pos by (simp add: float64_def float64_pos_def Let_def field_simps)
  then have "\<bar>float64 x - x\<bar> = \<bar>of_int (round_half_even (x / ?u)) - x / ?u\<bar> * ?u"
    by (simp add: abs_mult less_imp_le)
  also have "\<dots> \<le> 1 / 2 * ?u" by (intro mult_right_mono round_half_even_error) (simp add: less_imp_le)
  also have "\<dots> \<le> x / 2 ^ 53" using last_exponent_bounds(1) [OF pos] by simp
  finally show ?thesis .
qed (simp add: float64_def)

definition rounds_up :: rat where "rounds_up = 1 + 1 / 2 ^ 53"
definition rounds_down :: rat where "rounds_down = 1 - 1 / 2 ^ 53"

lemma rounds_facts: "1 \<le> rounds_up" "0 \<le> rounds_down" "rounds_down \<le> 1"
  by (simp_all add: rounds_up_def rounds_down_def)

lemma float64_bounds:
  assumes "0 \<le> x"
  shows "float64 x \<le> x * rounds_up" "x * rounds_down \<le> float64 x" "0 \<le> float64 x"
proof -
  note e = float64_error [OF assms]
  show "float64 x \<le> x * rounds_up" and down: "x * rounds_down \<le> float64 x"
    using e by (simp_all only: abs_le_iff rounds_up_def rounds_down_def distrib_left right_diff_distrib) (simp_all add: field_simps)
  have "0 \<le> x * rounds_down" using assms rounds_facts(2) by simp
  with down show "0 \<le> float64 x" by linarith
qed

text \<open>One more operation is one more factor.\<close>

lemma float64_le:
  assumes "0 \<le> x" "x \<le> a * rounds_up ^ n"
  shows "float64 x \<le> a * rounds_up ^ Suc n"
proof -
  have "x * rounds_up \<le> a * rounds_up ^ n * rounds_up"
    using assms(2) rounds_facts(1) by (intro mult_right_mono) simp_all
  with float64_bounds(1) [OF assms(1)] show ?thesis by (simp add: mult.commute mult.left_commute)
qed

lemma float64_ge:
  assumes "0 \<le> x" "a * rounds_down ^ n \<le> x"
  shows "a * rounds_down ^ Suc n \<le> float64 x"
proof -
  have "a * rounds_down ^ n * rounds_down \<le> x * rounds_down"
    using assms(2) rounds_facts(2) by (intro mult_right_mono) simp_all
  with float64_bounds(2) [OF assms(1)] show ?thesis by (simp add: mult.commute mult.left_commute)
qed

lemma rounds_up_more: "0 \<le> x \<Longrightarrow> m \<le> n \<Longrightarrow> x * rounds_up ^ m \<le> x * rounds_up ^ n"
  by (intro mult_left_mono power_increasing rounds_facts)

lemma rounds_down_more: "0 \<le> x \<Longrightarrow> m \<le> n \<Longrightarrow> x * rounds_down ^ n \<le> x * rounds_down ^ m"
  by (intro mult_left_mono power_decreasing rounds_facts)

lemma float64_int:
  assumes "0 \<le> n" "n < 2 ^ 53"
  shows "float64 (of_int n) = of_int n"
proof (cases "n = 0")
  case False
  with assms(1) have pos: "0 < (of_int n :: rat)" by simp
  let ?e = "last_exponent (of_int n)"
  have "2 ^ 52 * two_to ?e < 2 ^ 53"
    using last_exponent_bounds(1) [OF pos] assms(2) of_int_less_iff [of n "2 ^ 53", where 'a = rat] by simp
  moreover have "2 \<le> two_to ?e" if "1 \<le> ?e" using two_to_mono [OF that] by (simp add: two_to_def)
  ultimately have "?e \<le> 0" by (cases "1 \<le> ?e") auto
  then have "of_int n / two_to ?e = (of_int (n * 2 ^ nat (- ?e)) :: rat)"
    by (cases "?e = 0") (simp_all add: two_to_def)
  then have "round_half_even (of_int n / two_to ?e) = n * 2 ^ nat (- ?e)"
    by (simp only: round_half_even_int)
  moreover have "(of_int (n * 2 ^ nat (- ?e)) :: rat) * two_to ?e = of_int n"
    using \<open>?e \<le> 0\<close> by (cases "?e = 0") (simp_all add: two_to_def)
  ultimately show ?thesis using pos by (simp add: float64_def float64_pos_def Let_def)
qed (simp add: float64_def)

end
