(* ===== verification/RateLimit.thy ===== *)
theory RateLimit
  imports HwPrelude Float64
begin

text \<open>
  The token buckets of \<open>internal/server/api/ratelimit.go\<close>.  Times are nanoseconds, the tokens of a bucket
  are \<open>float64\<close> (theory \<open>Float64\<close>).  The mutex makes \<open>Allow\<close> one step.
\<close>

record bucket =
  bk_tokens :: rat
  bk_last :: int

record limiter =
  rl_buckets :: "string \<rightharpoonup> bucket"
  rl_rate :: int
  rl_capacity :: int
  rl_cleanup :: int
  rl_lastGC :: int

definition NewRateLimiter :: "int \<Rightarrow> int \<Rightarrow> limiter" where
  "NewRateLimiter requestsPerMinute now =
     \<lparr>rl_buckets = Map.empty, rl_rate = requestsPerMinute, rl_capacity = requestsPerMinute,
      rl_cleanup = 5 * 60 * 1000000000, rl_lastGC = now\<rparr>"

definition cleanupStale :: "int \<Rightarrow> limiter \<Rightarrow> limiter" where
  "cleanupStale now rl =
     (if now - rl_lastGC rl < rl_cleanup rl then rl
      else let cutoff = now - rl_cleanup rl
           in rl\<lparr>rl_buckets := (\<lambda>key. case rl_buckets rl key of
                      None \<Rightarrow> None
                    | Some b \<Rightarrow> if bk_last b < cutoff then None else Some b),
                 rl_lastGC := now\<rparr>)"

text \<open>\<open>Duration.Seconds\<close>: the whole seconds and the rest over a billion, added.\<close>

definition Seconds :: "int \<Rightarrow> rat" where
  "Seconds d =
     (let sec = (if d < 0 then - ((- d) div 1000000000) else d div 1000000000); nsec = d - sec * 1000000000
      in float64 (float64 (of_int sec) + float64 (float64 (of_int nsec) / 1000000000)))"

definition refill :: "int \<Rightarrow> int \<Rightarrow> int \<Rightarrow> bucket \<Rightarrow> rat" where
  "refill rate capacity now b =
     (let elapsed = Seconds (now - bk_last b);
          tokens = float64 (bk_tokens b + float64 (float64 (elapsed * float64 (of_int rate)) / 60))
      in if tokens > float64 (of_int capacity) then float64 (of_int capacity) else tokens)"

definition Allow :: "int \<Rightarrow> string \<Rightarrow> limiter \<Rightarrow> limiter \<times> bool" where
  "Allow now key rl0 =
     (let rl = cleanupStale now rl0;
          b = (case rl_buckets rl key of
                 None \<Rightarrow> \<lparr>bk_tokens = float64 (of_int (rl_capacity rl)), bk_last = now\<rparr>
               | Some b \<Rightarrow> b);
          tokens = refill (rl_rate rl) (rl_capacity rl) now b
      in if tokens < 1
         then (rl\<lparr>rl_buckets := (rl_buckets rl)(key \<mapsto> \<lparr>bk_tokens = tokens, bk_last = now\<rparr>)\<rparr>, False)
         else (rl\<lparr>rl_buckets := (rl_buckets rl)(key \<mapsto> \<lparr>bk_tokens = float64 (tokens - 1), bk_last = now\<rparr>)\<rparr>, True))"

text \<open>A sequence of calls, as times and keys, and the answers.\<close>

fun allow_all :: "(int \<times> string) list \<Rightarrow> limiter \<Rightarrow> limiter \<times> bool list" where
  "allow_all [] rl = (rl, [])"
| "allow_all ((now, key) # calls) rl =
     (case Allow now key rl of
        (rl', a) \<Rightarrow> (case allow_all calls rl' of (rl'', as) \<Rightarrow> (rl'', a # as)))"

subsection \<open>Refilling\<close>

text \<open>What the rate gives in a time, in exact arithmetic; the rounded sum is within six relative errors of it.\<close>

definition earned :: "int \<Rightarrow> int \<Rightarrow> rat" where
  "earned rate d = of_int d * of_int rate / (60 * 1000000000)"

lemma earned_nonneg: "0 \<le> d \<Longrightarrow> 0 \<le> rate \<Longrightarrow> 0 \<le> earned rate d"
  by (simp add: earned_def)

lemma earned_add: "earned rate (a + b) = earned rate a + earned rate b"
  by (simp add: earned_def distrib_right add_divide_distrib)

lemma Seconds_bounds:
  assumes "0 \<le> d"
  shows "Seconds d \<le> of_int d / 1000000000 * rounds_up ^ 3"
    "of_int d / 1000000000 * rounds_down ^ 3 \<le> Seconds d" "0 \<le> Seconds d"
proof -
  define s n :: rat where "s = of_int (d div 1000000000)" and "n = of_int (d mod 1000000000)"
  have "of_int (d div 1000000000 * 1000000000 + d mod 1000000000) = (of_int d :: rat)" by (simp only: div_mult_mod_eq)
  then have d: "of_int d = s * 1000000000 + n" unfolding s_def n_def by (simp only: of_int_add of_int_mult of_int_numeral)
  have pos: "0 \<le> s" "0 \<le> n" using assms by (simp_all add: s_def n_def pos_imp_zdiv_nonneg_iff)
  define x y where "x = float64 n / 1000000000" and "y = float64 s + float64 x"
  have x: "0 \<le> x" "x \<le> n / 1000000000 * rounds_up ^ 1" "n / 1000000000 * rounds_down ^ 1 \<le> x"
    using float64_bounds [OF pos(2)] by (simp_all add: x_def)
  have s: "float64 s \<le> s * rounds_up ^ 2" "s * rounds_down ^ 2 \<le> float64 s"
    using float64_bounds [OF pos(1)] rounds_up_more [OF pos(1), of 1 2] rounds_down_more [OF pos(1), of 1 2] by simp_all
  have y: "0 \<le> y" "y \<le> of_int d / 1000000000 * rounds_up ^ 2" "of_int d / 1000000000 * rounds_down ^ 2 \<le> y"
    using float64_le [OF x(1,2)] float64_ge [OF x(1,3)] s float64_bounds(3) [OF pos(1)] float64_bounds(3) [OF x(1)]
    by (simp_all add: y_def d add_divide_distrib distrib_right numeral_2_eq_2)
  have "Seconds d = float64 y"
    using assms unfolding Seconds_def Let_def x_def y_def s_def n_def minus_div_mult_eq_mod [symmetric]
    by (simp only: not_less [symmetric] if_False)
  then show "Seconds d \<le> of_int d / 1000000000 * rounds_up ^ 3" "of_int d / 1000000000 * rounds_down ^ 3 \<le> Seconds d"
    "0 \<le> Seconds d"
    using float64_le [OF y(1,2)] float64_ge [OF y(1,3)] float64_bounds(3) [OF y(1)] by (simp_all add: numeral_3_eq_3 numeral_2_eq_2)
qed

lemma refill_bounds:
  assumes d: "0 \<le> d" and rate: "0 \<le> rate" "rate < 2 ^ 53" and t: "0 \<le> t"
  defines "tokens \<equiv> float64 (t + float64 (float64 (Seconds d * float64 (of_int rate)) / 60))"
  shows "tokens \<le> (t + earned rate d) * rounds_up ^ 6" "(t + earned rate d) * rounds_down ^ 6 \<le> tokens" "0 \<le> tokens"
proof -
  define r :: rat where "r = of_int rate"
  have r: "0 \<le> r" "float64 (of_int rate) = r" using rate by (simp_all add: r_def float64_int)
  note S = Seconds_bounds [OF d]
  define a where "a = of_int d / 1000000000 * r"
  have x: "0 \<le> Seconds d * r" "Seconds d * r \<le> a * rounds_up ^ 3" "a * rounds_down ^ 3 \<le> Seconds d * r"
    using S(3) mult_right_mono [OF S(1) r(1)] mult_right_mono [OF S(2) r(1)] r(1) by (simp_all add: a_def mult.assoc mult.commute mult.left_commute)
  have E: "earned rate d = a / 60" by (simp add: earned_def a_def r_def)
  define y where "y = float64 (Seconds d * r) / 60"
  have y: "0 \<le> y" "y \<le> earned rate d * rounds_up ^ 4" "earned rate d * rounds_down ^ 4 \<le> y"
    using float64_le [OF x(1,2)] float64_ge [OF x(1,3)] float64_bounds(3) [OF x(1)] by (simp_all add: y_def E)
  have z: "0 \<le> t + float64 y" "t + float64 y \<le> (t + earned rate d) * rounds_up ^ 5"
    "(t + earned rate d) * rounds_down ^ 5 \<le> t + float64 y"
    using float64_le [OF y(1,2)] float64_ge [OF y(1,3)] float64_bounds(3) [OF y(1)] t
      rounds_up_more [OF t, of 0 5] rounds_down_more [OF t, of 0 5]
    by (simp_all add: distrib_right)
  have "tokens = float64 (t + float64 y)" by (simp add: tokens_def r(2) y_def)
  then show "tokens \<le> (t + earned rate d) * rounds_up ^ 6" "(t + earned rate d) * rounds_down ^ 6 \<le> tokens" "0 \<le> tokens"
    using float64_le [OF z(1,2)] float64_ge [OF z(1,3)] float64_bounds(3) [OF z(1)] by (simp_all del: power_Suc)
qed

text \<open>Against what the bucket holds in exact arithmetic, a refill gains at most \<open>2\<^sup>-\<^sup>5\<^sup>0\<close> of a full bucket.\<close>

lemma refill_credit:
  assumes "0 \<le> now - bk_last b" "0 \<le> rate" "rate < 2 ^ 53" "0 \<le> bk_tokens b"
  shows "refill rate rate now b \<le> min (of_int rate) (bk_tokens b + earned rate (now - bk_last b)) + of_int rate * (8 / 2 ^ 53)"
    "min (of_int rate) ((bk_tokens b + earned rate (now - bk_last b)) * rounds_down ^ 6) \<le> refill rate rate now b"
    "0 \<le> refill rate rate now b" "refill rate rate now b \<le> of_int rate"
proof -
  define cap :: rat where "cap = of_int rate"
  define x where "x = bk_tokens b + earned rate (now - bk_last b)"
  define tokens where "tokens = float64 (bk_tokens b + float64 (float64 (Seconds (now - bk_last b) * float64 (of_int rate)) / 60))"
  note bounds = refill_bounds [OF assms, folded tokens_def x_def]
  have cap: "0 \<le> cap" "float64 (of_int rate) = cap" using assms by (simp_all add: cap_def float64_int)
  have refill: "refill rate rate now b = min cap tokens"
    by (simp add: refill_def Let_def tokens_def cap(2) min_def)
  have x0: "0 \<le> x" using assms earned_nonneg by (simp add: x_def)
  have "rounds_up ^ 6 \<le> 1 + 8 / 2 ^ 53" by (simp add: rounds_up_def eval_nat_numeral)
  then have "x * rounds_up ^ 6 \<le> x * (1 + 8 / 2 ^ 53)" using x0 by (rule mult_left_mono)
  with bounds(1) have "tokens \<le> x + x * (8 / 2 ^ 53)" by (simp add: distrib_left)
  moreover have "x * (8 / 2 ^ 53) \<le> cap * (8 / 2 ^ 53)" if "x \<le> cap" using that by (intro mult_right_mono) simp_all
  moreover have "0 \<le> cap * (8 / 2 ^ 53)" using cap by simp
  ultimately have "min cap tokens \<le> min cap x + cap * (8 / 2 ^ 53)" by (cases "x \<le> cap") linarith+
  then show "refill rate rate now b \<le> min (of_int rate) (bk_tokens b + earned rate (now - bk_last b)) + of_int rate * (8 / 2 ^ 53)"
    by (simp only: refill cap_def x_def)
  show "min (of_int rate) ((bk_tokens b + earned rate (now - bk_last b)) * rounds_down ^ 6) \<le> refill rate rate now b"
    "0 \<le> refill rate rate now b" "refill rate rate now b \<le> of_int rate"
    using bounds(2,3) cap unfolding refill by (simp_all add: cap_def x_def min.coboundedI2)
qed

subsection \<open>The credit of a key\<close>

text \<open>
  What a caller could spend at a time: its bucket refilled to that time in exact arithmetic, or a full
  bucket when there is none.
\<close>

definition credit :: "limiter \<Rightarrow> string \<Rightarrow> int \<Rightarrow> rat" where
  "credit rl key t =
     (case rl_buckets rl key of
        None \<Rightarrow> of_int (rl_rate rl)
      | Some b \<Rightarrow> min (of_int (rl_rate rl)) (bk_tokens b + earned (rl_rate rl) (t - bk_last b)))"

text \<open>The shape \<open>NewRateLimiter\<close> establishes and every call keeps.\<close>

definition limiter_ok :: "int \<Rightarrow> limiter \<Rightarrow> bool" where
  "limiter_ok now rl \<longleftrightarrow>
     0 \<le> rl_rate rl \<and> rl_rate rl < 2 ^ 53 \<and> rl_capacity rl = rl_rate rl \<and> rl_cleanup rl = 5 * 60 * 1000000000 \<and>
     (\<forall>key b. rl_buckets rl key = Some b \<longrightarrow> bk_last b \<le> now \<and> 0 \<le> bk_tokens b \<and> bk_tokens b \<le> of_int (rl_rate rl))"

text \<open>The removal of stale buckets cannot be observed: whoever is forgotten has full credit.\<close>

lemma credit_cleanup:
  assumes "limiter_ok now rl"
  shows "credit (cleanupStale now rl) key now = credit rl key now"
proof -
  have full: "of_int (rl_rate rl) \<le> bk_tokens b + earned (rl_rate rl) (now - bk_last b)"
    if b: "rl_buckets rl key = Some b" and stale: "bk_last b < now - rl_cleanup rl" for b
  proof -
    have "(300 * 1000000000 :: int) \<le> now - bk_last b" using stale assms by (simp add: limiter_ok_def)
    then have "(300 * 1000000000 :: int) * rl_rate rl \<le> (now - bk_last b) * rl_rate rl"
      using assms by (intro mult_right_mono) (simp_all add: limiter_ok_def)
    then have "(of_int (300 * 1000000000 * rl_rate rl) :: rat) \<le> of_int ((now - bk_last b) * rl_rate rl)"
      by (simp only: of_int_le_iff)
    moreover have "0 \<le> bk_tokens b" "0 \<le> rl_rate rl"
      using assms b by (auto simp: limiter_ok_def)
    ultimately show ?thesis by (simp add: earned_def field_simps)
  qed
  show ?thesis
    using full by (auto simp: credit_def cleanupStale_def Let_def min_def split: option.splits)
qed

lemma cleanup_ok: "limiter_ok now rl \<Longrightarrow> limiter_ok now (cleanupStale now rl)"
  by (auto simp: limiter_ok_def cleanupStale_def Let_def split: option.splits if_splits)

lemma limiter_ok_later: "limiter_ok now rl \<Longrightarrow> now \<le> t \<Longrightarrow> limiter_ok t rl"
  by (fastforce simp: limiter_ok_def)

lemma cleanup_fields [simp]:
  "rl_rate (cleanupStale now rl) = rl_rate rl" "rl_capacity (cleanupStale now rl) = rl_capacity rl"
  by (simp_all add: cleanupStale_def Let_def)

lemma cleanup_bucket: "rl_buckets (cleanupStale now rl) key = Some b \<Longrightarrow> rl_buckets rl key = Some b"
  by (auto simp: cleanupStale_def Let_def split: if_splits option.splits)

text \<open>The tokens that \<open>Allow\<close> compares with 1.\<close>

definition current_tokens :: "int \<Rightarrow> string \<Rightarrow> limiter \<Rightarrow> rat" where
  "current_tokens now key rl =
     refill (rl_rate rl) (rl_capacity rl) now
       (case rl_buckets (cleanupStale now rl) key of
          None \<Rightarrow> \<lparr>bk_tokens = float64 (of_int (rl_capacity rl)), bk_last = now\<rparr> | Some b \<Rightarrow> b)"

lemma current_tokens_bounds:
  assumes "limiter_ok now rl"
  shows "current_tokens now key rl \<le> credit rl key now + of_int (rl_rate rl) * (8 / 2 ^ 53)"
    "0 \<le> current_tokens now key rl" "current_tokens now key rl \<le> of_int (rl_rate rl)"
proof -
  let ?b = "case rl_buckets (cleanupStale now rl) key of
      None \<Rightarrow> \<lparr>bk_tokens = float64 (of_int (rl_capacity rl)), bk_last = now\<rparr> | Some b \<Rightarrow> b"
  have rate: "0 \<le> rl_rate rl" "rl_rate rl < 2 ^ 53" "rl_capacity rl = rl_rate rl" using assms by (simp_all add: limiter_ok_def)
  have b: "0 \<le> now - bk_last ?b" "0 \<le> bk_tokens ?b"
    using cleanup_ok [OF assms] rate by (auto simp: limiter_ok_def float64_int split: option.split)
  have "min (of_int (rl_rate rl)) (bk_tokens ?b + earned (rl_rate rl) (now - bk_last ?b)) = credit rl key now"
    unfolding credit_cleanup [OF assms, symmetric]
    using rate by (simp add: credit_def earned_def float64_int split: option.split)
  with refill_credit [OF b(1) rate(1,2) b(2)]
  show "current_tokens now key rl \<le> credit rl key now + of_int (rl_rate rl) * (8 / 2 ^ 53)"
    "0 \<le> current_tokens now key rl" "current_tokens now key rl \<le> of_int (rl_rate rl)"
    by (simp_all only: current_tokens_def rate(3))
qed

lemma Allow_tokens:
  "Allow now key rl =
     (let tokens = current_tokens now key rl; left = (if tokens < 1 then tokens else float64 (tokens - 1)); rl' = cleanupStale now rl
      in (rl'\<lparr>rl_buckets := (rl_buckets rl')(key \<mapsto> \<lparr>bk_tokens = left, bk_last = now\<rparr>)\<rparr>, \<not> tokens < 1))"
  unfolding Allow_def current_tokens_def Let_def cleanup_fields by simp
text \<open>A call that is let through spends one unit, up to the rounding of two operations.\<close>

lemma Allow_credit:
  assumes ok: "limiter_ok now rl" and a: "Allow now key rl = (rl', a)"
  shows "credit rl' key now \<le> credit rl key now - (if a then 1 else 0) + of_int (rl_rate rl) * (9 / 2 ^ 53)"
    and "\<And>k. k \<noteq> key \<Longrightarrow> credit rl' k now = credit rl k now"
    and "limiter_ok now rl'" and "rl_rate rl' = rl_rate rl"
proof -
  let ?c = "cleanupStale now rl" and ?rate = "of_int (rl_rate rl) :: rat"
  define tokens where "tokens = current_tokens now key rl"
  define left where "left = (if tokens < 1 then tokens else float64 (tokens - 1))"
  have rl': "rl' = ?c\<lparr>rl_buckets := (rl_buckets ?c)(key \<mapsto> \<lparr>bk_tokens = left, bk_last = now\<rparr>)\<rparr>" "a \<longleftrightarrow> \<not> tokens < 1"
    using a by (auto simp: Allow_tokens Let_def tokens_def left_def)
  note t = current_tokens_bounds [OF ok, of key, folded tokens_def]
  have small: "?rate < 2 ^ 53" "0 \<le> ?rate" using ok of_int_less_iff [of "rl_rate rl" "2 ^ 53", where 'a = rat] by (simp_all add: limiter_ok_def)
  have spent: "float64 (tokens - 1) \<le> tokens - 1 + ?rate * (1 / 2 ^ 53)" "0 \<le> float64 (tokens - 1)" "float64 (tokens - 1) \<le> ?rate"
    if "\<not> tokens < 1"
  proof -
    have "0 \<le> tokens - 1" using that by simp
    note f = float64_bounds [OF this]
    have "(tokens - 1) * (1 / 2 ^ 53) \<le> ?rate * (1 / 2 ^ 53)" using t(3) by (intro mult_right_mono) simp_all
    moreover have "(tokens - 1) * rounds_up = tokens - 1 + (tokens - 1) * (1 / 2 ^ 53)"
      unfolding rounds_up_def by (simp only: distrib_left mult_1_right)
    ultimately show "float64 (tokens - 1) \<le> tokens - 1 + ?rate * (1 / 2 ^ 53)" using f(1) by linarith
    moreover have "?rate * (1 / 2 ^ 53) \<le> 1" using small by simp
    ultimately show "float64 (tokens - 1) \<le> ?rate" using t(3) by linarith
    show "0 \<le> float64 (tokens - 1)" by (rule f(3))
  qed
  have left: "left \<le> tokens - (if a then 1 else 0) + ?rate * (1 / 2 ^ 53)" "0 \<le> left" "left \<le> ?rate"
    using spent t small(2) by (auto simp: left_def rl'(2))
  have "credit rl' key now \<le> left" by (simp add: credit_def rl'(1) earned_def)
  moreover define e1 e8 spend where "e1 = ?rate * (1 / 2 ^ 53)" and "e8 = ?rate * (8 / 2 ^ 53)" and "spend = (if a then 1 else 0 :: rat)"
  have "?rate * (9 / 2 ^ 53) = e8 + e1" by (simp add: e1_def e8_def)
  ultimately show "credit rl' key now \<le> credit rl key now - (if a then 1 else 0) + ?rate * (9 / 2 ^ 53)"
    using left(1) [folded e1_def spend_def] t(1) [folded e8_def] unfolding spend_def [symmetric] by linarith
  show "credit rl' k now = credit rl k now" if "k \<noteq> key" for k
    unfolding credit_cleanup [OF ok, of k, symmetric] using that by (auto simp: credit_def rl'(1) split: option.split)
  show "rl_rate rl' = rl_rate rl" by (simp add: rl'(1))
  show "limiter_ok now rl'" using left(2,3) cleanup_ok [OF ok] by (auto simp: limiter_ok_def rl'(1))
qed

text \<open>Credit grows no faster than the rate.\<close>

lemma credit_growth:
  assumes "limiter_ok t rl" "t \<le> u"
  shows "credit rl key u \<le> credit rl key t + earned (rl_rate rl) (u - t)"
proof -
  have "0 \<le> earned (rl_rate rl) (u - t)" using assms by (intro earned_nonneg) (simp_all add: limiter_ok_def)
  moreover have "earned (rl_rate rl) (u - bk_last b) = earned (rl_rate rl) (t - bk_last b) + earned (rl_rate rl) (u - t)" for b :: bucket
    unfolding earned_add [symmetric] by simp
  ultimately show ?thesis by (auto simp: credit_def min_def split: option.splits)
qed

lemma credit_nonneg: "limiter_ok t rl \<Longrightarrow> 0 \<le> credit rl key t"
  by (auto simp: credit_def limiter_ok_def earned_nonneg split: option.splits)

lemma credit_le_rate: "credit rl key t \<le> of_int (rl_rate rl)"
  by (simp add: credit_def split: option.splits)

subsection \<open>Histories\<close>

definition calls_of :: "string \<Rightarrow> (int \<times> string) list \<Rightarrow> nat" where
  "calls_of key calls = length (filter (\<lambda>(_, k). k = key) calls)"

definition allowed_of :: "string \<Rightarrow> (int \<times> string) list \<Rightarrow> bool list \<Rightarrow> nat" where
  "allowed_of key calls as = length (filter (\<lambda>((_, k), a). k = key \<and> a) (zip calls as))"

lemma allow_all_Cons:
  assumes "allow_all ((now, k) # calls) rl = (rl', as)"
  obtains rl1 a as' where "Allow now k rl = (rl1, a)" "allow_all calls rl1 = (rl', as')" "as = a # as'"
  using assms by (auto split: prod.splits)

lemma allowed_plus_credit:
  assumes "allow_all calls rl = (rl', as)" and "limiter_ok t rl" and "sorted (t # map fst calls @ [u])"
  shows "of_nat (allowed_of key calls as) + credit rl' key u \<le>
         credit rl key t + earned (rl_rate rl) (u - t) + of_nat (calls_of key calls) * (of_int (rl_rate rl) * (9 / 2 ^ 53))
       \<and> limiter_ok u rl' \<and> rl_rate rl' = rl_rate rl"
  using assms
proof (induction calls arbitrary: rl t as)
  case Nil
  then show ?case using credit_growth [of t rl u key] limiter_ok_later by (auto simp: allowed_of_def calls_of_def)
next
  case (Cons call calls)
  obtain now k where call: "call = (now, k)" by (cases call)
  obtain rl1 a as' where s: "Allow now k rl = (rl1, a)" "allow_all calls rl1 = (rl', as')" "as = a # as'"
    using Cons.prems(1) unfolding call by (rule allow_all_Cons)
  have t: "t \<le> now" and sorted: "sorted (now # map fst calls @ [u])" using Cons.prems(3) call by auto
  note ok = limiter_ok_later [OF Cons.prems(2) t]
  note step = Allow_credit [OF ok s(1)]
  note ih = Cons.IH [OF s(2) step(3) sorted, unfolded step(4)]
  let ?c = "of_int (rl_rate rl) * (9 / 2 ^ 53) :: rat"
  have grow: "credit rl key now \<le> credit rl key t + earned (rl_rate rl) (now - t)" by (rule credit_growth [OF Cons.prems(2) t])
  have split: "earned (rl_rate rl) (u - t) = earned (rl_rate rl) (u - now) + earned (rl_rate rl) (now - t)"
    unfolding earned_add [symmetric] by simp
  have count: "of_nat (allowed_of key (call # calls) as) = (if k = key \<and> a then 1 else 0) + (of_nat (allowed_of key calls as') :: rat)"
    "(of_nat (calls_of key (call # calls)) :: rat) * ?c = (if k = key then ?c else 0) + of_nat (calls_of key calls) * ?c"
    by (simp_all add: allowed_of_def calls_of_def s(3) call distrib_right)
  have spend: "credit rl1 key now \<le> credit rl key now - (if k = key \<and> a then 1 else 0) + (if k = key then ?c else 0)"
    using step(1,2) by (cases "k = key") auto
  have "of_nat (allowed_of key (call # calls) as) + credit rl' key u \<le>
      credit rl key t + earned (rl_rate rl) (u - t) + of_nat (calls_of key (call # calls)) * ?c"
    using conjunct1 [OF ih] grow spend unfolding split count by linarith
  with ih show ?case by blast
qed

text \<open>A bucket was last touched by a call of its key.\<close>

lemma bucket_from_call:
  assumes "allow_all calls rl = (rl', as)" "rl_buckets rl' key = Some b"
  shows "rl_buckets rl key = Some b \<or> (bk_last b, key) \<in> set calls"
  using assms
proof (induction calls arbitrary: rl as)
  case (Cons call calls)
  obtain now k where call: "call = (now, k)" by (cases call)
  obtain rl1 a as' where s: "Allow now k rl = (rl1, a)" "allow_all calls rl1 = (rl', as')" "as = a # as'"
    using Cons.prems(1) unfolding call by (rule allow_all_Cons)
  have "rl_buckets rl1 key = Some b \<Longrightarrow> rl_buckets rl key = Some b \<or> bk_last b = now \<and> k = key"
    using s(1) cleanup_bucket [of now rl key b] by (auto simp: Allow_tokens Let_def split: if_splits)
  with Cons.IH [OF s(2) Cons.prems(2)] show ?case by (auto simp: call)
qed simp

lemma new_limiter_ok: "0 \<le> rpm \<Longrightarrow> rpm < 2 ^ 53 \<Longrightarrow> limiter_ok t0 (NewRateLimiter rpm t0)"
  by (simp add: limiter_ok_def NewRateLimiter_def)

lemma history_ok:
  assumes "allow_all before (NewRateLimiter rpm t0) = (rl, as)" "0 \<le> rpm" "rpm < 2 ^ 53" "sorted (t0 # map fst before @ [now])"
  shows "limiter_ok now rl" "rl_rate rl = rpm"
  using allowed_plus_credit [OF assms(1) new_limiter_ok [OF assms(2,3)] assms(4)] by (simp_all add: NewRateLimiter_def)

subsection \<open>Properties\<close>

text \<open>
  C14: The limiter bounds traffic in every window of time, after any history of calls of any keys and whenever
  stale buckets are dropped: of the calls of one key in the window at most the configured burst plus the
  configured rate times the length of the window are let through, up to the rounding of \<open>float64\<close>.  That is below
  one request while the calls in the window times the rate are below \<open>10\<^sup>1\<^sup>5\<close>.
\<close>

theorem rate_limit_bound:
  assumes "allow_all before (NewRateLimiter rpm t0) = (rl, as0)" and "allow_all calls rl = (rl', as)"
    and "0 \<le> rpm" "rpm < 2 ^ 53" and "sorted (t0 # map fst before @ [t1])" and "sorted (t1 # map fst calls @ [t2])"
  shows "of_nat (allowed_of key calls as) \<le>
     (of_int rpm :: rat) + of_int (t2 - t1) * of_int rpm / (60 * 1000000000) +
     of_nat (calls_of key calls) * of_int rpm * (9 / 2 ^ 53)"
proof -
  note ok = history_ok [OF assms(1,3,4,5)]
  note bound = allowed_plus_credit [OF assms(2) ok(1) assms(6), of key, unfolded ok(2)]
  have "0 \<le> credit rl' key t2" using bound by (intro credit_nonneg) simp
  moreover have "credit rl key t1 \<le> of_int rpm" using credit_le_rate [of rl key t1] by (simp add: ok(2))
  ultimately show ?thesis using bound by (simp add: earned_def)
qed

theorem rate_limit_bound_witness:
  "(of_nat (allowed_of ''k'' [(9, ''k''), (9, ''k'')] (snd (allow_all [(9, ''k''), (9, ''k'')]
       (fst (allow_all [(0, ''k'')] (NewRateLimiter 2 0)))))) :: rat) \<le> 2 + 1"
proof -
  have "of_nat (allowed_of ''k'' [(9, ''k''), (9, ''k'')] (snd (allow_all [(9, ''k''), (9, ''k'')]
       (fst (allow_all [(0, ''k'')] (NewRateLimiter 2 0)))))) \<le> (of_int 2 :: rat) + of_int (9 - 5) * of_int 2 / (60 * 1000000000) +
     of_nat (calls_of ''k'' [(9, ''k''), (9, ''k'')]) * of_int 2 * (9 / 2 ^ 53)"
    by (rule rate_limit_bound [OF prod.collapse [symmetric] prod.collapse [symmetric], where ?t0.0 = 0]) simp_all
  then show ?thesis by (simp add: calls_of_def)
qed

text \<open>
  C15: The limiter does not starve anyone: after any history, a caller is let through whose last call, if there was
  one, is at least as long ago as one token takes to be earned, a minute divided by the rate, and one
  nanosecond.  (Without that nanosecond the rounding of \<open>float64\<close> can leave it just short of a token.)
\<close>

theorem rested_caller_allowed:
  assumes "allow_all before (NewRateLimiter rpm t0) = (rl, as)" and "0 < rpm" "rpm < 2 ^ 53"
    and "sorted (t0 # map fst before @ [now])"
    and rest: "\<And>t. (t, key) \<in> set before \<Longrightarrow> 60 * 1000000000 \<le> (now - t - 1) * rpm"
  shows "snd (Allow now key rl)"
proof -
  note ok = history_ok [OF assms(1) less_imp_le [OF assms(2)] assms(3,4)]
  have one: "1 \<le> (of_int rpm :: rat)" using assms(2) by simp
  have cap: "rl_capacity rl = rpm" using ok by (simp add: limiter_ok_def)
  have "1 \<le> current_tokens now key rl"
  proof (cases "rl_buckets (cleanupStale now rl) key")
    case None
    let ?b = "\<lparr>bk_tokens = float64 (of_int rpm), bk_last = now\<rparr>"
    have "float64 (of_int rpm) = of_int rpm" using assms(2,3) by (simp add: float64_int)
    moreover have "Seconds 0 = 0" by (simp add: Seconds_def)
    ultimately have "refill rpm rpm now ?b = of_int rpm" by (simp add: refill_def Let_def)
    then show ?thesis using one by (simp add: current_tokens_def None ok(2) cap)
  next
    case (Some b)
    have "rl_buckets rl key = Some b" by (rule cleanup_bucket [OF Some])
    with bucket_from_call [OF assms(1)] have "(bk_last b, key) \<in> set before" by (auto simp: NewRateLimiter_def)
    from rest [OF this] have "60 * 1000000000 + rpm \<le> (now - bk_last b) * rpm" by (simp add: left_diff_distrib)
    then have "(of_int (60 * 1000000000 + rpm) :: rat) \<le> of_int ((now - bk_last b) * rpm)" by (simp only: of_int_le_iff)
    then have earned: "1 + 1 / (60 * 1000000000) \<le> earned rpm (now - bk_last b)"
      using one by (simp add: earned_def field_simps)
    have b: "0 \<le> now - bk_last b" "0 \<le> bk_tokens b"
      using ok(1) \<open>rl_buckets rl key = Some b\<close> by (auto simp: limiter_ok_def)
    have "(1 :: rat) \<le> (1 + 1 / (60 * 1000000000)) * rounds_down ^ 6" by (simp add: rounds_down_def eval_nat_numeral)
    also have "\<dots> \<le> (bk_tokens b + earned rpm (now - bk_last b)) * rounds_down ^ 6"
      using earned b(2) rounds_facts(2) by (intro mult_right_mono) simp_all
    finally have "1 \<le> min (of_int rpm) ((bk_tokens b + earned rpm (now - bk_last b)) * rounds_down ^ 6)" using one by simp
    also have "\<dots> \<le> refill rpm rpm now b" using refill_credit(2) [OF b(1) _ assms(3) b(2)] assms(2) by simp
    finally show ?thesis by (simp add: current_tokens_def Some ok(2) cap)
  qed
  then show ?thesis by (simp add: Allow_tokens Let_def)
qed

theorem rested_caller_allowed_witness:
  "snd (Allow 30000000001 ''k'' (fst (allow_all [(0, ''k''), (0, ''k''), (0, ''k'')] (NewRateLimiter 2 0))))"
  by (rule rested_caller_allowed [OF prod.collapse [symmetric], where ?rpm = 2 and ?t0.0 = 0]) auto

end
