(* ===== verification/ServerState.thy ===== *)
theory ServerState
  imports Metrics RateLimit
begin

text \<open>
  The state that the server's packages share: the database, the process counters
  (\<open>api.GlobalMetrics\<close>) and the rate limiter that \<open>NewRouter\<close> creates.
\<close>

record srv =
  sv_db :: db
  sv_metrics :: metrics
  sv_limiter :: limiter

abbreviation on_db :: "(db \<Rightarrow> db) \<Rightarrow> srv \<Rightarrow> srv" where
  "on_db f s \<equiv> s\<lparr>sv_db := f (sv_db s)\<rparr>"

abbreviation count_transition :: "srv \<Rightarrow> srv" where
  "count_transition s \<equiv> s\<lparr>sv_metrics := IncrTransition (sv_metrics s)\<rparr>"

text \<open>A server just started on a database, with the default rate, at time 0.\<close>

definition fresh_srv :: "db \<Rightarrow> srv" where
  "fresh_srv d = \<lparr>sv_db = d, sv_metrics = NewMetrics, sv_limiter = NewRateLimiter 10 0\<rparr>"

lemma fresh_srv_simps [simp]: "sv_db (fresh_srv d) = d" "sv_metrics (fresh_srv d) = NewMetrics"
  by (simp_all add: fresh_srv_def)

end
