(* ===== verification/Lifecycle.thy ===== *)
theory Lifecycle
  imports ServerState
begin

text \<open>
  The tunnel lifecycle (\<open>internal/server/tunnels/lifecycle.go\<close>): the transition table, \<open>Transition\<close>
  and \<open>Revoke\<close> with their transactions, the reaper, the quota count and the retention sweepers.
  Each transaction works on a copy of the database and publishes it at its commit, as the
  row lock (\<open>FOR UPDATE\<close>) lets one transaction at a time work on a tunnel.
\<close>

subsection \<open>The transition table\<close>

datatype event = EventNewProxy | EventCloseProxy | EventExpire | EventRevoke

fun event_text :: "event \<Rightarrow> string" where
  "event_text EventNewProxy = ''NewProxy''"
| "event_text EventCloseProxy = ''CloseProxy''"
| "event_text EventExpire = ''Expire''"
| "event_text EventRevoke = ''Revoke''"

fun validTransitions :: "status \<Rightarrow> (event \<rightharpoonup> status) option" where
  "validTransitions Reserved =
     Some [EventNewProxy \<mapsto> Active, EventExpire \<mapsto> Expired, EventRevoke \<mapsto> Revoked]"
| "validTransitions Active =
     Some [EventCloseProxy \<mapsto> Closed, EventExpire \<mapsto> Expired, EventRevoke \<mapsto> Revoked]"
| "validTransitions Closed =
     Some [EventNewProxy \<mapsto> Active, EventExpire \<mapsto> Expired, EventRevoke \<mapsto> Revoked]"
| "validTransitions Expired = None"
| "validTransitions Revoked = None"

subsection \<open>Statements\<close>

definition sql_set_status :: "status \<Rightarrow> string \<Rightarrow> status \<Rightarrow> db \<Rightarrow> db \<times> nat" where
  "sql_set_status new tid cur d =
     (let P = (\<lambda>r. tn_id r = tid \<and> tn_status r = cur)
      in (d\<lparr>db_tunnels := update_where P (\<lambda>r. r\<lparr>tn_status := new\<rparr>) (db_tunnels d)\<rparr>,
          count_where P (db_tunnels d)))"

definition sql_set_status_by_id :: "status \<Rightarrow> string \<Rightarrow> db \<Rightarrow> db" where
  "sql_set_status_by_id new tid d =
     d\<lparr>db_tunnels := update_where (\<lambda>r. tn_id r = tid) (\<lambda>r. r\<lparr>tn_status := new\<rparr>) (db_tunnels d)\<rparr>"

definition insertEvent :: "time \<Rightarrow> string \<Rightarrow> string \<Rightarrow> status \<Rightarrow> db \<Rightarrow> db" where
  "insertEvent now tid ty new d =
     d\<lparr>db_events := db_events d @
         [\<lparr>ev_tunnel = tid, ev_type = ty, ev_payload = NewStatus new, ev_created = now\<rparr>]\<rparr>"

definition revokeRuntimeTokens :: "time \<Rightarrow> string \<Rightarrow> db \<Rightarrow> db" where
  "revokeRuntimeTokens now tid d =
     d\<lparr>db_rt_tokens := update_where (\<lambda>r. rt_tunnel r = tid \<and> rt_revoked r = None)
         (\<lambda>r. r\<lparr>rt_revoked := Some now\<rparr>) (db_rt_tokens d)\<rparr>"

text \<open>\<open>SELECT COALESCE(expires_at > clock_timestamp(), false)\<close>\<close>

definition within_ttl :: "time \<Rightarrow> tunnel_row \<Rightarrow> bool" where
  "within_ttl clock r = null_gt (tn_expires r) clock"

subsection \<open>Revoke\<close>

datatype revoke_error = RvBeginFailed | RvLookupFailed | RvInvalid status | RvUpdateFailed
  | RvEventFailed | RvTokensFailed | RvCommitFailed

definition revoke_lookup :: "string \<Rightarrow> string \<Rightarrow> db \<Rightarrow> tunnel_row option" where
  "revoke_lookup tid owner d =
     (case find_tunnel tid d of
        None \<Rightarrow> None
      | Some r \<Rightarrow> if owner = '''' \<or> tn_user r = owner then Some r else None)"

text \<open>The part inside the transaction: None is the first failing call, and aborts it.\<close>

definition revoke_body :: "env \<Rightarrow> string \<Rightarrow> status \<Rightarrow> db \<Rightarrow> revoke_error + (db \<times> bool)" where
  "revoke_body e tid cur d =
     (let finish = (\<lambda>d' moved. if ok e RvTokens
                       then Inr (revokeRuntimeTokens (e_time e RvBegin) tid d', moved)
                       else Inl RvTokensFailed)
      in if cur \<noteq> Expired \<and> cur \<noteq> Revoked then
           (case Option.bind (validTransitions cur) (\<lambda>m. m EventRevoke) of
              None \<Rightarrow> Inl (RvInvalid cur)
            | Some new \<Rightarrow>
                if \<not> ok e RvUpdate then Inl RvUpdateFailed
                else if \<not> ok e RvEvent then Inl RvEventFailed
                else finish (insertEvent (e_time e RvBegin) tid (event_text EventRevoke) new
                               (sql_set_status_by_id new tid d)) True)
         else finish d False)"

definition Revoke :: "env \<Rightarrow> string \<Rightarrow> string \<Rightarrow> srv \<Rightarrow> srv \<times> (revoke_error + bool)" where
  "Revoke e tid owner s =
     (if \<not> ok e RvBegin then (s, Inl RvBeginFailed)
      else if \<not> ok e RvLookup then (s, Inl RvLookupFailed)
      else (case revoke_lookup tid owner (sv_db s) of
              None \<Rightarrow> (s, Inr False)
            | Some r \<Rightarrow>
                (case revoke_body e tid (tn_status r) (sv_db s) of
                   Inl err \<Rightarrow> (s, Inl err)
                 | Inr (d', moved) \<Rightarrow>
                     (case commit e RvCommit s (s\<lparr>sv_db := d'\<rparr>) of
                        (s', False) \<Rightarrow> (s', Inl RvCommitFailed)
                      | (s', True) \<Rightarrow> ((if moved then count_transition s' else s'), Inr True)))))"

subsection \<open>Transition\<close>

datatype transition_error = TrRevoke revoke_error | TrNoSuchTunnel | TrBeginFailed | TrLookupFailed
  | TrCheckFailed | TrElapsed | TrCommitFailed | TrTerminal status | TrInvalid status event
  | TrUpdateFailed | TrChangedConcurrently | TrEventFailed

definition transition_body ::
  "env \<Rightarrow> string \<Rightarrow> event \<Rightarrow> status \<Rightarrow> db \<Rightarrow> transition_error + db" where
  "transition_body e tid ev cur d =
     (case validTransitions cur of
        None \<Rightarrow> Inl (TrTerminal cur)
      | Some transitions \<Rightarrow>
          (case transitions ev of
             None \<Rightarrow> Inl (TrInvalid cur ev)
           | Some new \<Rightarrow>
               if \<not> ok e TrUpdate then Inl TrUpdateFailed
               else (case sql_set_status new tid cur d of
                       (d', n) \<Rightarrow>
                         if n = 0 then Inl TrChangedConcurrently
                         else if \<not> ok e TrEvent then Inl TrEventFailed
                         else Inr (insertEvent (e_time e TrBegin) tid (event_text ev) new d'))))"

definition Transition :: "env \<Rightarrow> string \<Rightarrow> event \<Rightarrow> srv \<Rightarrow> srv \<times> (transition_error + unit)" where
  "Transition e tid ev s =
     (if ev = EventRevoke then
        (case Revoke e tid '''' s of
           (s', Inl err) \<Rightarrow> (s', Inl (TrRevoke err))
         | (s', Inr found) \<Rightarrow> (s', if found then Inr () else Inl TrNoSuchTunnel))
      else if \<not> ok e TrBegin then (s, Inl TrBeginFailed)
      else if \<not> ok e TrLookup then (s, Inl TrLookupFailed)
      else (case find_tunnel tid (sv_db s) of
              None \<Rightarrow> (s, Inl TrNoSuchTunnel)
            | Some r \<Rightarrow>
                if ev = EventNewProxy \<and> \<not> ok e TrTTL then (s, Inl TrCheckFailed)
                else if ev = EventNewProxy \<and> \<not> within_ttl (e_time e TrTTL) r then (s, Inl TrElapsed)
                else if ev = EventNewProxy \<and> tn_status r = Active then
                  (case commit e TrCommit s s of
                     (s', False) \<Rightarrow> (s', Inl TrCommitFailed)
                   | (s', True) \<Rightarrow> (s', Inr ()))
                else (case transition_body e tid ev (tn_status r) (sv_db s) of
                        Inl err \<Rightarrow> (s, Inl err)
                      | Inr d' \<Rightarrow>
                          (case commit e TrCommit s (s\<lparr>sv_db := d'\<rparr>) of
                             (s', False) \<Rightarrow> (s', Inl TrCommitFailed)
                           | (s', True) \<Rightarrow> (count_transition s', Inr ())))))"

subsection \<open>The reaper\<close>

definition elapsed :: "time \<Rightarrow> tunnel_row \<Rightarrow> bool" where
  "elapsed now r \<longleftrightarrow> null_lt (tn_expires r) now \<and> non_terminal (tn_status r)"

text \<open>
  \<open>UPDATE tunnels SET status = 'expired' WHERE ... RETURNING id\<close>.  PostgreSQL does not say in which
  order the rows are returned; the order of the table stands for it, and decides nothing but the order of
  the events, which all have the same time.
\<close>

definition sql_expire_elapsed :: "time \<Rightarrow> db \<Rightarrow> db \<times> string list" where
  "sql_expire_elapsed now d =
     (d\<lparr>db_tunnels := update_where (elapsed now) (\<lambda>r. r\<lparr>tn_status := Expired\<rparr>) (db_tunnels d)\<rparr>,
      map tn_id (filter (elapsed now) (db_tunnels d)))"

fun reap_events :: "env \<Rightarrow> string list \<Rightarrow> db \<Rightarrow> db option" where
  "reap_events e [] d = Some d"
| "reap_events e (tid # tids) d =
     (if ok e (RpEvent tid)
      then reap_events e tids (insertEvent (e_time e RpBegin) tid (event_text EventExpire) Expired d)
      else None)"

definition reapExpired :: "env \<Rightarrow> srv \<Rightarrow> srv" where
  "reapExpired e s =
     (if \<not> ok e RpBegin \<or> \<not> ok e RpUpdate then s
      else (case sql_expire_elapsed (e_time e RpBegin) (sv_db s) of
              (d', expired) \<Rightarrow>
                if (expired \<noteq> [] \<and> \<not> ok e RpScan) \<or> \<not> ok e RpIter then s
                else (case reap_events e expired d' of
                        None \<Rightarrow> s
                      | Some d'' \<Rightarrow>
                          (case commit e RpCommit s (s\<lparr>sv_db := d''\<rparr>) of
                             (s', False) \<Rightarrow> s'
                           | (s', True) \<Rightarrow> (count_transition ^^ length expired) s'))))"

text \<open>The loop of \<open>StartReaper\<close>: a tick reaps, the end of the context stops it.\<close>

datatype signal = Tick env | CtxDone

fun StartReaper :: "signal list \<Rightarrow> srv \<Rightarrow> srv" where
  "StartReaper [] s = s"
| "StartReaper (CtxDone # _) s = s"
| "StartReaper (Tick e # sigs) s = StartReaper sigs (reapExpired e s)"

subsection \<open>The quota count\<close>

definition CountNonTerminalTunnels :: "string \<Rightarrow> db \<Rightarrow> nat" where
  "CountNonTerminalTunnels uid d =
     count_where (\<lambda>r. tn_user r = uid \<and> non_terminal (tn_status r)) (db_tunnels d)"

subsection \<open>Sweepers\<close>

definition sweepExpiredEvents :: "env \<Rightarrow> int \<Rightarrow> db \<Rightarrow> db" where
  "sweepExpiredEvents e days d =
     fst (pool_exec e SwEvents (\<lambda>d. d\<lparr>db_events :=
       filter (\<lambda>r. \<not> ev_created r < e_time e SwEvents - days * usec_per_day) (db_events d)\<rparr>) d)"

definition sweepIdempotencyKeys :: "env \<Rightarrow> int \<Rightarrow> db \<Rightarrow> db" where
  "sweepIdempotencyKeys e hours d =
     fst (pool_exec e SwIdem (\<lambda>d. d\<lparr>db_idem :=
       filter (\<lambda>r. \<not> ik_created r < e_time e SwIdem - hours * usec_per_hour) (db_idem d)\<rparr>) d)"

definition dead_token :: "time \<Rightarrow> rt_row \<Rightarrow> bool" where
  "dead_token cutoff r \<longleftrightarrow>
     (rt_revoked r \<noteq> None \<and> null_lt (rt_revoked r) cutoff) \<or>
     (rt_revoked r = None \<and> rt_expires r < cutoff)"

definition sweepRuntimeTokens :: "env \<Rightarrow> int \<Rightarrow> db \<Rightarrow> db" where
  "sweepRuntimeTokens e days d =
     fst (pool_exec e SwTokens (\<lambda>d. d\<lparr>db_rt_tokens :=
       filter (\<lambda>r. \<not> dead_token (e_time e SwTokens - days * usec_per_day) r) (db_rt_tokens d)\<rparr>) d)"

text \<open>One tick of \<open>StartSweepers\<close>.\<close>

definition sweep_tick :: "env \<Rightarrow> int \<Rightarrow> int \<Rightarrow> int \<Rightarrow> db \<Rightarrow> db" where
  "sweep_tick e eventDays idemHours tokenDays d =
     sweepRuntimeTokens e tokenDays (sweepIdempotencyKeys e idemHours (sweepExpiredEvents e eventDays d))"

fun runSweeper :: "int \<Rightarrow> int \<Rightarrow> int \<Rightarrow> signal list \<Rightarrow> db \<Rightarrow> db" where
  "runSweeper ed ih td [] d = d"
| "runSweeper ed ih td (CtxDone # _) d = d"
| "runSweeper ed ih td (Tick e # sigs) d = runSweeper ed ih td sigs (sweep_tick e ed ih td d)"

subsection \<open>The abstract state machine\<close>

text \<open>
  The diagram of the design document, as a relation.  A path is any number of steps.
\<close>

inductive status_step :: "status \<Rightarrow> event \<Rightarrow> status \<Rightarrow> bool" where
  claim: "status_step Reserved EventNewProxy Active"
| close: "status_step Active EventCloseProxy Closed"
| reclaim: "status_step Closed EventNewProxy Active"
| expire: "non_terminal a \<Longrightarrow> status_step a EventExpire Expired"
| revoke: "non_terminal a \<Longrightarrow> status_step a EventRevoke Revoked"

inductive_simps status_step_simps: "status_step a ev b"
inductive_cases status_step_terminal: "status_step Expired ev b" "status_step Revoked ev b"

definition status_path :: "status \<Rightarrow> status \<Rightarrow> bool" where
  "status_path = (\<lambda>a b. \<exists>ev. status_step a ev b)\<^sup>*\<^sup>*"

lemma validTransitions_step:
  "(\<exists>m. validTransitions a = Some m \<and> m ev = Some b) \<longleftrightarrow> status_step a ev b"
  by (cases a; cases ev; cases b) (simp_all add: status_step_simps)

lemma status_path_refl [simp]: "status_path a a"
  by (simp add: status_path_def)

lemma status_path_step: "status_step a ev b \<Longrightarrow> status_path a b"
  unfolding status_path_def by (rule r_into_rtranclp) blast

lemma status_path_trans: "status_path a b \<Longrightarrow> status_path b c \<Longrightarrow> status_path a c"
  unfolding status_path_def by (rule rtranclp_trans)

lemma status_path_terminal: "status_path a b \<Longrightarrow> \<not> non_terminal a \<Longrightarrow> b = a"
  unfolding status_path_def
  by (induction rule: rtranclp_induct) (auto simp: status_step_simps)

lemma status_path_non_terminal: "status_path a b \<Longrightarrow> non_terminal b \<Longrightarrow> non_terminal a"
  using status_path_terminal by blast

lemma status_path_reserved: "status_path a Reserved \<Longrightarrow> a = Reserved"
proof -
  have "status_path a b \<Longrightarrow> b = Reserved \<longrightarrow> a = Reserved" for b
    unfolding status_path_def by (induction rule: rtranclp_induct) (auto simp: status_step_simps)
  then show "status_path a Reserved \<Longrightarrow> a = Reserved" by blast
qed

subsection \<open>How an operation may change the tunnels\<close>

text \<open>
  A row may only move along the state machine, its other columns are fixed and it is never
  deleted; new rows are appended in a state reachable from reserved.
\<close>

definition row_evolves :: "tunnel_row \<Rightarrow> tunnel_row \<Rightarrow> bool" where
  "row_evolves r r' \<longleftrightarrow> (\<exists>st. status_path (tn_status r) st \<and> r' = r\<lparr>tn_status := st\<rparr>)"

definition rows_evolve :: "tunnel_row list \<Rightarrow> tunnel_row list \<Rightarrow> bool" where
  "rows_evolve ts ts' \<longleftrightarrow>
     (\<exists>old new. ts' = old @ new \<and> list_all2 row_evolves ts old \<and>
        (\<forall>r \<in> set new. status_path Reserved (tn_status r)))"

abbreviation evolves :: "db \<Rightarrow> db \<Rightarrow> bool" where
  "evolves d d' \<equiv> rows_evolve (db_tunnels d) (db_tunnels d')"

lemma row_evolves_refl [simp]: "row_evolves r r"
  unfolding row_evolves_def by (rule exI [of _ "tn_status r"]) simp

lemma row_evolves_trans:
  assumes "row_evolves a b" and "row_evolves b c"
  shows "row_evolves a c"
proof -
  obtain s1 where s1: "status_path (tn_status a) s1" "b = a\<lparr>tn_status := s1\<rparr>"
    using assms(1) unfolding row_evolves_def by blast
  obtain s2 where s2: "status_path (tn_status b) s2" "c = b\<lparr>tn_status := s2\<rparr>"
    using assms(2) unfolding row_evolves_def by blast
  have "tn_status b = s1" "c = a\<lparr>tn_status := s2\<rparr>" using s1(2) s2(2) by simp_all
  then show ?thesis using status_path_trans [OF s1(1)] s2(1) unfolding row_evolves_def by blast
qed

lemma list_all2_in_right: "list_all2 P xs ys \<Longrightarrow> y \<in> set ys \<Longrightarrow> \<exists>x \<in> set xs. P x y"
  by (induction rule: list_all2_induct) auto

lemma rows_evolve_refl [simp]: "rows_evolve ts ts"
  unfolding rows_evolve_def by (rule exI [of _ ts]) (simp add: list_all2_refl)

lemma rows_evolve_trans:
  assumes "rows_evolve ts ts'" and "rows_evolve ts' ts''"
  shows "rows_evolve ts ts''"
proof -
  obtain o1 n1 where 1: "ts' = o1 @ n1" "list_all2 row_evolves ts o1"
      "\<forall>r \<in> set n1. status_path Reserved (tn_status r)"
    using assms(1) by (auto simp: rows_evolve_def)
  obtain o2 n2 where 2: "ts'' = o2 @ n2" "list_all2 row_evolves ts' o2"
      "\<forall>r \<in> set n2. status_path Reserved (tn_status r)"
    using assms(2) by (auto simp: rows_evolve_def)
  obtain a b where ab: "o2 = a @ b" "list_all2 row_evolves o1 a" "list_all2 row_evolves n1 b"
    using 2(2) unfolding 1(1) by (auto simp: list_all2_append1)
  have "list_all2 row_evolves ts a"
    by (rule list_all2_trans [OF row_evolves_trans 1(2) ab(2)])
  moreover have "status_path Reserved (tn_status r)" if rb: "r \<in> set b" for r
  proof -
    obtain r0 where "r0 \<in> set n1" "row_evolves r0 r"
      using list_all2_in_right [OF ab(3) rb] by blast
    then show ?thesis using 1(3) by (auto simp: row_evolves_def intro: status_path_trans)
  qed
  ultimately show ?thesis
    unfolding rows_evolve_def 2(1) ab(1)
    by (intro exI [of _ a] exI [of _ "b @ n2"]) (use 2(3) in auto)
qed

lemma rows_evolve_update:
  assumes "\<And>r. r \<in> set ts \<Longrightarrow> P r \<Longrightarrow> status_path (tn_status r) st"
  shows "rows_evolve ts (update_where P (\<lambda>r. r\<lparr>tn_status := st\<rparr>) ts)"
proof -
  have "list_all2 row_evolves ts (update_where P (\<lambda>r. r\<lparr>tn_status := st\<rparr>) ts)"
    using assms by (induction ts) (auto simp: row_evolves_def [of _ "_\<lparr>tn_status := st\<rparr>"])
  then show ?thesis unfolding rows_evolve_def by (metis append_Nil2 empty_iff empty_set)
qed

lemma rows_evolve_append: "status_path Reserved (tn_status r) \<Longrightarrow> rows_evolve ts (ts @ [r])"
  unfolding rows_evolve_def by (intro exI [of _ ts] exI [of _ "[r]"]) (simp add: list_all2_refl)

lemma list_all2_find:
  assumes "list_all2 row_evolves ts ts'" and "find_by tn_id tid ts = Some r"
  shows "\<exists>r'. find_by tn_id tid ts' = Some r' \<and> row_evolves r r'"
  using assms
  by (induction rule: list_all2_induct) (auto simp: row_evolves_def split: if_splits)

lemma evolves_find:
  assumes "evolves d d'" and "find_tunnel tid d = Some r"
  shows "\<exists>r'. find_tunnel tid d' = Some r' \<and> row_evolves r r'"
  using assms list_all2_find [of "db_tunnels d" _ tid r]
  by (force simp: rows_evolve_def find_tunnel_def find_by_append)

subsection \<open>Invariants\<close>

text \<open>A revoked tunnel has no live credential.\<close>

definition revoked_dead :: "db \<Rightarrow> bool" where
  "revoked_dead d \<longleftrightarrow>
     (\<forall>t \<in> set (db_rt_tokens d). \<forall>r \<in> set (db_tunnels d).
        tn_id r = rt_tunnel t \<and> tn_status r = Revoked \<longrightarrow> rt_revoked t \<noteq> None)"

text \<open>The status that the audit trail records last for a tunnel.\<close>

fun logged :: "string \<Rightarrow> event_row list \<Rightarrow> status option" where
  "logged tid [] = None"
| "logged tid (ev # evs) =
     (case logged tid evs of
        Some st \<Rightarrow> Some st
      | None \<Rightarrow> (if ev_tunnel ev = tid
                 then (case ev_payload ev of NewStatus st \<Rightarrow> Some st | ConnReport _ _ \<Rightarrow> None)
                 else None))"

definition audit_ok :: "db \<Rightarrow> bool" where
  "audit_ok d \<longleftrightarrow> (\<forall>r \<in> set (db_tunnels d). logged (tn_id r) (db_events d) = Some (tn_status r))"

lemma logged_append:
  "logged tid (xs @ ys) = (case logged tid ys of Some st \<Rightarrow> Some st | None \<Rightarrow> logged tid xs)"
  by (induction xs) (auto split: option.splits)

lemma logged_insertEvent:
  "logged tid (db_events (insertEvent now t ty st d)) = (if t = tid then Some st else logged tid (db_events d))"
  by (simp add: insertEvent_def logged_append)

subsection \<open>The contract of a database operation\<close>

text \<open>
  What every operation of the server promises about the state it leaves behind, whatever the
  outcome of its calls.  Interpreted on \<open>Transition\<close>, \<open>Revoke\<close> and the reaper below, and on the
  operations of the other theories where they are defined.
\<close>

locale tunnel_op =
  fixes run :: "srv \<Rightarrow> srv"
  assumes run_schema: "schema_ok (sv_db s) \<Longrightarrow> schema_ok (sv_db (run s))"
    and run_evolves: "schema_ok (sv_db s) \<Longrightarrow> evolves (sv_db s) (sv_db (run s))"
    and run_dead: "schema_ok (sv_db s) \<Longrightarrow> revoked_dead (sv_db s) \<Longrightarrow> revoked_dead (sv_db (run s))"
begin

lemma terminal_stays:
  assumes "schema_ok (sv_db s)" "find_tunnel tid (sv_db s) = Some r" "\<not> non_terminal (tn_status r)"
  shows "find_tunnel tid (sv_db (run s)) = Some r"
  using evolves_find [OF run_evolves [OF assms(1)] assms(2)] status_path_terminal assms(3)
  by (fastforce simp: row_evolves_def)

lemma columns_fixed:
  assumes "schema_ok (sv_db s)" "find_tunnel tid (sv_db s) = Some r"
  shows "\<exists>st. status_path (tn_status r) st \<and>
              find_tunnel tid (sv_db (run s)) = Some (r\<lparr>tn_status := st\<rparr>)"
  using evolves_find [OF run_evolves [OF assms(1)] assms(2)] by (auto simp: row_evolves_def)

end

text \<open>An operation that creates no tunnel leaves nobody closer to the quota.\<close>

lemma evolves_count:
  assumes "evolves d d'" "length (db_tunnels d') = length (db_tunnels d)"
  shows "CountNonTerminalTunnels uid d' \<le> CountNonTerminalTunnels uid d"
proof -
  obtain old new where o: "db_tunnels d' = old @ new" "list_all2 row_evolves (db_tunnels d) old"
    using assms(1) by (auto simp: rows_evolve_def)
  with assms(2) have "new = []" by (auto dest: list_all2_lengthD)
  with o have "list_all2 row_evolves (db_tunnels d) (db_tunnels d')" by simp
  then show ?thesis
    unfolding CountNonTerminalTunnels_def
    by (induction rule: list_all2_induct) (auto simp: row_evolves_def dest: status_path_non_terminal)
qed

locale no_create = tunnel_op +
  assumes run_length: "length (db_tunnels (sv_db (run s))) = length (db_tunnels (sv_db s))"
begin

lemma count_not_increased:
  assumes "schema_ok (sv_db s)"
  shows "CountNonTerminalTunnels uid (sv_db (run s)) \<le> CountNonTerminalTunnels uid (sv_db s)"
  using run_evolves [OF assms] run_length by (rule evolves_count)

end

locale audited_op = tunnel_op +
  assumes run_audit: "schema_ok (sv_db s) \<Longrightarrow> audit_ok (sv_db s) \<Longrightarrow> audit_ok (sv_db (run s))"

subsection \<open>Statements under the invariants\<close>

interpretation status_upd: keyed_update tn_id "\<lambda>r. r\<lparr>tn_status := st\<rparr>" for st
  by unfold_locales simp

interpretation token_upd: keyed_update rt_id "\<lambda>r. r\<lparr>rt_revoked := t\<rparr>" for t
  by unfold_locales simp

text \<open>Setting the status of some rows, as one operation on the tunnels table.\<close>

definition set_status_where :: "(tunnel_row \<Rightarrow> bool) \<Rightarrow> status \<Rightarrow> db \<Rightarrow> db" where
  "set_status_where P st d = d\<lparr>db_tunnels := update_where P (\<lambda>r. r\<lparr>tn_status := st\<rparr>) (db_tunnels d)\<rparr>"

lemma set_status_views:
  "sql_set_status_by_id st tid d = set_status_where (\<lambda>r. tn_id r = tid) st d"
  "fst (sql_set_status st tid cur d) = set_status_where (\<lambda>r. tn_id r = tid \<and> tn_status r = cur) st d"
  "fst (sql_expire_elapsed now d) = set_status_where (elapsed now) Expired d"
  by (simp_all add: sql_set_status_by_id_def sql_set_status_def sql_expire_elapsed_def
      set_status_where_def Let_def)

lemma set_status_other_tables [simp]:
  "db_events (set_status_where P st d) = db_events d"
  "db_rt_tokens (set_status_where P st d) = db_rt_tokens d"
  "db_idem (set_status_where P st d) = db_idem d"
  "db_api_tokens (set_status_where P st d) = db_api_tokens d"
  "db_users (set_status_where P st d) = db_users d"
  by (simp_all add: set_status_where_def)

lemma insertEvent_other_tables [simp]:
  "db_tunnels (insertEvent now tid ty st d) = db_tunnels d"
  "db_rt_tokens (insertEvent now tid ty st d) = db_rt_tokens d"
  "db_idem (insertEvent now tid ty st d) = db_idem d"
  "db_api_tokens (insertEvent now tid ty st d) = db_api_tokens d"
  "db_users (insertEvent now tid ty st d) = db_users d"
  by (simp_all add: insertEvent_def)

lemma revokeRuntimeTokens_other_tables [simp]:
  "db_tunnels (revokeRuntimeTokens now tid d) = db_tunnels d"
  "db_events (revokeRuntimeTokens now tid d) = db_events d"
  "db_idem (revokeRuntimeTokens now tid d) = db_idem d"
  "db_api_tokens (revokeRuntimeTokens now tid d) = db_api_tokens d"
  "db_users (revokeRuntimeTokens now tid d) = db_users d"
  by (simp_all add: revokeRuntimeTokens_def)

lemma schema_set_status: "schema_ok d \<Longrightarrow> schema_ok (set_status_where P st d)"
  unfolding set_status_where_def
  by (rule schema_ok_tunnels) (simp_all add: map_update_where)

lemma schema_insertEvent [simp]: "schema_ok (insertEvent now tid ty st d) = schema_ok d"
  by (simp add: insertEvent_def schema_ok_events)

lemma schema_revokeRuntimeTokens: "schema_ok d \<Longrightarrow> schema_ok (revokeRuntimeTokens now tid d)"
  unfolding revokeRuntimeTokens_def
proof (rule schema_ok_rt_tokens)
  assume ok: "schema_ok d"
  then show "distinct (map rt_id (update_where (\<lambda>r. rt_tunnel r = tid \<and> rt_revoked r = None)
      (\<lambda>r. r\<lparr>rt_revoked := Some now\<rparr>) (db_rt_tokens d)))"
    by (simp only: token_upd.keys_update schema_okD)
  fix t
  assume "t \<in> set (update_where (\<lambda>r. rt_tunnel r = tid \<and> rt_revoked r = None)
      (\<lambda>r. r\<lparr>rt_revoked := Some now\<rparr>) (db_rt_tokens d))"
  then obtain t0 where "t0 \<in> set (db_rt_tokens d)" "rt_tunnel t = rt_tunnel t0" "rt_use_count t = rt_use_count t0"
    unfolding in_set_update_where by (auto split: if_splits)
  with ok show "rt_tunnel t \<in> tn_id ` set (db_tunnels d) \<and> 0 \<le> rt_use_count t"
    by (auto simp: schema_ok_def)
qed

lemma in_set_status_where:
  "r' \<in> set (db_tunnels (set_status_where P st d)) \<longleftrightarrow>
     (\<exists>r \<in> set (db_tunnels d). r' = (if P r then r\<lparr>tn_status := st\<rparr> else r))"
  by (simp add: set_status_where_def in_set_update_where)

lemma in_set_status_whereE:
  assumes "r' \<in> set (db_tunnels (set_status_where P st d))"
  obtains r where "r \<in> set (db_tunnels d)" "tn_id r' = tn_id r" "P r \<Longrightarrow> tn_status r' = st"
    "\<not> P r \<Longrightarrow> r' = r"
  using assms by (auto simp: in_set_status_where)

lemma dead_set_status:
  assumes "revoked_dead d" and "st \<noteq> Revoked"
  shows "revoked_dead (set_status_where P st d)"
  unfolding revoked_dead_def
proof (intro ballI impI)
  fix t r'
  assume t: "t \<in> set (db_rt_tokens (set_status_where P st d))"
    and r': "r' \<in> set (db_tunnels (set_status_where P st d))"
    and h: "tn_id r' = rt_tunnel t \<and> tn_status r' = Revoked"
  from r' obtain r where r: "r \<in> set (db_tunnels d)" "tn_id r' = tn_id r"
      "P r \<Longrightarrow> tn_status r' = st" "\<not> P r \<Longrightarrow> r' = r"
    by (rule in_set_status_whereE) blast
  from r(3) h assms(2) have "\<not> P r" by auto
  then have "r' = r" by (rule r(4))
  then show "rt_revoked t \<noteq> None"
    using assms(1) t h r(1) unfolding revoked_dead_def by simp blast
qed

lemma dead_insertEvent [simp]: "revoked_dead (insertEvent now tid ty st d) = revoked_dead d"
  by (simp add: revoked_dead_def)

lemma in_revokeRuntimeTokensE:
  assumes "t' \<in> set (db_rt_tokens (revokeRuntimeTokens now tid d))"
  obtains t where "t \<in> set (db_rt_tokens d)" "rt_tunnel t' = rt_tunnel t"
    "rt_revoked t \<noteq> None \<Longrightarrow> t' = t" "rt_tunnel t = tid \<Longrightarrow> rt_revoked t' \<noteq> None"
    "rt_tunnel t \<noteq> tid \<Longrightarrow> t' = t"
proof -
  let ?P = "\<lambda>r. rt_tunnel r = tid \<and> rt_revoked r = None"
  have "t' \<in> set (update_where ?P (\<lambda>r. r\<lparr>rt_revoked := Some now\<rparr>) (db_rt_tokens d))"
    using assms unfolding revokeRuntimeTokens_def by simp
  then obtain t where t: "t \<in> set (db_rt_tokens d)" "t' = (if ?P t then t\<lparr>rt_revoked := Some now\<rparr> else t)"
    unfolding in_set_update_where by blast
  show thesis
    by (rule that [OF t(1)]) (cases "?P t", simp_all add: t(2))+
qed

lemma tokens_dead_after_revoke:
  "t \<in> set (db_rt_tokens (revokeRuntimeTokens now tid d)) \<Longrightarrow> rt_tunnel t = tid \<Longrightarrow> rt_revoked t \<noteq> None"
  by (elim in_revokeRuntimeTokensE) metis

lemma dead_revokeRuntimeTokens:
  assumes "\<And>t r. t \<in> set (db_rt_tokens d) \<Longrightarrow> r \<in> set (db_tunnels d) \<Longrightarrow> rt_tunnel t \<noteq> tid \<Longrightarrow>
      tn_id r = rt_tunnel t \<Longrightarrow> tn_status r = Revoked \<Longrightarrow> rt_revoked t \<noteq> None"
  shows "revoked_dead (revokeRuntimeTokens now tid d)"
  unfolding revoked_dead_def
proof (intro ballI impI)
  fix t' r
  assume t': "t' \<in> set (db_rt_tokens (revokeRuntimeTokens now tid d))"
    and r: "r \<in> set (db_tunnels (revokeRuntimeTokens now tid d))"
    and h: "tn_id r = rt_tunnel t' \<and> tn_status r = Revoked"
  show "rt_revoked t' \<noteq> None"
  proof (cases "rt_tunnel t' = tid")
    case True
    with t' show ?thesis by (rule tokens_dead_after_revoke)
  next
    case False
    from t' obtain t where "t \<in> set (db_rt_tokens d)" "rt_tunnel t' = rt_tunnel t"
        "rt_tunnel t \<noteq> tid \<Longrightarrow> t' = t"
      by (rule in_revokeRuntimeTokensE) blast
    with False show ?thesis using assms r h by auto
  qed
qed

lemma find_set_status:
  "find_tunnel tid (set_status_where P st d) =
     map_option (\<lambda>r. if P r then r\<lparr>tn_status := st\<rparr> else r) (find_tunnel tid d)"
  by (simp add: find_tunnel_def set_status_where_def status_upd.find_update)

lemma find_set_status_other [simp]:
  "o' \<noteq> tid \<Longrightarrow> find_tunnel o' (set_status_where (\<lambda>r. tn_id r = tid) st d) = find_tunnel o' d"
  by (simp add: find_tunnel_def set_status_where_def status_upd.find_update_other)

lemma find_tunnel_frames [simp]:
  "find_tunnel tid (insertEvent now t ty st d) = find_tunnel tid d"
  "find_tunnel tid (revokeRuntimeTokens now t d) = find_tunnel tid d"
  by (simp_all add: find_tunnel_def)

lemma audit_set_status_event:
  assumes "schema_ok d" "audit_ok d"
  shows "audit_ok (insertEvent now tid ty st (set_status_where (\<lambda>r. tn_id r = tid) st d))"
  unfolding audit_ok_def
proof
  fix r'
  assume "r' \<in> set (db_tunnels (insertEvent now tid ty st (set_status_where (\<lambda>r. tn_id r = tid) st d)))"
  then have "r' \<in> set (db_tunnels (set_status_where (\<lambda>r. tn_id r = tid) st d))" by simp
  then obtain r where "r \<in> set (db_tunnels d)" "tn_id r' = tn_id r"
      "tn_id r = tid \<Longrightarrow> tn_status r' = st" "tn_id r \<noteq> tid \<Longrightarrow> r' = r"
    by (rule in_set_status_whereE) blast
  then show "logged (tn_id r') (db_events (insertEvent now tid ty st
      (set_status_where (\<lambda>r. tn_id r = tid) st d))) = Some (tn_status r')"
    using assms(2) by (auto simp: audit_ok_def logged_insertEvent)
qed

lemma audit_revokeRuntimeTokens: "audit_ok (revokeRuntimeTokens now tid d) = audit_ok d"
  by (simp add: audit_ok_def)

text \<open>With distinct ids the guard of \<open>Transition\<close>'s update only repeats what was read.\<close>

lemma set_status_guarded:
  assumes "schema_ok d" "find_tunnel tid d = Some r"
  shows "sql_set_status st tid (tn_status r) d = (set_status_where (\<lambda>r. tn_id r = tid) st d, 1)"
proof -
  have uniq: "tn_status x = tn_status r" if "x \<in> set (db_tunnels d)" "tn_id x = tid" for x
    using find_tunnel_in [OF assms(1) that(1)] that(2) assms(2) by simp
  have "update_where (\<lambda>x. tn_id x = tid \<and> tn_status x = tn_status r) (\<lambda>r. r\<lparr>tn_status := st\<rparr>) (db_tunnels d)
      = update_where (\<lambda>x. tn_id x = tid) (\<lambda>r. r\<lparr>tn_status := st\<rparr>) (db_tunnels d)"
    unfolding update_where_def using uniq by (intro map_cong) auto
  moreover have "count_where (\<lambda>x. tn_id x = tid \<and> tn_status x = tn_status r) (db_tunnels d) = 1"
    using assms by (subst count_where_key) (simp_all add: schema_okD flip: find_tunnel_def)
  ultimately show ?thesis by (simp add: sql_set_status_def set_status_where_def Let_def)
qed

lemma set_status_by_id_evolves:
  assumes "schema_ok d" "find_tunnel tid d = Some r" "status_path (tn_status r) st"
  shows "evolves d (set_status_where (\<lambda>r. tn_id r = tid) st d)"
  unfolding set_status_where_def using assms find_tunnel_in [OF assms(1)]
  by (auto intro!: rows_evolve_update)

subsection \<open>What the transactions do\<close>

text \<open>The complete effect of a revocation; \<open>moved\<close> when the tunnel was not terminal.\<close>

definition revoke_effect :: "time \<Rightarrow> string \<Rightarrow> bool \<Rightarrow> db \<Rightarrow> db" where
  "revoke_effect now tid moved d =
     revokeRuntimeTokens now tid
       (if moved then insertEvent now tid (event_text EventRevoke) Revoked
                        (set_status_where (\<lambda>r. tn_id r = tid) Revoked d)
        else d)"

lemma revoke_body_InrD:
  "revoke_body e tid cur d = Inr (d', moved) \<Longrightarrow>
     moved = non_terminal cur \<and> d' = revoke_effect (e_time e RvBegin) tid moved d"
  by (cases cur) (auto simp: revoke_body_def revoke_effect_def set_status_views Let_def split: if_splits)

lemma revoke_body_ok:
  "ok e RvUpdate \<Longrightarrow> ok e RvEvent \<Longrightarrow> ok e RvTokens \<Longrightarrow>
     revoke_body e tid cur d = Inr (revoke_effect (e_time e RvBegin) tid (non_terminal cur) d, non_terminal cur)"
  by (cases cur) (auto simp: revoke_body_def revoke_effect_def set_status_views Let_def)

lemma Revoke_db:
  "sv_db (fst (Revoke e tid owner s)) = sv_db s \<or>
   (\<exists>r. revoke_lookup tid owner (sv_db s) = Some r \<and>
        sv_db (fst (Revoke e tid owner s)) =
          revoke_effect (e_time e RvBegin) tid (non_terminal (tn_status r)) (sv_db s))"
proof (cases "revoke_lookup tid owner (sv_db s)")
  case (Some r)
  show ?thesis
  proof (cases "revoke_body e tid (tn_status r) (sv_db s)")
    case (Inr p)
    obtain d' moved where p: "p = (d', moved)" by (cases p)
    with Inr revoke_body_InrD
    have "d' = revoke_effect (e_time e RvBegin) tid (non_terminal (tn_status r)) (sv_db s)" by blast
    with Some Inr p show ?thesis
      by (cases "e_out e RvCommit") (simp_all add: Revoke_def commit_simps)
  qed (simp add: Revoke_def Some)
qed (simp add: Revoke_def)

lemma revoke_lookup_SomeD:
  "revoke_lookup tid owner d = Some r \<Longrightarrow> find_tunnel tid d = Some r \<and> (owner = '''' \<or> tn_user r = owner)"
  by (auto simp: revoke_lookup_def split: option.splits if_splits)

lemma schema_revoke_effect: "schema_ok d \<Longrightarrow> schema_ok (revoke_effect now tid moved d)"
  unfolding revoke_effect_def by (rule schema_revokeRuntimeTokens) (simp add: schema_set_status)

lemma dead_revoke_effect:
  assumes "revoked_dead d"
  shows "revoked_dead (revoke_effect now tid moved d)"
proof -
  have "rt_revoked t \<noteq> None"
    if t: "t \<in> set (db_rt_tokens d)" and r': "r' \<in> set (db_tunnels (set_status_where (\<lambda>r. tn_id r = tid) Revoked d))"
      and o: "rt_tunnel t \<noteq> tid" "tn_id r' = rt_tunnel t" "tn_status r' = Revoked" for t r'
  proof -
    from r' obtain r where "r \<in> set (db_tunnels d)" "tn_id r' = tn_id r" "tn_id r \<noteq> tid \<Longrightarrow> r' = r"
      by (rule in_set_status_whereE) blast
    with o t assms show ?thesis by (auto simp: revoked_dead_def)
  qed
  then show ?thesis
    using assms unfolding revoke_effect_def
    by (intro dead_revokeRuntimeTokens) (auto simp: revoked_dead_def split: if_splits)
qed

lemma evolves_revoke_effect:
  assumes "schema_ok d" "find_tunnel tid d = Some r"
  shows "evolves d (revoke_effect now tid (non_terminal (tn_status r)) d)"
proof (cases "non_terminal (tn_status r)")
  case True
  then have "status_path (tn_status r) Revoked" by (rule status_path_step [OF status_step.revoke])
  with assms True show ?thesis by (simp add: revoke_effect_def set_status_by_id_evolves)
qed (simp add: revoke_effect_def)

lemma audit_revoke_effect:
  assumes "schema_ok d" "audit_ok d"
  shows "audit_ok (revoke_effect now tid moved d)"
proof -
  have "audit_ok (if moved then insertEvent now tid (event_text EventRevoke) Revoked
                        (set_status_where (\<lambda>r. tn_id r = tid) Revoked d) else d)"
    using assms audit_set_status_event by simp
  then show ?thesis unfolding revoke_effect_def audit_revokeRuntimeTokens .
qed

interpretation revoke_op: audited_op "\<lambda>s. fst (Revoke e tid owner s)" for e tid owner
proof
  fix s :: srv
  assume ok: "schema_ok (sv_db s)"
  consider "sv_db (fst (Revoke e tid owner s)) = sv_db s"
    | r where "find_tunnel tid (sv_db s) = Some r" "sv_db (fst (Revoke e tid owner s)) =
          revoke_effect (e_time e RvBegin) tid (non_terminal (tn_status r)) (sv_db s)"
    using Revoke_db [of e tid owner s] revoke_lookup_SomeD by blast
  note cases = this
  show "schema_ok (sv_db (fst (Revoke e tid owner s)))"
    using ok by (cases rule: cases) (simp_all add: schema_revoke_effect)
  show "evolves (sv_db s) (sv_db (fst (Revoke e tid owner s)))"
    using ok by (cases rule: cases) (simp_all add: evolves_revoke_effect)
  show "revoked_dead (sv_db s) \<Longrightarrow> revoked_dead (sv_db (fst (Revoke e tid owner s)))"
    by (cases rule: cases) (simp_all add: dead_revoke_effect)
  show "audit_ok (sv_db s) \<Longrightarrow> audit_ok (sv_db (fst (Revoke e tid owner s)))"
    using ok by (cases rule: cases) (simp_all add: audit_revoke_effect)
qed

text \<open>The complete effect of a transition other than a revocation.\<close>

definition transition_effect :: "time \<Rightarrow> string \<Rightarrow> event \<Rightarrow> status \<Rightarrow> db \<Rightarrow> db" where
  "transition_effect now tid ev new d =
     insertEvent now tid (event_text ev) new (set_status_where (\<lambda>r. tn_id r = tid) new d)"

lemma transition_body_InrD:
  assumes "schema_ok d" "find_tunnel tid d = Some r" "transition_body e tid ev (tn_status r) d = Inr d'"
  shows "\<exists>new. status_step (tn_status r) ev new \<and> d' = transition_effect (e_time e TrBegin) tid ev new d"
proof -
  obtain m where m: "validTransitions (tn_status r) = Some m"
    using assms(3) by (auto simp: transition_body_def split: option.splits)
  obtain new where new: "m ev = Some new"
    using assms(3) by (auto simp: transition_body_def m split: option.splits)
  have "d' = transition_effect (e_time e TrBegin) tid ev new d"
    using assms(3) set_status_guarded [OF assms(1,2), of new]
    by (auto simp: transition_body_def m new transition_effect_def split: if_splits)
  with m new show ?thesis using validTransitions_step by blast
qed

lemma Transition_db:
  assumes "schema_ok (sv_db s)" and "ev \<noteq> EventRevoke"
  shows "sv_db (fst (Transition e tid ev s)) = sv_db s \<or>
   (\<exists>r new. find_tunnel tid (sv_db s) = Some r \<and> status_step (tn_status r) ev new \<and>
        sv_db (fst (Transition e tid ev s)) = transition_effect (e_time e TrBegin) tid ev new (sv_db s))"
proof (cases "find_tunnel tid (sv_db s)")
  case (Some r)
  show ?thesis
  proof (cases "transition_body e tid ev (tn_status r) (sv_db s)")
    case (Inr d')
    with transition_body_InrD [OF assms(1) Some] obtain new
      where "status_step (tn_status r) ev new" "d' = transition_effect (e_time e TrBegin) tid ev new (sv_db s)"
      by blast
    with Some Inr assms(2) show ?thesis
      by (cases "e_out e TrCommit") (auto simp: Transition_def commit_simps)
  next
    case (Inl err)
    with Some assms(2) show ?thesis
      by (cases "e_out e TrCommit") (auto simp: Transition_def commit_simps)
  qed
qed (simp add: Transition_def assms(2))

lemma Transition_revoke_db:
  "sv_db (fst (Transition e tid EventRevoke s)) = sv_db (fst (Revoke e tid '''' s))"
  by (auto simp: Transition_def split: prod.splits sum.splits)

interpretation transition_op: audited_op "\<lambda>s. fst (Transition e tid ev s)" for e tid ev
proof
  fix s :: srv
  assume ok: "schema_ok (sv_db s)"
  consider (revoke) "ev = EventRevoke"
    | (same) "sv_db (fst (Transition e tid ev s)) = sv_db s"
    | (step) r new where "find_tunnel tid (sv_db s) = Some r" "status_step (tn_status r) ev new" "ev \<noteq> EventRevoke"
        "sv_db (fst (Transition e tid ev s)) = transition_effect (e_time e TrBegin) tid ev new (sv_db s)"
    using Transition_db [OF ok] by blast
  note cases = this
  have not_revoked: "status_step a ev new \<Longrightarrow> ev \<noteq> EventRevoke \<Longrightarrow> new \<noteq> Revoked" for a new
    by (auto simp: status_step_simps)
  show "schema_ok (sv_db (fst (Transition e tid ev s)))"
    using ok revoke_op.run_schema [OF ok]
    by (cases rule: cases) (simp_all add: transition_effect_def schema_set_status Transition_revoke_db)
  show "evolves (sv_db s) (sv_db (fst (Transition e tid ev s)))"
    using ok revoke_op.run_evolves [OF ok]
    by (cases rule: cases)
       (simp_all add: transition_effect_def Transition_revoke_db set_status_by_id_evolves status_path_step)
  show "revoked_dead (sv_db s) \<Longrightarrow> revoked_dead (sv_db (fst (Transition e tid ev s)))"
    using revoke_op.run_dead [OF ok] not_revoked
    by (cases rule: cases) (simp_all add: transition_effect_def Transition_revoke_db dead_set_status)
  show "audit_ok (sv_db s) \<Longrightarrow> audit_ok (sv_db (fst (Transition e tid ev s)))"
    using ok revoke_op.run_audit [OF ok]
    by (cases rule: cases) (simp_all add: transition_effect_def Transition_revoke_db audit_set_status_event)
qed

subsection \<open>What the reaper and the sweepers do\<close>

definition expire_events :: "time \<Rightarrow> string list \<Rightarrow> db \<Rightarrow> db" where
  "expire_events now tids d =
     d\<lparr>db_events := db_events d @
        map (\<lambda>tid. \<lparr>ev_tunnel = tid, ev_type = event_text EventExpire, ev_payload = NewStatus Expired,
                    ev_created = now\<rparr>) tids\<rparr>"

definition reap_effect :: "time \<Rightarrow> db \<Rightarrow> db" where
  "reap_effect now d =
     expire_events now (map tn_id (filter (elapsed now) (db_tunnels d))) (set_status_where (elapsed now) Expired d)"

lemma reap_events_eq:
  "reap_events e tids d =
     (if \<forall>tid \<in> set tids. ok e (RpEvent tid) then Some (expire_events (e_time e RpBegin) tids d) else None)"
  by (induction tids arbitrary: d) (simp_all add: expire_events_def insertEvent_def)

lemma expire_events_other_tables [simp]:
  "db_tunnels (expire_events now tids d) = db_tunnels d"
  "db_rt_tokens (expire_events now tids d) = db_rt_tokens d"
  "db_idem (expire_events now tids d) = db_idem d"
  "schema_ok (expire_events now tids d) = schema_ok d"
  by (simp_all add: expire_events_def schema_ok_events)

lemma logged_expire_events:
  "logged tid (db_events (expire_events now tids d)) =
     (if tid \<in> set tids then Some Expired else logged tid (db_events d))"
proof -
  let ?ev = "\<lambda>tid. \<lparr>ev_tunnel = tid, ev_type = event_text EventExpire, ev_payload = NewStatus Expired,
                    ev_created = now\<rparr>"
  have "logged tid (map ?ev tids) = (if tid \<in> set tids then Some Expired else None)"
    by (induction tids) auto
  then show ?thesis by (simp add: expire_events_def logged_append)
qed

lemma sql_expire_elapsed_eq:
  "sql_expire_elapsed now d =
     (set_status_where (elapsed now) Expired d, map tn_id (filter (elapsed now) (db_tunnels d)))"
  by (simp add: sql_expire_elapsed_def set_status_where_def)

lemma reapExpired_db:
  "sv_db (reapExpired e s) = sv_db s \<or> sv_db (reapExpired e s) = reap_effect (e_time e RpBegin) (sv_db s)"
proof -
  have counters: "sv_db ((count_transition ^^ n) s') = sv_db s'" for n and s' :: srv
    by (induction n) simp_all
  show ?thesis
    by (cases "e_out e RpCommit")
       (auto simp: reapExpired_def sql_expire_elapsed_eq reap_events_eq commit_simps counters reap_effect_def)
qed

lemma elapsed_non_terminal: "elapsed now r \<Longrightarrow> non_terminal (tn_status r)"
  by (simp add: elapsed_def)

lemma evolves_reap: "evolves d (reap_effect now d)"
  unfolding reap_effect_def set_status_where_def
  by (auto intro!: rows_evolve_update status_path_step status_step.expire elapsed_non_terminal)

lemma audit_reap:
  assumes "schema_ok d" "audit_ok d"
  shows "audit_ok (reap_effect now d)"
  unfolding audit_ok_def
proof
  fix r'
  assume "r' \<in> set (db_tunnels (reap_effect now d))"
  then have "r' \<in> set (db_tunnels (set_status_where (elapsed now) Expired d))" by (simp add: reap_effect_def)
  then obtain r where r: "r \<in> set (db_tunnels d)" "tn_id r' = tn_id r"
      "elapsed now r \<Longrightarrow> tn_status r' = Expired" "\<not> elapsed now r \<Longrightarrow> r' = r"
    by (rule in_set_status_whereE) blast
  have iff: "tn_id r' \<in> tn_id ` set (filter (elapsed now) (db_tunnels d)) \<longleftrightarrow> elapsed now r"
  proof
    assume "tn_id r' \<in> tn_id ` set (filter (elapsed now) (db_tunnels d))"
    then obtain x where "x \<in> set (filter (elapsed now) (db_tunnels d))" "tn_id x = tn_id r"
      unfolding r(2) by fastforce
    then have x: "x \<in> set (db_tunnels d)" "tn_id x = tn_id r" "elapsed now x" by simp_all
    have "x = r"
      using find_tunnel_in [OF assms(1) x(1)] find_tunnel_in [OF assms(1) r(1)] unfolding x(2) by simp
    with x(3) show "elapsed now r" by simp
  next
    assume "elapsed now r"
    with r(1) show "tn_id r' \<in> tn_id ` set (filter (elapsed now) (db_tunnels d))"
      unfolding r(2) by simp
  qed
  show "logged (tn_id r') (db_events (reap_effect now d)) = Some (tn_status r')"
  proof (cases "elapsed now r")
    case True
    then show ?thesis unfolding reap_effect_def logged_expire_events using iff r(3) by simp
  next
    case False
    then have "logged (tn_id r) (db_events d) = Some (tn_status r)"
      using r(1) assms(2) unfolding audit_ok_def by blast
    with False iff r(4) show ?thesis unfolding reap_effect_def logged_expire_events by simp
  qed
qed

interpretation reaper_op: audited_op "reapExpired e" for e
proof
  fix s :: srv
  assume ok: "schema_ok (sv_db s)"
  note cases = reapExpired_db [of e s]
  show "schema_ok (sv_db (reapExpired e s))"
    using ok cases by (auto simp: reap_effect_def schema_set_status)
  show "evolves (sv_db s) (sv_db (reapExpired e s))"
    using cases evolves_reap by (elim disjE) simp_all
  show "revoked_dead (sv_db s) \<Longrightarrow> revoked_dead (sv_db (reapExpired e s))"
    using cases dead_set_status [of "sv_db s" Expired] by (elim disjE) (simp_all add: reap_effect_def revoked_dead_def)
  show "audit_ok (sv_db s) \<Longrightarrow> audit_ok (sv_db (reapExpired e s))"
    using cases ok audit_reap by (elim disjE) simp_all
qed

lemma tunnel_op_id: "tunnel_op (\<lambda>s. s)"
  by unfold_locales simp_all

lemma tunnel_op_comp:
  assumes f: "tunnel_op f" and g: "tunnel_op g"
  shows "tunnel_op (\<lambda>s. g (f s))"
proof
  fix s :: srv
  assume ok: "schema_ok (sv_db s)"
  note ok' = tunnel_op.run_schema [OF f ok]
  show "schema_ok (sv_db (g (f s)))" by (rule tunnel_op.run_schema [OF g ok'])
  show "evolves (sv_db s) (sv_db (g (f s)))"
    by (rule rows_evolve_trans [OF tunnel_op.run_evolves [OF f ok] tunnel_op.run_evolves [OF g ok']])
  show "revoked_dead (sv_db s) \<Longrightarrow> revoked_dead (sv_db (g (f s)))"
    by (rule tunnel_op.run_dead [OF g ok' tunnel_op.run_dead [OF f ok]])
qed

lemma tunnel_op_on_db:
  assumes "\<And>d. schema_ok d \<Longrightarrow> schema_ok (f d)" "\<And>d. db_tunnels (f d) = db_tunnels d"
    and "\<And>d. revoked_dead d \<Longrightarrow> revoked_dead (f d)"
  shows "tunnel_op (on_db f)"
  using assms by unfold_locales simp_all

lemma tunnel_op_choice:
  assumes "\<And>s. run s = s \<or> (\<exists>f. tunnel_op f \<and> run s = f s)"
  shows "tunnel_op run"
proof
  fix s :: srv
  assume ok: "schema_ok (sv_db s)"
  from assms [of s] obtain f where f: "tunnel_op f" "run s = f s" using tunnel_op_id by blast
  show "schema_ok (sv_db (run s))" using tunnel_op.run_schema [OF f(1) ok] f(2) by simp
  show "evolves (sv_db s) (sv_db (run s))" using tunnel_op.run_evolves [OF f(1) ok] f(2) by simp
  show "revoked_dead (sv_db s) \<Longrightarrow> revoked_dead (sv_db (run s))"
    using tunnel_op.run_dead [OF f(1) ok] f(2) by simp
qed

lemma tunnel_op_if:
  "tunnel_op (\<lambda>s. fst (f s)) \<Longrightarrow> tunnel_op (\<lambda>s. fst (g s)) \<Longrightarrow> tunnel_op (\<lambda>s. fst (if b then f s else g s))"
  by (cases b) simp_all

lemma tunnel_op_metrics: "tunnel_op (\<lambda>s. s\<lparr>sv_metrics := f s\<rparr>)"
  by unfold_locales simp_all

lemma tunnel_op_StartReaper: "tunnel_op (StartReaper sigs)"
proof (induction sigs)
  case (Cons sig sigs)
  show ?case
  proof (cases sig)
    case (Tick e)
    have "tunnel_op (\<lambda>s. StartReaper sigs (reapExpired e s))"
      by (rule tunnel_op_comp [OF reaper_op.tunnel_op_axioms Cons.IH])
    then show ?thesis by (simp add: Tick)
  qed (simp add: tunnel_op_id)
qed (simp add: tunnel_op_id)

interpretation reaper_loop: tunnel_op "StartReaper sigs" for sigs
  by (rule tunnel_op_StartReaper)

text \<open>A sweeper deletes rows of tables other than \<open>tunnels\<close>: a database with some rows less.\<close>

definition swept :: "db \<Rightarrow> db \<Rightarrow> bool" where
  "swept d d' \<longleftrightarrow>
     (\<exists>P Q R. d' = d\<lparr>db_events := filter P (db_events d), db_idem := filter Q (db_idem d),
                      db_rt_tokens := filter R (db_rt_tokens d)\<rparr>)"

lemma sweepers_filter:
  "sweepExpiredEvents e ed d = d\<lparr>db_events :=
     filter (\<lambda>r. e_out e SwEvents = Fail \<or> \<not> ev_created r < e_time e SwEvents - ed * usec_per_day) (db_events d)\<rparr>"
  "sweepIdempotencyKeys e ih d = d\<lparr>db_idem :=
     filter (\<lambda>r. e_out e SwIdem = Fail \<or> \<not> ik_created r < e_time e SwIdem - ih * usec_per_hour) (db_idem d)\<rparr>"
  "sweepRuntimeTokens e td d = d\<lparr>db_rt_tokens :=
     filter (\<lambda>r. e_out e SwTokens = Fail \<or> \<not> dead_token (e_time e SwTokens - td * usec_per_day) r) (db_rt_tokens d)\<rparr>"
  unfolding sweepExpiredEvents_def sweepIdempotencyKeys_def sweepRuntimeTokens_def pool_exec_def
  by (simp_all split: outcome.split)

lemma swept_tick: "swept d (sweep_tick e ed ih td d)"
  unfolding swept_def sweep_tick_def sweepers_filter by (intro exI) (rule db.equality; simp)

lemma schema_swept:
  assumes "swept d d'" "schema_ok d"
  shows "schema_ok d'"
proof -
  obtain P Q R where d': "d' = d\<lparr>db_events := filter P (db_events d), db_idem := filter Q (db_idem d),
                      db_rt_tokens := filter R (db_rt_tokens d)\<rparr>"
    using assms(1) by (auto simp: swept_def)
  show ?thesis
    using assms(2) unfolding d' schema_ok_def by (auto simp: distinct_map_filter)
qed

lemma swept_tunnels: "swept d d' \<Longrightarrow> db_tunnels d' = db_tunnels d"
  by (auto simp: swept_def)

lemma swept_tokens: "swept d d' \<Longrightarrow> set (db_rt_tokens d') \<subseteq> set (db_rt_tokens d)"
  by (auto simp: swept_def)

interpretation sweep_op: tunnel_op "on_db (sweep_tick e ed ih td)" for e ed ih td
proof
  fix s :: srv
  assume ok: "schema_ok (sv_db s)"
  note sw = swept_tick [of "sv_db s" e ed ih td]
  show "schema_ok (sv_db (on_db (sweep_tick e ed ih td) s))" using schema_swept [OF sw ok] by simp
  show "evolves (sv_db s) (sv_db (on_db (sweep_tick e ed ih td) s))" using swept_tunnels [OF sw] by simp
  show "revoked_dead (sv_db s) \<Longrightarrow> revoked_dead (sv_db (on_db (sweep_tick e ed ih td) s))"
    using swept_tunnels [OF sw] swept_tokens [OF sw] by (auto simp: revoked_dead_def)
qed

lemma tunnel_op_runSweeper: "tunnel_op (on_db (runSweeper ed ih td sigs))"
proof (induction sigs)
  case (Cons sig sigs)
  show ?case
  proof (cases sig)
    case (Tick e)
    have "tunnel_op (\<lambda>s. on_db (runSweeper ed ih td sigs) (on_db (sweep_tick e ed ih td) s))"
      by (rule tunnel_op_comp [OF sweep_op.tunnel_op_axioms Cons.IH])
    then show ?thesis by (simp add: Tick)
  qed (simp add: tunnel_op_id)
qed (simp add: tunnel_op_id)

interpretation sweep_loop: tunnel_op "on_db (runSweeper ed ih td sigs)" for ed ih td sigs
  by (rule tunnel_op_runSweeper)

subsection \<open>None of them creates a tunnel\<close>

lemma set_status_length [simp]: "length (db_tunnels (set_status_where P st d)) = length (db_tunnels d)"
  by (simp add: set_status_where_def)

lemma revoke_length: "length (db_tunnels (sv_db (fst (Revoke e tid owner s)))) = length (db_tunnels (sv_db s))"
  using Revoke_db [of e tid owner s] by (auto simp: revoke_effect_def)

lemma sql_set_status_length: "sql_set_status new tid cur d = (d', n) \<Longrightarrow> length (db_tunnels d') = length (db_tunnels d)"
  by (auto simp: sql_set_status_def Let_def)

lemma transition_body_length:
  "transition_body e tid ev cur d = Inr d' \<Longrightarrow> length (db_tunnels d') = length (db_tunnels d)"
  by (auto simp: transition_body_def sql_set_status_length split: option.splits if_splits prod.splits)

lemma transition_length:
  "length (db_tunnels (sv_db (fst (Transition e tid ev s)))) = length (db_tunnels (sv_db s))"
proof (cases "ev = EventRevoke")
  case True
  then show ?thesis by (simp add: Transition_revoke_db revoke_length)
next
  case False
  then show ?thesis
    by (cases "e_out e TrCommit")
       (auto simp: Transition_def commit_simps transition_body_length split: option.splits sum.splits)
qed

interpretation revoke_count: no_create "\<lambda>s. fst (Revoke e tid owner s)" for e tid owner
  by unfold_locales (rule revoke_length)

interpretation transition_count: no_create "\<lambda>s. fst (Transition e tid ev s)" for e tid ev
  by unfold_locales (rule transition_length)

interpretation reaper_count: no_create "reapExpired e" for e
proof unfold_locales
  show "length (db_tunnels (sv_db (reapExpired e s))) = length (db_tunnels (sv_db s))" for s
    using reapExpired_db [of e s] by (auto simp: reap_effect_def)
qed

interpretation sweep_count: no_create "on_db (sweep_tick e ed ih td)" for e ed ih td
  by unfold_locales (simp add: swept_tunnels [OF swept_tick])

subsection \<open>Properties\<close>

lemma Revoke_ok:
  assumes "Revoke e tid owner s = (s', Inr True)"
  obtains r where "revoke_lookup tid owner (sv_db s) = Some r"
    "sv_db s' = revoke_effect (e_time e RvBegin) tid (non_terminal (tn_status r)) (sv_db s)"
    "mt_transitions (sv_metrics s') =
       mt_transitions (sv_metrics s) + (if non_terminal (tn_status r) then 1 else 0)"
proof -
  obtain r where r: "revoke_lookup tid owner (sv_db s) = Some r"
    using assms by (auto simp: Revoke_def split: if_splits option.splits)
  obtain p where p: "revoke_body e tid (tn_status r) (sv_db s) = Inr p"
    using assms r by (auto simp: Revoke_def split: if_splits sum.splits)
  obtain d' moved where dm: "p = (d', moved)" by (cases p)
  note body = revoke_body_InrD [OF p [unfolded dm]]
  show thesis
    by (rule that [OF r]; insert assms r p dm body; cases "e_out e RvCommit")
       (auto simp: Revoke_def commit_simps IncrTransition_def split: if_splits)
qed

text \<open>
  C1: A successful revocation is complete: the tunnel is terminal (revoked, unless it had already
  ended), every credential ever issued for it carries a revocation time, one Revoke event ends the audit
  trail and one transition is counted when the status changed and none otherwise, other tunnels and
  their credentials are untouched, and the row revoked belongs to the requested owner.
\<close>

theorem revoke_complete:
  assumes "schema_ok (sv_db s)" and "Revoke e tid owner s = (s', Inr True)"
  shows "\<exists>r. find_tunnel tid (sv_db s) = Some r \<and> (owner = '''' \<or> tn_user r = owner) \<and>
     find_tunnel tid (sv_db s') =
       Some (r\<lparr>tn_status := (if non_terminal (tn_status r) then Revoked else tn_status r)\<rparr>) \<and>
     (\<forall>t \<in> set (db_rt_tokens (sv_db s')). rt_tunnel t = tid \<longrightarrow> rt_revoked t \<noteq> None) \<and>
     filter (\<lambda>t. rt_tunnel t \<noteq> tid) (db_rt_tokens (sv_db s')) =
       filter (\<lambda>t. rt_tunnel t \<noteq> tid) (db_rt_tokens (sv_db s)) \<and>
     (\<forall>o'. o' \<noteq> tid \<longrightarrow> find_tunnel o' (sv_db s') = find_tunnel o' (sv_db s)) \<and>
     db_events (sv_db s') = db_events (sv_db s) @ (if non_terminal (tn_status r)
       then [\<lparr>ev_tunnel = tid, ev_type = ''Revoke'', ev_payload = NewStatus Revoked, ev_created = e_time e RvBegin\<rparr>] else []) \<and>
     mt_transitions (sv_metrics s') = mt_transitions (sv_metrics s) + (if non_terminal (tn_status r) then 1 else 0)"
proof -
  from assms(2) obtain r where r: "revoke_lookup tid owner (sv_db s) = Some r"
    and d': "sv_db s' = revoke_effect (e_time e RvBegin) tid (non_terminal (tn_status r)) (sv_db s)"
    and counted: "mt_transitions (sv_metrics s') =
       mt_transitions (sv_metrics s) + (if non_terminal (tn_status r) then 1 else 0)"
    by (rule Revoke_ok)
  have events: "db_events (sv_db s') = db_events (sv_db s) @ (if non_terminal (tn_status r)
       then [\<lparr>ev_tunnel = tid, ev_type = ''Revoke'', ev_payload = NewStatus Revoked, ev_created = e_time e RvBegin\<rparr>] else [])"
    by (simp add: d' revoke_effect_def revokeRuntimeTokens_def insertEvent_def)
  have f: "filter (\<lambda>t. rt_tunnel t \<noteq> tid) (update_where (\<lambda>r. rt_tunnel r = tid \<and> rt_revoked r = None)
      (\<lambda>r. r\<lparr>rt_revoked := Some now\<rparr>) ts) = filter (\<lambda>t. rt_tunnel t \<noteq> tid) ts" for now ts
    by (induction ts) auto
  have other: "o' \<noteq> tid \<Longrightarrow> find_tunnel o' (sv_db s') = find_tunnel o' (sv_db s)" for o'
    by (simp add: d' revoke_effect_def)
  have dead: "\<forall>t \<in> set (db_rt_tokens (sv_db s')). rt_tunnel t = tid \<longrightarrow> rt_revoked t \<noteq> None"
    unfolding d' revoke_effect_def using tokens_dead_after_revoke by blast
  have rest: "filter (\<lambda>t. rt_tunnel t \<noteq> tid) (db_rt_tokens (sv_db s')) =
       filter (\<lambda>t. rt_tunnel t \<noteq> tid) (db_rt_tokens (sv_db s))"
    unfolding d' revoke_effect_def revokeRuntimeTokens_def by (simp add: f)
  note lk = revoke_lookup_SomeD [OF r]
  then have "find_tunnel tid (sv_db s') =
       Some (r\<lparr>tn_status := (if non_terminal (tn_status r) then Revoked else tn_status r)\<rparr>)"
    using find_tunnel_SomeD [of tid "sv_db s" r] by (simp add: d' revoke_effect_def find_set_status)
  with lk dead rest other events counted show ?thesis by blast
qed

theorem revoke_complete_witness:
  "\<exists>s'. Revoke (calm 5) ''t1'' ''u1'' (fresh_srv (sample_db Active 9)) = (s', Inr True) \<and>
     (\<forall>t \<in> set (db_rt_tokens (sv_db s')). rt_tunnel t = ''t1'' \<longrightarrow> rt_revoked t \<noteq> None)"
proof -
  have "snd (Revoke (calm 5) ''t1'' ''u1'' (fresh_srv (sample_db Active 9))) = Inr True"
    by code_simp
  then obtain s' where s': "Revoke (calm 5) ''t1'' ''u1'' (fresh_srv (sample_db Active 9)) = (s', Inr True)"
    by (metis prod.collapse)
  show ?thesis using revoke_complete [OF _ s'] s' by auto
qed

lemma other_transition:
  assumes "schema_ok (sv_db s)" and "ev \<noteq> EventRevoke" and "Transition e tid ev s = (s', Inr ())"
  shows "\<exists>r. find_tunnel tid (sv_db s) = Some r \<and>
     (ev = EventNewProxy \<longrightarrow> (\<exists>x. tn_expires r = Some x \<and> e_time e TrTTL < x)) \<and>
     ((ev = EventNewProxy \<and> tn_status r = Active \<and> s' = s) \<or>
      (\<exists>new. status_step (tn_status r) ev new \<and>
         find_tunnel tid (sv_db s') = Some (r\<lparr>tn_status := new\<rparr>) \<and>
         (\<forall>o'. o' \<noteq> tid \<longrightarrow> find_tunnel o' (sv_db s') = find_tunnel o' (sv_db s)) \<and>
         db_rt_tokens (sv_db s') = db_rt_tokens (sv_db s) \<and>
         db_events (sv_db s') = db_events (sv_db s) @
           [\<lparr>ev_tunnel = tid, ev_type = event_text ev, ev_payload = NewStatus new,
             ev_created = e_time e TrBegin\<rparr>] \<and>
         mt_transitions (sv_metrics s') = mt_transitions (sv_metrics s) + 1))"
proof -
  obtain r where r: "find_tunnel tid (sv_db s) = Some r"
    using assms(2,3) by (auto simp: Transition_def split: if_splits option.splits)
  have ttl: "ev = EventNewProxy \<longrightarrow> (\<exists>x. tn_expires r = Some x \<and> e_time e TrTTL < x)"
    using assms(2,3) r by (auto simp: Transition_def within_ttl_def null_gt_iff split: if_splits)
  show ?thesis
  proof (cases "ev = EventNewProxy \<and> tn_status r = Active")
    case True
    with assms(3) r have "s' = s"
      by (cases "e_out e TrCommit") (auto simp: Transition_def commit_simps split: if_splits)
    with True r ttl show ?thesis by blast
  next
    case False
    obtain d' where d': "transition_body e tid ev (tn_status r) (sv_db s) = Inr d'"
      using assms(2,3) r False by (auto simp: Transition_def split: if_splits sum.splits)
    obtain new where new: "status_step (tn_status r) ev new"
      and eff: "d' = transition_effect (e_time e TrBegin) tid ev new (sv_db s)"
      using transition_body_InrD [OF assms(1) r d'] by blast
    have s': "s' = count_transition (s\<lparr>sv_db := d'\<rparr>)"
      using assms(2,3) r False d'
      by (cases "e_out e TrCommit") (auto simp: Transition_def commit_simps split: if_splits)
    have other: "o' \<noteq> tid \<Longrightarrow> find_tunnel o' (sv_db s') = find_tunnel o' (sv_db s)" for o'
      by (simp add: s' eff transition_effect_def)
    have "find_tunnel tid (sv_db s') = Some (r\<lparr>tn_status := new\<rparr>)"
      using r find_tunnel_SomeD [OF r] by (simp add: s' eff transition_effect_def find_set_status)
    moreover have "db_events (sv_db s') = db_events (sv_db s) @
           [\<lparr>ev_tunnel = tid, ev_type = event_text ev, ev_payload = NewStatus new,
             ev_created = e_time e TrBegin\<rparr>]"
      by (simp add: s' eff transition_effect_def insertEvent_def)
    ultimately show ?thesis
      using r ttl new other by (auto simp: s' eff transition_effect_def IncrTransition_def)
  qed
qed

text \<open>A revocation by the event \<open>Revoke\<close>.\<close>

lemma revoke_transition:
  assumes "Transition e tid EventRevoke s = (s', Inr ())"
  obtains (ended) r where "find_tunnel tid (sv_db s) = Some r" "\<not> non_terminal (tn_status r)" "sv_metrics s' = sv_metrics s"
      "\<And>o'. find_tunnel o' (sv_db s') = find_tunnel o' (sv_db s)" "db_events (sv_db s') = db_events (sv_db s)"
  | (revoked) r where "find_tunnel tid (sv_db s) = Some r" "status_step (tn_status r) EventRevoke Revoked"
      "find_tunnel tid (sv_db s') = Some (r\<lparr>tn_status := Revoked\<rparr>)"
      "\<And>o'. o' \<noteq> tid \<Longrightarrow> find_tunnel o' (sv_db s') = find_tunnel o' (sv_db s)"
      "db_events (sv_db s') = db_events (sv_db s) @
         [\<lparr>ev_tunnel = tid, ev_type = event_text EventRevoke, ev_payload = NewStatus Revoked, ev_created = e_time e RvBegin\<rparr>]"
      "mt_transitions (sv_metrics s') = mt_transitions (sv_metrics s) + 1"
proof -
  have rv: "Revoke e tid '''' s = (s', Inr True)"
    using assms by (auto simp: Transition_def split: prod.splits sum.splits if_splits)
  then obtain r where r: "revoke_lookup tid '''' (sv_db s) = Some r"
    and d': "sv_db s' = revoke_effect (e_time e RvBegin) tid (non_terminal (tn_status r)) (sv_db s)"
    and m: "mt_transitions (sv_metrics s') = mt_transitions (sv_metrics s) + (if non_terminal (tn_status r) then 1 else 0)"
    by (rule Revoke_ok)
  have found: "find_tunnel tid (sv_db s) = Some r" using revoke_lookup_SomeD [OF r] by blast
  show thesis
  proof (cases "non_terminal (tn_status r)")
    case True
    have "find_tunnel tid (sv_db s') = Some (r\<lparr>tn_status := Revoked\<rparr>)"
      using found find_tunnel_SomeD [OF found] by (simp add: d' revoke_effect_def find_set_status True)
    moreover have "o' \<noteq> tid \<Longrightarrow> find_tunnel o' (sv_db s') = find_tunnel o' (sv_db s)" for o'
      by (simp add: d' revoke_effect_def True)
    moreover have "db_events (sv_db s') = db_events (sv_db s) @
        [\<lparr>ev_tunnel = tid, ev_type = event_text EventRevoke, ev_payload = NewStatus Revoked, ev_created = e_time e RvBegin\<rparr>]"
      by (simp add: d' revoke_effect_def revokeRuntimeTokens_def insertEvent_def True)
    ultimately show thesis using found m True by (intro revoked [of r]) (simp_all add: status_step_simps)
  next
    case False
    have "cur = Expired \<or> cur = Revoked" if "\<not> non_terminal cur" for cur using that by (cases cur) simp_all
    with False have "tn_status r = Expired \<or> tn_status r = Revoked" by blast
    then have "sv_metrics s' = sv_metrics s"
      using rv r by (cases "e_out e RvCommit")
        (auto simp: Revoke_def revoke_body_def Let_def commit_simps split: if_splits sum.splits)
    with found False show thesis by (intro ended [of r]) (simp_all add: d' revoke_effect_def)
  qed
qed

text \<open>
  C3: A successful transition is one step of the state machine, recorded by one event at the end of the audit
  trail and counted once, and leaves the other tunnels alone; only a revocation touches credentials.  Two transitions are
  no step: the repeated activation of an active tunnel changes nothing, and the revocation of a tunnel that has ended
  changes no tunnel and records nothing.  An activation always finds the tunnel within its
  lifetime at the time read under the row lock.
\<close>

theorem transition_is_one_step:
  assumes "schema_ok (sv_db s)" and "Transition e tid ev s = (s', Inr ())"
  shows "\<exists>r. find_tunnel tid (sv_db s) = Some r \<and>
     (ev = EventNewProxy \<longrightarrow> (\<exists>x. tn_expires r = Some x \<and> e_time e TrTTL < x)) \<and>
     ((ev = EventNewProxy \<and> tn_status r = Active \<and> s' = s) \<or>
      (ev = EventRevoke \<and> \<not> non_terminal (tn_status r) \<and> sv_metrics s' = sv_metrics s \<and>
         (\<forall>o'. find_tunnel o' (sv_db s') = find_tunnel o' (sv_db s)) \<and> db_events (sv_db s') = db_events (sv_db s)) \<or>
      (\<exists>new. status_step (tn_status r) ev new \<and>
         find_tunnel tid (sv_db s') = Some (r\<lparr>tn_status := new\<rparr>) \<and>
         (\<forall>o'. o' \<noteq> tid \<longrightarrow> find_tunnel o' (sv_db s') = find_tunnel o' (sv_db s)) \<and>
         (ev \<noteq> EventRevoke \<longrightarrow> db_rt_tokens (sv_db s') = db_rt_tokens (sv_db s)) \<and>
         db_events (sv_db s') = db_events (sv_db s) @
           [\<lparr>ev_tunnel = tid, ev_type = event_text ev, ev_payload = NewStatus new,
             ev_created = e_time e (if ev = EventRevoke then RvBegin else TrBegin)\<rparr>] \<and>
         mt_transitions (sv_metrics s') = mt_transitions (sv_metrics s) + 1))"
proof (cases "ev = EventRevoke")
  case True
  from assms(2) [unfolded True] show ?thesis
  proof (cases rule: revoke_transition)
    case (ended r)
    then show ?thesis by (intro exI [of _ r]) (simp add: True)
  next
    case (revoked r)
    then show ?thesis by (intro exI [of _ r] conjI disjI2 exI [of _ Revoked]) (simp_all add: True)
  qed
next
  case False
  from other_transition [OF assms(1) False assms(2)] False show ?thesis by simp
qed

theorem transition_is_one_step_witness:
  "\<exists>s'. Transition (calm 5) ''t1'' EventNewProxy (fresh_srv (sample_db Closed 9)) = (s', Inr ()) \<and>
     map_option tn_status (find_tunnel ''t1'' (sv_db s')) = Some Active"
proof -
  have "snd (Transition (calm 5) ''t1'' EventNewProxy (fresh_srv (sample_db Closed 9))) = Inr ()"
    by code_simp
  then obtain s' where s': "Transition (calm 5) ''t1'' EventNewProxy (fresh_srv (sample_db Closed 9)) = (s', Inr ())"
    by (metis prod.collapse)
  show ?thesis
  proof -
    have c: "tn_status (hd (db_tunnels (sample_db Closed 9))) = Closed" by (simp add: sample_db_def)
    from transition_is_one_step [OF _ s'] obtain r where r: "find_tunnel ''t1'' (sample_db Closed 9) = Some r"
      and new: "(tn_status r = Active \<and> s' = fresh_srv (sample_db Closed 9)) \<or>
        (\<exists>new. status_step (tn_status r) EventNewProxy new \<and>
           find_tunnel ''t1'' (sv_db s') = Some (r\<lparr>tn_status := new\<rparr>))"
      by auto
    from r c have "tn_status r = Closed" by (simp add: find_tunnel_sample)
    with new s' show ?thesis by (auto simp: status_step_simps)
  qed
qed

text \<open>
  C4: A transition or revocation that reports an error has changed nothing at all, unless the
  error is that of its commit, whose effect is then all or nothing.
\<close>

theorem transition_error_is_atomic:
  assumes "Transition e tid ev s = (s', Inl err)"
  shows "(err \<noteq> TrCommitFailed \<and> err \<noteq> TrRevoke RvCommitFailed \<longrightarrow> s' = s) \<and>
         (e_out e TrCommit \<noteq> InDoubt \<and> e_out e RvCommit \<noteq> InDoubt \<longrightarrow> s' = s)"
proof (cases "ev = EventRevoke")
  case True
  have rv: "Revoke e tid '''' s = (t, Inl rerr) \<Longrightarrow>
      (rerr \<noteq> RvCommitFailed \<longrightarrow> t = s) \<and> (e_out e RvCommit \<noteq> InDoubt \<longrightarrow> t = s)" for t rerr
    by (cases "e_out e RvCommit")
       (auto simp: Revoke_def commit_simps split: if_splits option.splits sum.splits)
  have absent: "Revoke e tid '''' s = (t, Inr False) \<Longrightarrow> t = s" for t
    by (cases "e_out e RvCommit")
       (auto simp: Revoke_def commit_simps split: if_splits option.splits sum.splits)
  show ?thesis
    using assms True rv absent by (auto simp: Transition_def split: prod.splits sum.splits if_splits)
next
  case False
  with assms show ?thesis
    by (cases "e_out e TrCommit")
       (auto simp: Transition_def commit_simps split: if_splits option.splits sum.splits)
qed

theorem transition_error_is_atomic_witness:
  "Transition (calm 5) ''t1'' EventCloseProxy (fresh_srv (sample_db Reserved 9)) =
     (fresh_srv (sample_db Reserved 9), Inl (TrInvalid Reserved EventCloseProxy))"
proof -
  have "snd (Transition (calm 5) ''t1'' EventCloseProxy (fresh_srv (sample_db Reserved 9))) =
      Inl (TrInvalid Reserved EventCloseProxy)"
    by code_simp
  then obtain s' where s': "Transition (calm 5) ''t1'' EventCloseProxy (fresh_srv (sample_db Reserved 9)) =
      (s', Inl (TrInvalid Reserved EventCloseProxy))"
    by (metis prod.collapse)
  show ?thesis using transition_error_is_atomic [OF s'] s' by simp
qed

text \<open>
  C12: A pass of the reaper in which every call succeeds expires exactly the tunnels whose lifetime
  has elapsed and that have not ended, appends one Expire event for each of them, counts each as
  one transition and touches no credential; a pass that is interrupted before its commit leaves
  the server as it was.
\<close>

theorem reaper_exact:
  fixes s :: srv and e :: env
  assumes gone: "gone = filter (elapsed (e_time e RpBegin)) (db_tunnels (sv_db s))"
    and s': "s' = reapExpired e s"
  shows "((\<forall>c. ok e c) \<longrightarrow>
      (\<forall>tid. find_tunnel tid (sv_db s') = map_option
          (\<lambda>r. if null_lt (tn_expires r) (e_time e RpBegin) \<and> non_terminal (tn_status r)
               then r\<lparr>tn_status := Expired\<rparr> else r) (find_tunnel tid (sv_db s))) \<and>
      db_events (sv_db s') = db_events (sv_db s) @ map (\<lambda>r. \<lparr>ev_tunnel = tn_id r, ev_type = ''Expire'',
          ev_payload = NewStatus Expired, ev_created = e_time e RpBegin\<rparr>) gone \<and>
      db_rt_tokens (sv_db s') = db_rt_tokens (sv_db s) \<and>
      mt_transitions (sv_metrics s') = mt_transitions (sv_metrics s) + length gone) \<and>
    (e_out e RpCommit = Fail \<or> (\<exists>c \<in> {RpBegin, RpUpdate, RpIter}. \<not> ok e c) \<longrightarrow> s' = s)"
proof -
  have counters: "sv_db ((count_transition ^^ n) t) = sv_db t"
    "mt_transitions (sv_metrics ((count_transition ^^ n) t)) = mt_transitions (sv_metrics t) + n"
    for n and t :: srv
    by (induction n) (simp_all add: IncrTransition_def)
  have all: "s' = (count_transition ^^ length gone) (s\<lparr>sv_db := reap_effect (e_time e RpBegin) (sv_db s)\<rparr>)"
    if "\<forall>c. ok e c"
    using that by (simp add: s' gone reapExpired_def sql_expire_elapsed_eq reap_events_eq
        commit_simps reap_effect_def)
  have find: "find_tunnel tid (reap_effect now d) = map_option
      (\<lambda>r. if elapsed now r then r\<lparr>tn_status := Expired\<rparr> else r) (find_tunnel tid d)" for tid now d
    using find_set_status [of tid "elapsed now" Expired d] by (simp add: reap_effect_def find_tunnel_def)
  have none: "s' = s" if "e_out e RpCommit = Fail \<or> (\<exists>c \<in> {RpBegin, RpUpdate, RpIter}. \<not> ok e c)"
    using that by (auto simp: s' reapExpired_def commit_simps split: option.splits prod.splits)
  show ?thesis
    using none by (simp add: all counters find) (simp add: elapsed_def reap_effect_def expire_events_def gone comp_def)
qed

theorem reaper_exact_witness:
  "map_option tn_status (find_tunnel ''t1'' (sv_db (reapExpired (calm 10) (fresh_srv (sample_db Active 9))))) =
     Some Expired"
  using reaper_exact [OF refl refl, of "calm 10" "fresh_srv (sample_db Active 9)"]
  by (simp add: find_tunnel_sample) (simp add: sample_db_def)

text \<open>
  C13: The hourly sweep deletes a runtime credential only when it has been unusable, revoked or
  past its expiry, for longer than the retention time; in particular no live credential is ever
  swept, and tunnels, users and API keys are not touched.
\<close>

theorem sweep_keeps_live_tokens:
  fixes d :: db
  assumes "0 \<le> td" and "t \<in> set (db_rt_tokens d)" and "t \<notin> set (db_rt_tokens (sweep_tick e ed ih td d))"
  shows "(\<exists>x. (rt_revoked t = Some x \<or> (rt_revoked t = None \<and> rt_expires t = x)) \<and>
              x < e_time e SwTokens - td * usec_per_day) \<and>
         (rt_revoked t \<noteq> None \<or> rt_expires t < e_time e SwTokens) \<and>
         db_tunnels (sweep_tick e ed ih td d) = db_tunnels d \<and>
         db_users (sweep_tick e ed ih td d) = db_users d \<and>
         db_api_tokens (sweep_tick e ed ih td d) = db_api_tokens d"
proof -
  have "dead_token (e_time e SwTokens - td * usec_per_day) t"
    using assms(2,3) by (auto simp: sweep_tick_def sweepers_filter)
  with assms(1) show ?thesis
    by (auto simp: dead_token_def null_lt_iff sweep_tick_def sweepers_filter)
qed

theorem sweep_keeps_live_tokens_witness:
  "rt_expires (hd (db_rt_tokens (sample_db Closed 9))) < 10 * usec_per_day"
proof -
  have "hd (db_rt_tokens (sample_db Closed 9)) \<notin>
      set (db_rt_tokens (sweep_tick (calm (10 * usec_per_day)) 1 1 1 (sample_db Closed 9)))"
    by code_simp
  then show ?thesis
    using sweep_keeps_live_tokens [of 1 "hd (db_rt_tokens (sample_db Closed 9))" "sample_db Closed 9"
        "calm (10 * usec_per_day)" 1 1] by (simp add: sample_db_def)
qed

end
