(* ===== verification/Auth.thy ===== *)
theory Auth
  imports Tokens Lifecycle
begin

text \<open>
  Bearer authentication (\<open>internal/server/api/auth.go\<close>, with \<open>TokenLookupFromDB\<close> of
  \<open>router.go\<close>), \<open>AdminOnly\<close>, and the scan over lookup candidates, which the plugin repeats for
  runtime tokens.  A handler takes the request context, the request and the server's state and
  returns the new state and its writes; the database calls it makes are answered by the
  environment its construction is given.  The record of the principal that
  \<open>RequestLogMiddleware\<close> reads back for its log line is not modelled.
\<close>

type_synonym handler = "ctx \<Rightarrow> request \<Rightarrow> srv \<Rightarrow> srv \<times> wop list"

subsection \<open>The candidate scan\<close>

text \<open>One pass over the candidates; the first error ends it.\<close>

fun scan_pass :: "('c \<Rightarrow> string) \<Rightarrow> (string \<Rightarrow> verify_err + bool) \<Rightarrow> bool \<Rightarrow> 'c list \<Rightarrow> verify_err + 'c option" where
  "scan_pass hash verify currentPass [] = Inr None"
| "scan_pass hash verify currentPass (c # cs) =
     (if UsesCurrentHash (hash c) \<noteq> currentPass then scan_pass hash verify currentPass cs
      else (case verify (hash c) of
              Inl e \<Rightarrow> Inl e
            | Inr matches \<Rightarrow> if matches then Inr (Some c) else scan_pass hash verify currentPass cs))"

definition scan_candidates ::
  "('c \<Rightarrow> string) \<Rightarrow> (string \<Rightarrow> verify_err + bool) \<Rightarrow> 'c list \<Rightarrow> verify_err + 'c option" where
  "scan_candidates hash verify cs =
     (case scan_pass hash verify True cs of
        Inl e \<Rightarrow> Inl e
      | Inr (Some c) \<Rightarrow> Inr (Some c)
      | Inr None \<Rightarrow> scan_pass hash verify False cs)"

subsection \<open>Authentication\<close>

record candidate =
  tc_token_id :: string
  tc_user_id :: string
  tc_hash :: string
  tc_is_admin :: bool

datatype lookup_error = NoRows | LookupFailed

datatype auth_error = MissingAuthHeader | InvalidAuthHeaderFormat | InvalidToken | TokenLookupFailed

fun auth_error_text :: "auth_error \<Rightarrow> string" where
  "auth_error_text MissingAuthHeader = ''missing Authorization header''"
| "auth_error_text InvalidAuthHeaderFormat = ''invalid Authorization header format''"
| "auth_error_text InvalidToken = ''invalid token''"
| "auth_error_text TokenLookupFailed = ''token lookup failed''"

type_synonym token_lookup = "string \<Rightarrow> srv \<Rightarrow> lookup_error + candidate list"

definition extractBearerToken :: "string \<Rightarrow> auth_error + string" where
  "extractBearerToken header =
     (if header = '''' then Inl MissingAuthHeader
      else (case split_first CHR '' '' header of
              None \<Rightarrow> Inl InvalidAuthHeaderFormat
            | Some (scheme, rest) \<Rightarrow>
                if \<not> equal_fold scheme ''bearer'' then Inl InvalidAuthHeaderFormat else Inr rest))"

definition lookupCandidates :: "token_lookup \<Rightarrow> string \<Rightarrow> srv \<Rightarrow> auth_error + candidate list" where
  "lookupCandidates lookup pre s =
     (case lookup pre s of
        Inl NoRows \<Rightarrow> Inl InvalidToken
      | Inl LookupFailed \<Rightarrow> Inl TokenLookupFailed
      | Inr candidates \<Rightarrow> if length candidates = 0 then Inl InvalidToken else Inr candidates)"

text \<open>\<open>slots h\<close> is what the race for a legacy slot gives when the stored text is \<open>h\<close>.\<close>

definition authenticateRequest ::
  "sha_fun \<Rightarrow> argon_fun \<Rightarrow> (string \<Rightarrow> slot_event) \<Rightarrow> token_lookup \<Rightarrow> ctx \<Rightarrow> request \<Rightarrow> srv \<Rightarrow> auth_error + ctx" where
  "authenticateRequest sha argon slots lookup cx r s =
     (case extractBearerToken (header_get ''Authorization'' r) of
        Inl e \<Rightarrow> Inl e
      | Inr raw \<Rightarrow>
          (if KindOf raw \<noteq> KindAPI then Inl InvalidToken
           else (case ParsePrefix raw of
                   None \<Rightarrow> Inl InvalidToken
                 | Some pre \<Rightarrow>
                     (case lookupCandidates lookup pre s of
                        Inl e \<Rightarrow> Inl e
                      | Inr candidates \<Rightarrow>
                          (case scan_candidates tc_hash (\<lambda>h. VerifyTokenContext sha argon (slots h) raw h) candidates of
                             Inl _ \<Rightarrow> Inl TokenLookupFailed
                           | Inr (Some c) \<Rightarrow>
                               Inr (ContextWithAdmin cx (tc_token_id c) (tc_user_id c) (tc_is_admin c))
                           | Inr None \<Rightarrow> Inl InvalidToken)))))"

definition AuthMiddleware ::
  "sha_fun \<Rightarrow> argon_fun \<Rightarrow> (string \<Rightarrow> slot_event) \<Rightarrow> token_lookup \<Rightarrow> handler \<Rightarrow> handler" where
  "AuthMiddleware sha argon slots lookup next cx r s =
     (case authenticateRequest sha argon slots lookup cx r s of
        Inl TokenLookupFailed \<Rightarrow> (s, WriteError 503 ErrInternal ''authentication service unavailable'')
      | Inl e \<Rightarrow> (s, WriteError 401 ErrUnauthenticated (auth_error_text e))
      | Inr cx' \<Rightarrow> next cx' r s)"

definition AdminOnly :: "handler \<Rightarrow> handler" where
  "AdminOnly next cx r s =
     (if \<not> IsAdminFromContext cx then (s, WriteError 403 ErrForbidden ''admin privileges required'')
      else next cx r s)"

subsection \<open>The lookup in the database\<close>

definition api_candidate :: "db \<Rightarrow> api_token_row \<Rightarrow> candidate option" where
  "api_candidate d t =
     map_option (\<lambda>u. \<lparr>tc_token_id = at_id t, tc_user_id = at_user t, tc_hash = at_hash t,
                      tc_is_admin = us_is_admin u\<rparr>)
       (find_by us_id (at_user t) (db_users d))"

text \<open>
  The query joins the live keys with the prefix and their users, current digests first, then
  the newest first.
\<close>

definition sql_api_candidates :: "string \<Rightarrow> db \<Rightarrow> candidate list" where
  "sql_api_candidates pre d =
     List.map_filter (api_candidate d)
       (sort_key (\<lambda>t. (\<not> prefix ''sha256:'' (at_hash t), - at_created t, at_id t))
         (filter (\<lambda>t. at_prefix t = pre \<and> at_revoked t = None) (db_api_tokens d)))"

definition TokenLookupFromDB :: "env \<Rightarrow> token_lookup" where
  "TokenLookupFromDB e pre s =
     (if \<not> ok e AuQuery then Inl LookupFailed
      else if sql_api_candidates pre (sv_db s) \<noteq> [] \<and> \<not> ok e AuScan then Inl LookupFailed
      else if \<not> ok e AuIter then Inl LookupFailed
      else Inr (sql_api_candidates pre (sv_db s)))"

subsection \<open>What the scan promises\<close>

text \<open>
  The contract between the scan and the verification it is given: a current digest is decided
  without an error.  Under it no legacy row, whatever it costs or however it fails, stands
  between a caller and a current credential that matches.
\<close>

locale candidate_scan =
  fixes hash :: "'c \<Rightarrow> string" and verify :: "string \<Rightarrow> verify_err + bool"
  assumes current_total: "UsesCurrentHash h \<Longrightarrow> \<exists>b. verify h = Inr b"
begin

lemma first_pass_finds:
  assumes "c \<in> set cs" "UsesCurrentHash (hash c)" "verify (hash c) = Inr True"
  shows "\<exists>c'. scan_pass hash verify True cs = Inr (Some c') \<and> c' \<in> set cs \<and>
              UsesCurrentHash (hash c') \<and> verify (hash c') = Inr True"
  using assms
proof (induction cs)
  case (Cons x xs)
  show ?case
  proof (cases "UsesCurrentHash (hash x)")
    case True
    obtain b where b: "verify (hash x) = Inr b" using current_total [OF True] by blast
    show ?thesis
    proof (cases b)
      case False
      with b Cons.prems(1,3) have "c \<in> set xs" by auto
      with Cons.IH Cons.prems(2,3) True b False show ?thesis by auto
    qed (use True b in auto)
  next
    case False
    with Cons.prems have "c \<in> set xs" by auto
    with Cons.IH Cons.prems(2,3) False show ?thesis by auto
  qed
qed simp

lemma pass_sound:
  "scan_pass hash verify p cs = Inr (Some c) \<Longrightarrow>
     c \<in> set cs \<and> verify (hash c) = Inr True \<and> UsesCurrentHash (hash c) = p"
  by (induction cs) (auto split: if_splits sum.splits)

lemma scan_sound:
  "scan_candidates hash verify cs = Inr (Some c) \<Longrightarrow> c \<in> set cs \<and> verify (hash c) = Inr True"
  using pass_sound by (fastforce simp: scan_candidates_def split: sum.splits option.splits)

lemma scan_finds_current:
  assumes "c \<in> set cs" "UsesCurrentHash (hash c)" "verify (hash c) = Inr True"
  shows "\<exists>c'. scan_candidates hash verify cs = Inr (Some c') \<and> c' \<in> set cs \<and>
              UsesCurrentHash (hash c') \<and> verify (hash c') = Inr True"
  using first_pass_finds [OF assms] by (auto simp: scan_candidates_def)

lemma pass_none: "scan_pass hash verify p cs = Inr None \<Longrightarrow>
     \<forall>c \<in> set cs. UsesCurrentHash (hash c) = p \<longrightarrow> verify (hash c) = Inr False"
  by (induction cs) (auto split: if_splits sum.splits)

lemma scan_none: "scan_candidates hash verify cs = Inr None \<Longrightarrow> \<forall>c \<in> set cs. verify (hash c) = Inr False"
  using pass_none [of True cs] pass_none [of False cs]
  by (auto simp: scan_candidates_def split: sum.splits option.splits)

end

interpretation api_scan: candidate_scan tc_hash "\<lambda>h. VerifyTokenContext sha argon (slots h) raw h"
  for sha argon slots raw
  by unfold_locales (simp add: VerifyTokenContext_current)

lemma sql_api_candidates_set:
  "c \<in> set (sql_api_candidates pre d) \<longleftrightarrow>
     (\<exists>t \<in> set (db_api_tokens d). at_prefix t = pre \<and> at_revoked t = None \<and> api_candidate d t = Some c)"
  by (force simp: sql_api_candidates_def List.map_filter_def)

lemma api_candidate_simps:
  "api_candidate d t = Some c \<Longrightarrow>
     \<exists>u \<in> set (db_users d). us_id u = at_user t \<and>
        c = \<lparr>tc_token_id = at_id t, tc_user_id = at_user t, tc_hash = at_hash t, tc_is_admin = us_is_admin u\<rparr>"
  by (auto simp: api_candidate_def dest: find_by_SomeD)

lemma api_candidate_exists:
  "schema_ok d \<Longrightarrow> t \<in> set (db_api_tokens d) \<Longrightarrow> \<exists>c. api_candidate d t = Some c"
proof -
  assume "schema_ok d" "t \<in> set (db_api_tokens d)"
  then have "at_user t \<in> us_id ` set (db_users d)" by (simp add: schema_ok_def)
  then have "find_by us_id (at_user t) (db_users d) \<noteq> None" by (simp add: find_by_None_iff)
  then show ?thesis by (auto simp: api_candidate_def)
qed

subsection \<open>Handlers as operations on tunnels\<close>

text \<open>
  The contract of a handler towards the middleware that wraps it: on every request it works on the
  database as a tunnel operation does.  Each middleware keeps it.
\<close>

locale tunnel_handler =
  fixes inner :: handler
  assumes handler_op: "tunnel_op (\<lambda>s. fst (inner cx r s))"
begin

lemma auth_op: "tunnel_op (\<lambda>s. fst (AuthMiddleware sha argon slots lookup inner cx r s))"
proof (rule tunnel_op_choice)
  fix s
  show "fst (AuthMiddleware sha argon slots lookup inner cx r s) = s \<or>
      (\<exists>f. tunnel_op f \<and> fst (AuthMiddleware sha argon slots lookup inner cx r s) = f s)"
    using handler_op by (auto simp: AuthMiddleware_def split: sum.split auth_error.split)
qed

lemma admin_op: "tunnel_op (\<lambda>s. fst (AdminOnly inner cx r s))"
  unfolding AdminOnly_def by (rule tunnel_op_if) (simp_all add: tunnel_op_id handler_op)

end

subsection \<open>Properties\<close>

lemma authenticate_InrD:
  assumes "authenticateRequest sha argon slots lookup cx r s = Inr cx'"
  obtains raw pre cs c where "extractBearerToken (header_get ''Authorization'' r) = Inr raw"
    "KindOf raw = KindAPI" "ParsePrefix raw = Some pre" "lookup pre s = Inr cs"
    "scan_candidates tc_hash (\<lambda>h. VerifyTokenContext sha argon (slots h) raw h) cs = Inr (Some c)"
    "cx' = ContextWithAdmin cx (tc_token_id c) (tc_user_id c) (tc_is_admin c)"
  using assms
  by (auto simp: authenticateRequest_def lookupCandidates_def
      split: sum.splits if_splits option.splits lookup_error.splits)

lemma authenticated_principal:
  assumes "authenticateRequest sha argon slots (TokenLookupFromDB e) cx r s = Inr cx'"
  shows "\<exists>raw t u slot. extractBearerToken (header_get ''Authorization'' r) = Inr raw \<and>
     KindOf raw = KindAPI \<and> t \<in> set (db_api_tokens (sv_db s)) \<and> at_revoked t = None \<and>
     ParsePrefix raw = Some (at_prefix t) \<and>
     VerifyTokenContext sha argon slot raw (at_hash t) = Inr True \<and>
     u \<in> set (db_users (sv_db s)) \<and> us_id u = at_user t \<and>
     TokenIDFromContext cx' = at_id t \<and> UserIDFromContext cx' = us_id u \<and>
     IsAdminFromContext cx' = us_is_admin u"
proof -
  from assms obtain raw pre cs c where raw: "extractBearerToken (header_get ''Authorization'' r) = Inr raw"
    "KindOf raw = KindAPI" "ParsePrefix raw = Some pre" and cs: "TokenLookupFromDB e pre s = Inr cs"
    and c: "scan_candidates tc_hash (\<lambda>h. VerifyTokenContext sha argon (slots h) raw h) cs = Inr (Some c)"
    and cx: "cx' = ContextWithAdmin cx (tc_token_id c) (tc_user_id c) (tc_is_admin c)"
    by (rule authenticate_InrD)
  have "cs = sql_api_candidates pre (sv_db s)"
    using cs by (auto simp: TokenLookupFromDB_def split: if_splits)
  with api_scan.scan_sound [OF c] have "c \<in> set (sql_api_candidates pre (sv_db s))"
    and v: "VerifyTokenContext sha argon (slots (tc_hash c)) raw (tc_hash c) = Inr True" by auto
  then obtain t where t: "t \<in> set (db_api_tokens (sv_db s))" "at_prefix t = pre" "at_revoked t = None"
    "api_candidate (sv_db s) t = Some c"
    unfolding sql_api_candidates_set by blast
  from api_candidate_simps [OF t(4)] obtain u where u: "u \<in> set (db_users (sv_db s))" "us_id u = at_user t"
    "c = \<lparr>tc_token_id = at_id t, tc_user_id = at_user t, tc_hash = at_hash t, tc_is_admin = us_is_admin u\<rparr>"
    by blast
  from raw t u v cx show ?thesis
    by (intro exI [of _ raw] exI [of _ t] exI [of _ u] exI [of _ "slots (tc_hash c)"])
       (simp add: context_defs)
qed

text \<open>
  C5: A request passes authentication only as the owner of a live API key that it proves to hold:
  the presented secret is an API secret, it verifies against a key that is not revoked and has
  its prefix, and the identity and administrator flag given to the handlers are those of that
  key and of its user.
\<close>

theorem authentication_sound:
  assumes "authenticateRequest sha argon slots (TokenLookupFromDB e) cx r s = Inr cx'"
  shows "\<exists>raw t u slot. extractBearerToken (header_get ''Authorization'' r) = Inr raw \<and>
     KindOf raw = KindAPI \<and> t \<in> set (db_api_tokens (sv_db s)) \<and> at_revoked t = None \<and>
     ParsePrefix raw = Some (at_prefix t) \<and>
     VerifyTokenContext sha argon slot raw (at_hash t) = Inr True \<and>
     u \<in> set (db_users (sv_db s)) \<and> us_id u = at_user t \<and>
     TokenIDFromContext cx' = at_id t \<and> UserIDFromContext cx' = us_id u \<and>
     IsAdminFromContext cx' = us_is_admin u"
  using assms by (rule authenticated_principal)

text \<open>
  C6: A legacy row with the same prefix cannot lock out the holder of a current key: if the query
  succeeds and some live key stores the current digest of the presented secret, the request is
  authenticated, whatever Argon2 and its slots do with the other candidates.
\<close>

theorem current_key_authenticates:
  assumes "schema_ok (sv_db s)" and "\<And>c. ok e c"
    and "extractBearerToken (header_get ''Authorization'' r) = Inr raw" "KindOf raw = KindAPI"
    and "t \<in> set (db_api_tokens (sv_db s))" "at_revoked t = None" "ParsePrefix raw = Some (at_prefix t)"
    and "at_hash t = HashToken sha raw" and "\<And>x. length (sha x) = 32"
  shows "\<exists>cx'. authenticateRequest sha argon slots (TokenLookupFromDB e) cx r s = Inr cx'"
proof -
  let ?v = "\<lambda>h. VerifyTokenContext sha argon (slots h) raw h"
  obtain c where c: "api_candidate (sv_db s) t = Some c" using api_candidate_exists [OF assms(1,5)] by blast
  have in_cs: "c \<in> set (sql_api_candidates (at_prefix t) (sv_db s))"
    using assms(5,6) c unfolding sql_api_candidates_set by blast
  have h: "tc_hash c = HashToken sha raw" using api_candidate_simps [OF c] assms(8) by auto
  have "?v (tc_hash c) = Inr True"
    by (simp add: h VerifyTokenContext_current verifySHA256_HashToken assms(9))
  with api_scan.scan_finds_current [OF in_cs, of sha argon slots raw] h
  obtain c' where "scan_candidates tc_hash ?v (sql_api_candidates (at_prefix t) (sv_db s)) = Inr (Some c')"
    by auto
  moreover have "lookupCandidates (TokenLookupFromDB e) (at_prefix t) s =
      Inr (sql_api_candidates (at_prefix t) (sv_db s))"
    using in_cs assms(2) by (auto simp: lookupCandidates_def TokenLookupFromDB_def)
  ultimately show ?thesis
    using assms(3,4,7) by (simp add: authenticateRequest_def)
qed

definition auth_sample :: "(string \<Rightarrow> string) \<Rightarrow> string \<Rightarrow> srv" where
  "auth_sample sha raw =
     (let d = sample_db Active 9
      in fresh_srv (d\<lparr>db_api_tokens := [(hd (db_api_tokens d))\<lparr>at_hash := HashToken sha raw\<rparr>]\<rparr>))"

definition sample_request :: "string \<Rightarrow> request" where
  "sample_request auth =
     \<lparr>rq_method = ''GET'', rq_path = ''/v1/me'', rq_escaped_path = ''/v1/me'', rq_raw_query = '''',
      rq_headers = [(''Authorization'', auth)], rq_body = '''', rq_broken_at = None, rq_limit = None\<rparr>"

abbreviation sample_sha :: sha_fun where
  "sample_sha \<equiv> \<lambda>x. take 32 (x @ replicate 32 CHR ''0'')"

theorem current_key_authenticates_witness:
  "\<exists>cx'. authenticateRequest sample_sha (\<lambda>_ _ _ _ _ _. []) (\<lambda>_. SlotWaitExpired) (TokenLookupFromDB (calm 5))
     background (sample_request ''Bearer sk_live_AAAABBBB'') (auth_sample sample_sha ''sk_live_AAAABBBB'') = Inr cx'"
proof (rule current_key_authenticates [where t = "hd (db_api_tokens (sv_db (auth_sample sample_sha ''sk_live_AAAABBBB'')))"])
  show "schema_ok (sv_db (auth_sample sample_sha ''sk_live_AAAABBBB''))"
    by (simp add: auth_sample_def Let_def schema_ok_def sample_db_def)
  show "extractBearerToken (header_get ''Authorization'' (sample_request ''Bearer sk_live_AAAABBBB'')) =
      Inr ''sk_live_AAAABBBB''" by code_simp
  show "KindOf ''sk_live_AAAABBBB'' = KindAPI" by code_simp
qed (simp_all add: auth_sample_def Let_def sample_db_def ParsePrefix_def tokenPrefixLen_def)

theorem authentication_sound_witness:
  "\<exists>cx'. authenticateRequest sample_sha (\<lambda>_ _ _ _ _ _. []) (\<lambda>_. SlotWaitExpired) (TokenLookupFromDB (calm 5))
     background (sample_request ''Bearer sk_live_AAAABBBB'') (auth_sample sample_sha ''sk_live_AAAABBBB'') = Inr cx' \<and>
     UserIDFromContext cx' = ''u1''"
proof -
  have "case authenticateRequest sample_sha (\<lambda>_ _ _ _ _ _. []) (\<lambda>_. SlotWaitExpired) (TokenLookupFromDB (calm 5))
     background (sample_request ''Bearer sk_live_AAAABBBB'') (auth_sample sample_sha ''sk_live_AAAABBBB'')
     of Inl _ \<Rightarrow> False | Inr _ \<Rightarrow> True" by code_simp
  then obtain cx' where cx': "authenticateRequest sample_sha (\<lambda>_ _ _ _ _ _. []) (\<lambda>_. SlotWaitExpired)
     (TokenLookupFromDB (calm 5)) background (sample_request ''Bearer sk_live_AAAABBBB'')
     (auth_sample sample_sha ''sk_live_AAAABBBB'') = Inr cx'"
    by (auto split: sum.splits)
  from authentication_sound [OF this] obtain t and u :: user_row
    where "t \<in> set (db_api_tokens (sv_db (auth_sample sample_sha ''sk_live_AAAABBBB'')))"
      "us_id u = at_user t" "UserIDFromContext cx' = us_id u" by blast
  with cx' show ?thesis by (auto simp: auth_sample_def Let_def sample_db_def)
qed

end
