(* ===== verification/Idempotency.thy ===== *)
theory Idempotency
  imports Auth
begin

text \<open>
  The idempotency middleware (\<open>internal/server/api/idempotency.go\<close>): the reservation of a key by an
  atomic insert, the replay of a completed response, the completion from inside a domain
  transaction, the response recorder and the codec that encrypts cached bodies.  AES-GCM is the
  parameter pair \<open>seal\<close>/\<open>open\<close> of a key, a nonce, a text and additional data; a nonce is None
  when the random source fails.  An error of closing the request body counts as an error of
  reading it.
\<close>

definition maxCachedBodySize :: nat where "maxCachedBodySize = 4096"
definition maxIdempotencyKeyLen :: nat where "maxIdempotencyKeyLen = 255"
definition retryAfterSeconds :: string where "retryAfterSeconds = ''1''"

subsection \<open>The codec\<close>

definition encryptedResponsePrefix :: string where "encryptedResponsePrefix = ''HWID1''"

definition nonceSize :: nat where "nonceSize = 12"

type_synonym seal_fun = "string \<Rightarrow> string \<Rightarrow> string \<Rightarrow> string \<Rightarrow> string"
type_synonym open_fun = "string \<Rightarrow> string \<Rightarrow> string \<Rightarrow> string \<Rightarrow> string option"

record codec =
  cd_seal :: "string \<Rightarrow> string \<Rightarrow> string \<Rightarrow> string"
  cd_open :: "string \<Rightarrow> string \<Rightarrow> string \<Rightarrow> string option"

definition newIdempotencyCodec :: "seal_fun \<Rightarrow> open_fun \<Rightarrow> sha_fun \<Rightarrow> string \<Rightarrow> codec" where
  "newIdempotencyCodec seal opn sha secret =
     (let key = sha (''hatchway/idempotency/v1'' @ [CHR 0x00] @ secret)
      in \<lparr>cd_seal = seal key, cd_open = opn key\<rparr>)"

definition idempotencyAAD :: "string \<Rightarrow> string \<Rightarrow> int \<Rightarrow> string" where
  "idempotencyAAD tokenID key status = tokenID @ [CHR 0x00] @ key @ [CHR 0x00] @ show_int status"

text \<open>The random bytes of a nonce, None when the source fails.\<close>

type_synonym nonce = "(nat \<Rightarrow> char) option"

definition codec_seal :: "codec \<Rightarrow> nonce \<Rightarrow> string \<Rightarrow> string \<Rightarrow> int \<Rightarrow> string \<Rightarrow> string option" where
  "codec_seal c nonce tokenID key status plaintext =
     map_option (\<lambda>rnd. let n = map rnd [0..<nonceSize]
                      in encryptedResponsePrefix @ n @ cd_seal c n plaintext (idempotencyAAD tokenID key status)) nonce"

definition codec_open :: "codec \<Rightarrow> string \<Rightarrow> string \<Rightarrow> int \<Rightarrow> string \<Rightarrow> string option" where
  "codec_open c tokenID key status stored =
     (if \<not> prefix encryptedResponsePrefix stored then Some stored
      else (let payload = drop (length encryptedResponsePrefix) stored
            in if length payload < nonceSize then None
               else cd_open c (take nonceSize payload) (drop nonceSize payload) (idempotencyAAD tokenID key status)))"

subsection \<open>The response recorder\<close>

record recorder =
  rc_status :: int
  rc_body :: string
  rc_too_large :: bool
  rc_out :: "wop list"

definition new_recorder :: recorder where
  "new_recorder = \<lparr>rc_status = 0, rc_body = '''', rc_too_large = False, rc_out = []\<rparr>"

fun rec_step :: "recorder \<Rightarrow> wop \<Rightarrow> recorder" where
  "rec_step rc (SetHeader k v) = rc\<lparr>rc_out := rc_out rc @ [SetHeader k v]\<rparr>"
| "rec_step rc (WriteHeader code) =
     (if rc_status rc \<noteq> 0 then rc
      else rc\<lparr>rc_status := code, rc_out := rc_out rc @ [WriteHeader code]\<rparr>)"
| "rec_step rc (WriteBody b) =
     (let rc1 = (if rc_status rc = 0 then rc\<lparr>rc_status := 200\<rparr> else rc);
          rc2 = (if \<not> rc_too_large rc1 then
                   (if maxCachedBodySize < length (rc_body rc1) + length b
                    then rc1\<lparr>rc_too_large := True, rc_body := ''''\<rparr>
                    else rc1\<lparr>rc_body := rc_body rc1 @ b\<rparr>)
                 else rc1)
      in rc2\<lparr>rc_out := rc_out rc2 @ [WriteBody b]\<rparr>)"
| "rec_step rc Panicked = rc\<lparr>rc_out := rc_out rc @ [Panicked]\<rparr>"

definition captureResponse :: "wop list \<Rightarrow> recorder" where
  "captureResponse ops =
     (let rc = foldl rec_step new_recorder ops
      in if rc_status rc = 0 then rc\<lparr>rc_status := 200\<rparr> else rc)"

subsection \<open>Statements\<close>

definition reservation_row :: "string \<Rightarrow> string \<Rightarrow> string \<Rightarrow> time \<Rightarrow> idem_row" where
  "reservation_row tok key hash now =
     \<lparr>ik_token = tok, ik_key = key, ik_hash = hash, ik_status = None, ik_body = None,
      ik_completed = None, ik_created = now\<rparr>"

text \<open>\<open>INSERT ... ON CONFLICT (token_id, key) DO NOTHING\<close>, with the number of rows it inserts.\<close>

definition sql_reserve :: "time \<Rightarrow> string \<Rightarrow> string \<Rightarrow> string \<Rightarrow> db \<Rightarrow> sql_error + (db \<times> nat)" where
  "sql_reserve now tok key hash d =
     (if find_idem tok key d \<noteq> None then Inr (d, 0)
      else if tok \<notin> at_id ` set (db_api_tokens d) then Inl ForeignKeyViolation
      else Inr (d\<lparr>db_idem := db_idem d @ [reservation_row tok key hash now]\<rparr>, 1))"

definition pending :: "string \<Rightarrow> string \<Rightarrow> idem_row \<Rightarrow> bool" where
  "pending tok key r \<longleftrightarrow> ik_token r = tok \<and> ik_key r = key \<and> ik_completed r = None"

definition sql_release :: "string \<Rightarrow> string \<Rightarrow> db \<Rightarrow> db" where
  "sql_release tok key d = d\<lparr>db_idem := filter (\<lambda>r. \<not> pending tok key r) (db_idem d)\<rparr>"

definition sql_complete :: "time \<Rightarrow> string \<Rightarrow> string \<Rightarrow> int \<Rightarrow> string option \<Rightarrow> db \<Rightarrow> db \<times> nat" where
  "sql_complete now tok key status body d =
     (d\<lparr>db_idem := update_where (pending tok key)
          (\<lambda>r. r\<lparr>ik_status := Some status, ik_body := body, ik_completed := Some now\<rparr>) (db_idem d)\<rparr>,
      count_where (pending tok key) (db_idem d))"

subsection \<open>The middleware\<close>

definition methodNeedsIdempotency :: "string \<Rightarrow> bool" where
  "methodNeedsIdempotency m \<longleftrightarrow> m \<in> set [''POST'', ''PATCH'', ''PUT'', ''DELETE'']"

definition request_preimage :: "request \<Rightarrow> string \<Rightarrow> string" where
  "request_preimage r body =
     rq_method r @ [CHR 0x00] @ rq_escaped_path r @ [CHR 0x00] @ rq_raw_query r @ [CHR 0x00] @ body"

text \<open>The digest and the request with its body restored, or how reading the body ended.\<close>

definition requestHashAndRestoreBody :: "sha_fun \<Rightarrow> request \<Rightarrow> body_end + (string \<times> request)" where
  "requestHashAndRestoreBody sha r =
     (case read_body r of
        (body, BodyEOF) \<Rightarrow>
          Inr (hex_encode (sha (request_preimage r body)),
               r\<lparr>rq_body := body, rq_broken_at := None, rq_limit := None\<rparr>)
      | (_, en) \<Rightarrow> Inl en)"

definition replayCachedResponse :: "int \<Rightarrow> string \<Rightarrow> wop list" where
  "replayCachedResponse status body =
     [SetHeader ''Content-Type'' ''application/json'', WriteHeader status, WriteBody body]"

definition in_flight :: "string \<Rightarrow> wop list" where
  "in_flight msg = SetHeader ''Retry-After'' retryAfterSeconds # WriteError 409 ErrInvalidRequest msg"

definition serveExistingIdempotent :: "env \<Rightarrow> codec \<Rightarrow> string \<Rightarrow> string \<Rightarrow> string \<Rightarrow> db \<Rightarrow> wop list" where
  "serveExistingIdempotent e c tok key hash d =
     (if \<not> ok e IdSelect then WriteError 500 ErrInternal ''idempotency lookup failed''
      else (case find_idem tok key d of
              None \<Rightarrow> in_flight ''idempotency record vanished, retry''
            | Some r \<Rightarrow>
                if ik_hash r \<noteq> hash
                then WriteError 409 ErrInvalidRequest ''idempotency key already used with a different request body''
                else if ik_completed r = None then in_flight ''request with this idempotency key is in flight''
                else (case (ik_status r, ik_body r) of
                        (Some status, Some body) \<Rightarrow>
                          (case codec_open c tok key status body of
                             None \<Rightarrow> WriteError 500 ErrInternal ''cached response is unavailable; retry without Idempotency-Key''
                           | Some plaintext \<Rightarrow> replayCachedResponse status plaintext)
                      | _ \<Rightarrow> WriteError 500 ErrInternal
                               ''original response was too large to cache; retry without Idempotency-Key'')))"

definition markResponseUncacheable :: "env \<Rightarrow> string \<Rightarrow> string \<Rightarrow> int \<Rightarrow> db \<Rightarrow> db" where
  "markResponseUncacheable e tok key status d =
     fst (pool_exec e IdUncache (\<lambda>d. fst (sql_complete (e_time e IdUncache) tok key status None d)) d)"

definition persistCompletion :: "env \<Rightarrow> codec \<Rightarrow> nonce \<Rightarrow> string \<Rightarrow> string \<Rightarrow> recorder \<Rightarrow> db \<Rightarrow> db" where
  "persistCompletion e c nonce tok key rc d =
     (if rc_status rc < 200 \<or> 300 \<le> rc_status rc then fst (pool_exec e IdRelease (sql_release tok key) d)
      else if rc_too_large rc then markResponseUncacheable e tok key (rc_status rc) d
      else (case codec_seal c nonce tok key (rc_status rc) (rc_body rc) of
              None \<Rightarrow> markResponseUncacheable e tok key (rc_status rc) d
            | Some body \<Rightarrow>
                fst (pool_exec e IdPersist
                  (\<lambda>d. fst (sql_complete (e_time e IdPersist) tok key (rc_status rc) (Some body) d)) d)))"

text \<open>The request that holds the reservation runs the handler and persists its result.\<close>

definition runReserved ::
  "env \<Rightarrow> codec \<Rightarrow> nonce \<Rightarrow> handler \<Rightarrow> string \<Rightarrow> string \<Rightarrow> ctx \<Rightarrow> request \<Rightarrow> srv \<Rightarrow> srv \<times> wop list" where
  "runReserved e c nonce next tok key cx r s =
     (case next (cx\<lparr>cx_reservation := Some \<lparr>rv_token = tok, rv_key = key\<rparr>\<rparr>) r s of
        (s', ops) \<Rightarrow>
          (let rc = captureResponse ops
           in if Panicked \<in> set ops
              then (on_db (\<lambda>d. fst (pool_exec e IdPanicRelease (sql_release tok key) d)) s', rc_out rc)
              else (on_db (persistCompletion e c nonce tok key rc) s', rc_out rc)))"

definition handleIdempotentRequest ::
  "sha_fun \<Rightarrow> env \<Rightarrow> codec \<Rightarrow> nonce \<Rightarrow> handler \<Rightarrow> string \<Rightarrow> handler" where
  "handleIdempotentRequest sha e c nonce next key cx r s =
     (let tok = TokenIDFromContext cx
      in if tok = '''' then next cx r s
         else (case requestHashAndRestoreBody sha r of
                 Inl BodyTooLarge \<Rightarrow> (s, WriteError 413 ErrInvalidRequest ''request body too large'')
               | Inl _ \<Rightarrow> (s, WriteError 500 ErrInternal ''failed to read request body'')
               | Inr (hash, r') \<Rightarrow>
                   (case sql_reserve (e_time e IdReserve) tok key hash (sv_db s) of
                      Inl _ \<Rightarrow> (s, WriteError 500 ErrInternal ''idempotency reserve failed'')
                    | Inr (d', n) \<Rightarrow>
                        (case pool_exec e IdReserve (\<lambda>_. s\<lparr>sv_db := d'\<rparr>) s of
                           (s1, False) \<Rightarrow> (s1, WriteError 500 ErrInternal ''idempotency reserve failed'')
                         | (s1, True) \<Rightarrow>
                             if n = 0 then (s1, serveExistingIdempotent e c tok key hash (sv_db s1))
                             else runReserved e c nonce next tok key cx r' s1))))"

definition IdempotencyMiddleware ::
  "sha_fun \<Rightarrow> seal_fun \<Rightarrow> open_fun \<Rightarrow> string \<Rightarrow> env \<Rightarrow> nonce \<Rightarrow> handler \<Rightarrow> handler" where
  "IdempotencyMiddleware sha seal opn secret e nonce next cx r s =
     (let c = newIdempotencyCodec seal opn sha secret; key = header_get ''Idempotency-Key'' r
      in if \<not> methodNeedsIdempotency (rq_method r) then next cx r s
         else if key = '''' then next cx r s
         else if maxIdempotencyKeyLen < length key
         then (s, WriteError 400 ErrInvalidRequest ''Idempotency-Key must be at most 255 bytes'')
         else handleIdempotentRequest sha e c nonce next key cx r s)"

subsection \<open>Completion inside a domain transaction\<close>

datatype complete_error = CpStatus int | CpTooLarge | CpSeal | CpExec | CpVanished

definition CompleteIdempotentResponseInTransaction ::
  "env \<Rightarrow> codec \<Rightarrow> nonce \<Rightarrow> time \<Rightarrow> ctx \<Rightarrow> int \<Rightarrow> string \<Rightarrow> db \<Rightarrow> complete_error + (db \<times> bool)" where
  "CompleteIdempotentResponseInTransaction e c nonce now cx status body d =
     (case cx_reservation cx of
        None \<Rightarrow> Inr (d, False)
      | Some rv \<Rightarrow>
          if status < 200 \<or> 300 \<le> status then Inl (CpStatus status)
          else if maxCachedBodySize < length body then Inl CpTooLarge
          else (case codec_seal c nonce (rv_token rv) (rv_key rv) status body of
                  None \<Rightarrow> Inl CpSeal
                | Some enc \<Rightarrow>
                    if \<not> ok e CtComplete then Inl CpExec
                    else (case sql_complete now (rv_token rv) (rv_key rv) status (Some enc) d of
                            (d', n) \<Rightarrow> if n \<noteq> 1 then Inl CpVanished else Inr (d', True))))"

subsection \<open>The codec and the recorder\<close>

text \<open>What the code relies on of AES-GCM: opening what was sealed gives the text back.\<close>

definition aead_ok :: "codec \<Rightarrow> bool" where
  "aead_ok c \<longleftrightarrow> (\<forall>n p a. cd_open c n (cd_seal c n p a) a = Some p)"

lemma length_nonce: "length (map rnd [0..<nonceSize]) = nonceSize"
  by simp

lemma codec_roundtrip:
  assumes "aead_ok c" "codec_seal c (Some rnd) tok key st p = Some enc"
  shows "codec_open c tok key st enc = Some p"
proof -
  let ?n = "map rnd [0..<nonceSize]"
  have enc: "enc = encryptedResponsePrefix @ ?n @ cd_seal c ?n p (idempotencyAAD tok key st)"
    using assms(2) by (simp add: codec_seal_def Let_def)
  have "take nonceSize (?n @ x) = ?n" "drop nonceSize (?n @ x) = x" for x
    using length_nonce [of rnd] by (metis append_eq_conv_conj)+
  then show ?thesis
    using assms(1) by (simp add: codec_open_def enc aead_ok_def)
qed

text \<open>The additional data names token, key and status unambiguously.\<close>

lemma append_sep_inject:
  "x \<notin> set a \<Longrightarrow> x \<notin> set a' \<Longrightarrow> a @ x # b = a' @ x # b' \<longleftrightarrow> a = a' \<and> b = b'"
proof -
  assume n: "x \<notin> set a" "x \<notin> set a'"
  have split: "x \<notin> set a \<Longrightarrow> takeWhile (\<lambda>c. c \<noteq> x) (a @ x # b) = a \<and> dropWhile (\<lambda>c. c \<noteq> x) (a @ x # b) = x # b"
    for b a :: "'a list" by (induction a) auto
  from split [OF n(1), of b] split [OF n(2), of b'] show ?thesis by (metis list.inject)
qed

lemma show_nat_no_sign: "show_nat n \<noteq> CHR ''-'' # s"
  using show_nat_digits [of n] by (auto simp: is_digit_def in_range_def)

lemma show_int_inject: "show_int i = show_int j \<Longrightarrow> i = j"
  using show_nat_no_sign show_nat_no_sign [THEN not_sym]
  by (auto simp: show_int_def split: if_splits dest: show_nat_inject)

lemma idempotencyAAD_inject:
  assumes "CHR 0x00 \<notin> set tok" "CHR 0x00 \<notin> set tok'" "CHR 0x00 \<notin> set key" "CHR 0x00 \<notin> set key'"
  shows "idempotencyAAD tok key st = idempotencyAAD tok' key' st' \<longleftrightarrow> tok = tok' \<and> key = key' \<and> st = st'"
  using assms show_int_inject by (auto simp: idempotencyAAD_def append_sep_inject)

fun written :: "wop list \<Rightarrow> string" where
  "written [] = ''''"
| "written (WriteBody b # ops) = b @ written ops"
| "written (_ # ops) = written ops"

lemma new_recorder_simps [simp]:
  "rc_status new_recorder = 0" "rc_body new_recorder = ''''" "\<not> rc_too_large new_recorder" "rc_out new_recorder = []"
  by (simp_all add: new_recorder_def)

text \<open>The recorder holds the whole body or, when that is too large, nothing; it never keeps a part.\<close>

lemma rec_body:
  "rc_too_large rc \<longrightarrow> rc_body rc = '''' \<Longrightarrow> length (rc_body rc) \<le> maxCachedBodySize \<Longrightarrow>
   (let rc' = foldl rec_step rc ops
    in (if rc_too_large rc \<or> maxCachedBodySize < length (rc_body rc @ written ops)
        then rc_too_large rc' \<and> rc_body rc' = ''''
        else \<not> rc_too_large rc' \<and> rc_body rc' = rc_body rc @ written ops))"
proof (induction ops arbitrary: rc)
  case (Cons op ops)
  then show ?case
    by (cases op) (auto simp: Let_def split: if_splits)
qed (auto simp: Let_def)

lemma captureResponse_body:
  "rc_too_large (captureResponse ops) \<longleftrightarrow> maxCachedBodySize < length (written ops)"
  "rc_body (captureResponse ops) = (if maxCachedBodySize < length (written ops) then '''' else written ops)"
  using rec_body [of new_recorder ops] by (auto simp: captureResponse_def Let_def split: if_splits)

text \<open>What the recorder passes on renders as what the handler wrote.\<close>

lemma foldl_wr_body: "wr_body (foldl wr_step w ops) = wr_body w @ written ops"
  by (induction ops arbitrary: w rule: written.induct) simp_all

definition same_status :: "recorder \<Rightarrow> writer \<Rightarrow> bool" where
  "same_status rc w \<longleftrightarrow> (case wr_wrote w of None \<Rightarrow> rc_status rc = 0 | Some st \<Rightarrow> rc_status rc = st \<and> st \<noteq> 0)"

fun no_zero_status :: "wop list \<Rightarrow> bool" where
  "no_zero_status [] = True"
| "no_zero_status (WriteHeader st # ops) = (st \<noteq> 0 \<and> no_zero_status ops)"
| "no_zero_status (_ # ops) = no_zero_status ops"

lemma rec_writer:
  assumes "no_zero_status ops" "same_status rc (foldl wr_step new_writer (rc_out rc))"
  shows "same_status (foldl rec_step rc ops) (foldl wr_step (foldl wr_step new_writer (rc_out rc)) ops) \<and>
     foldl wr_step new_writer (rc_out (foldl rec_step rc ops)) =
       foldl wr_step (foldl wr_step new_writer (rc_out rc)) ops"
  using assms
proof (induction ops arbitrary: rc)
  case (Cons op ops)
  let ?w = "foldl wr_step new_writer (rc_out rc)"
  have ops: "no_zero_status ops" using Cons.prems(1) by (cases op) auto
  have step: "foldl wr_step new_writer (rc_out (rec_step rc op)) = wr_step ?w op \<and>
      same_status (rec_step rc op) (wr_step ?w op)"
    using Cons.prems by (cases op) (auto simp: same_status_def Let_def split: option.splits)
  then show ?case using Cons.IH [OF ops, of "rec_step rc op"] by simp
qed simp

lemma capture_renders:
  assumes "no_zero_status ops"
  shows "render (rc_out (captureResponse ops)) = render ops"
    and "rs_status (render ops) = rc_status (captureResponse ops)"
proof -
  let ?rc = "foldl rec_step new_recorder ops"
  have "same_status new_recorder (foldl wr_step new_writer (rc_out new_recorder))"
    by (simp add: same_status_def new_writer_def)
  from rec_writer [OF assms this] have w: "foldl wr_step new_writer (rc_out ?rc) = foldl wr_step new_writer ops"
    and st: "same_status ?rc (foldl wr_step new_writer ops)"
    by simp_all
  have out: "rc_out (captureResponse ops) = rc_out ?rc" by (simp add: captureResponse_def Let_def)
  show "render (rc_out (captureResponse ops)) = render ops" by (simp add: render_def out w)
  show "rs_status (render ops) = rc_status (captureResponse ops)"
    using st by (auto simp: render_def finish_def captureResponse_def same_status_def Let_def split: option.splits)
qed

subsection \<open>What the statements do to the keys\<close>

lemma pending_iff: "pending tok key r \<longleftrightarrow> ik_pk r = (tok, key) \<and> ik_completed r = None"
  by (auto simp: pending_def)

interpretation complete_upd: keyed_update ik_pk
  "\<lambda>r. r\<lparr>ik_status := Some st, ik_body := body, ik_completed := Some now\<rparr>" for st body now
  by unfold_locales simp

lemma find_idem_SomeD: "find_idem tok key d = Some r \<Longrightarrow> r \<in> set (db_idem d) \<and> ik_token r = tok \<and> ik_key r = key"
  unfolding find_idem_def by (drule find_by_SomeD) simp

lemma find_complete:
  "find_idem tok' key' (fst (sql_complete now tok key st body d)) =
     map_option (\<lambda>r. if pending tok key r
                     then r\<lparr>ik_status := Some st, ik_body := body, ik_completed := Some now\<rparr> else r)
       (find_idem tok' key' d)"
  by (simp add: find_idem_def sql_complete_def complete_upd.find_update)

lemma find_release:
  "schema_ok d \<Longrightarrow> find_idem tok' key' (sql_release tok key d) =
     (case find_idem tok' key' d of None \<Rightarrow> None | Some r \<Rightarrow> if pending tok key r then None else Some r)"
  by (simp add: find_idem_def sql_release_def find_by_filter schema_okD split: option.split)

lemma idem_other_tables [simp]:
  "db_tunnels (sql_release tok key d) = db_tunnels d"
  "db_rt_tokens (sql_release tok key d) = db_rt_tokens d"
  "db_events (sql_release tok key d) = db_events d"
  "db_tunnels (fst (sql_complete now tok key st body d)) = db_tunnels d"
  "db_rt_tokens (fst (sql_complete now tok key st body d)) = db_rt_tokens d"
  "db_events (fst (sql_complete now tok key st body d)) = db_events d"
  by (simp_all add: sql_release_def sql_complete_def)

lemma schema_release: "schema_ok d \<Longrightarrow> schema_ok (sql_release tok key d)"
  unfolding sql_release_def
  by (rule schema_ok_idem) (auto simp: schema_ok_def distinct_map_filter)

lemma schema_complete:
  assumes "schema_ok d" "100 \<le> st" "st \<le> 599"
  shows "schema_ok (fst (sql_complete now tok key st body d))"
  unfolding sql_complete_def fst_conv
proof (rule schema_ok_idem [OF assms(1)])
  show "distinct (map ik_pk (update_where (pending tok key)
      (\<lambda>r. r\<lparr>ik_status := Some st, ik_body := body, ik_completed := Some now\<rparr>) (db_idem d)))"
    unfolding complete_upd.keys_update by (rule schema_okD [OF assms(1)])
  fix r
  assume "r \<in> set (update_where (pending tok key)
      (\<lambda>r. r\<lparr>ik_status := Some st, ik_body := body, ik_completed := Some now\<rparr>) (db_idem d))"
  then obtain r0 where r0: "r0 \<in> set (db_idem d)" "r = (if pending tok key r0
      then r0\<lparr>ik_status := Some st, ik_body := body, ik_completed := Some now\<rparr> else r0)"
    unfolding in_set_update_where by blast
  then have "ik_token r0 \<in> at_id ` set (db_api_tokens d)" "idem_completion_valid r0"
    using assms(1) by (simp_all add: schema_ok_def)
  with r0(2) assms(2,3) show "ik_token r \<in> at_id ` set (db_api_tokens d) \<and> idem_completion_valid r"
    by (simp add: idem_completion_valid_def)
qed

lemma sql_reserve_InrD:
  assumes "sql_reserve now tok key hash d = Inr (d', n)"
  shows "(n = 0 \<and> d' = d \<and> find_idem tok key d \<noteq> None) \<or>
     (n = 1 \<and> find_idem tok key d = None \<and> tok \<in> at_id ` set (db_api_tokens d) \<and>
      d' = d\<lparr>db_idem := db_idem d @ [reservation_row tok key hash now]\<rparr>)"
  using assms by (auto simp: sql_reserve_def split: if_splits)

lemma schema_reserve:
  assumes "schema_ok d" "find_idem tok key d = None" "tok \<in> at_id ` set (db_api_tokens d)"
  shows "schema_ok (d\<lparr>db_idem := db_idem d @ [reservation_row tok key hash now]\<rparr>)"
proof (rule schema_ok_idem [OF assms(1)])
  have "(tok, key) \<notin> ik_pk ` set (db_idem d)" using assms(2) by (simp add: find_idem_def find_by_None_iff)
  then show "distinct (map ik_pk (db_idem d @ [reservation_row tok key hash now]))"
    using schema_okD(3) [OF assms(1)] by (auto simp: reservation_row_def)
  show "r \<in> set (db_idem d @ [reservation_row tok key hash now]) \<Longrightarrow>
      ik_token r \<in> at_id ` set (db_api_tokens d) \<and> idem_completion_valid r" for r
    using assms(1,3) by (auto simp: schema_ok_def reservation_row_def idem_completion_valid_def)
qed

lemma find_reserve:
  assumes "find_idem tok key d = None"
  shows "find_idem tok key (d\<lparr>db_idem := db_idem d @ [reservation_row tok key hash now]\<rparr>) =
    Some (reservation_row tok key hash now)"
  using assms by (simp add: find_idem_def find_by_append reservation_row_def)

subsection \<open>The middleware as an operation on tunnels\<close>

text \<open>Every statement of the middleware leaves the tunnels and their credentials alone.\<close>

lemma tunnel_op_on_idem:
  assumes "\<And>d. schema_ok d \<Longrightarrow> schema_ok (f d)" "\<And>d. db_tunnels (f d) = db_tunnels d"
    and "\<And>d. db_rt_tokens (f d) = db_rt_tokens d"
  shows "tunnel_op (on_db f)"
  using assms by unfold_locales (simp_all add: revoked_dead_def)

lemma release_op: "tunnel_op (on_db (\<lambda>d. fst (pool_exec e c (sql_release tok key) d)))"
  by (rule tunnel_op_on_idem) (auto simp: pool_exec_def schema_release split: outcome.split)

lemma complete_op:
  "200 \<le> st \<Longrightarrow> st < 300 \<Longrightarrow>
     tunnel_op (on_db (\<lambda>d. fst (pool_exec e c (\<lambda>d. fst (sql_complete now tok key st body d)) d)))"
  by (rule tunnel_op_on_idem) (auto simp: pool_exec_def schema_complete split: outcome.split)

lemma persist_op: "tunnel_op (on_db (persistCompletion e c nonce tok key rc))"
proof (cases "rc_status rc < 200 \<or> 300 \<le> rc_status rc")
  case True
  then show ?thesis unfolding persistCompletion_def using release_op by simp
next
  case False
  then have "200 \<le> rc_status rc" "rc_status rc < 300" by auto
  from complete_op [OF this] False show ?thesis
    unfolding persistCompletion_def markResponseUncacheable_def
    by (cases "rc_too_large rc"; cases "codec_seal c nonce tok key (rc_status rc) (rc_body rc)") simp_all
qed

lemma reserve_op: "tunnel_op (\<lambda>s. case sql_reserve now tok key hash (sv_db s) of
     Inl _ \<Rightarrow> s | Inr (d', n) \<Rightarrow> fst (pool_exec e c (\<lambda>_. s\<lparr>sv_db := d'\<rparr>) s))"
proof (rule tunnel_op_choice)
  fix s :: srv
  let ?run = "case sql_reserve now tok key hash (sv_db s) of
     Inl _ \<Rightarrow> s | Inr (d', n) \<Rightarrow> fst (pool_exec e c (\<lambda>_. s\<lparr>sv_db := d'\<rparr>) s)"
  define f where "f d = (if find_idem tok key d = None \<and> tok \<in> at_id ` set (db_api_tokens d)
      then d\<lparr>db_idem := db_idem d @ [reservation_row tok key hash now]\<rparr> else d)" for d
  have "tunnel_op (on_db f)"
    by (rule tunnel_op_on_idem) (auto simp: f_def schema_reserve)
  moreover have "?run = s \<or> ?run = on_db f s"
    by (auto simp: sql_reserve_def f_def pool_exec_def split: outcome.split)
  ultimately show "?run = s \<or> (\<exists>f. tunnel_op f \<and> ?run = f s)" by blast
qed

context tunnel_handler
begin

lemma reserved_op: "tunnel_op (\<lambda>s. fst (runReserved e c nonce inner tok key cx r s))"
proof (rule tunnel_op_choice)
  fix s
  let ?cx = "cx\<lparr>cx_reservation := Some \<lparr>rv_token = tok, rv_key = key\<rparr>\<rparr>"
  obtain s' ops where n: "inner ?cx r s = (s', ops)" by (cases "inner ?cx r s")
  have "tunnel_op (\<lambda>s. on_db (\<lambda>d. fst (pool_exec e IdPanicRelease (sql_release tok key) d)) (fst (inner ?cx r s)))"
    "tunnel_op (\<lambda>s. on_db (persistCompletion e c nonce tok key (captureResponse ops)) (fst (inner ?cx r s)))"
    using tunnel_op_comp [OF handler_op release_op] tunnel_op_comp [OF handler_op persist_op] by blast+
  then show "fst (runReserved e c nonce inner tok key cx r s) = s \<or>
      (\<exists>f. tunnel_op f \<and> fst (runReserved e c nonce inner tok key cx r s) = f s)"
    using n by (cases "Panicked \<in> set ops") (auto simp: runReserved_def Let_def)
qed

lemma handle_idem_op: "tunnel_op (\<lambda>s. fst (handleIdempotentRequest sha e c nonce inner key cx r s))"
proof (rule tunnel_op_choice)
  fix s
  let ?run = "fst (handleIdempotentRequest sha e c nonce inner key cx r s)"
  let ?tok = "TokenIDFromContext cx"
  show "?run = s \<or> (\<exists>f. tunnel_op f \<and> ?run = f s)"
  proof (cases "?tok = []")
    case True
    then have "?run = fst (inner cx r s)" by (simp add: handleIdempotentRequest_def)
    then show ?thesis using handler_op by blast
  next
    case tok: False
    show ?thesis
    proof (cases "requestHashAndRestoreBody sha r")
      case (Inl en)
      with tok have "?run = s" by (cases en) (simp_all add: handleIdempotentRequest_def)
      then show ?thesis ..
    next
      case (Inr hr)
      obtain hash r' where hr: "hr = (hash, r')" by (cases hr)
      let ?now = "e_time e IdReserve"
      define f where "f = (\<lambda>s :: srv. case sql_reserve ?now ?tok key hash (sv_db s) of
        Inl _ \<Rightarrow> s | Inr (d', n) \<Rightarrow> fst (pool_exec e IdReserve (\<lambda>_. s\<lparr>sv_db := d'\<rparr>) s))"
      have f: "tunnel_op f" unfolding f_def by (rule reserve_op)
      have run: "?run = s \<or> ?run = f s \<or> ?run = fst (runReserved e c nonce inner ?tok key cx r' (f s))"
        using tok Inr hr
        by (auto simp: handleIdempotentRequest_def Let_def f_def pool_exec_def split: sum.split outcome.split)
      moreover have "tunnel_op (\<lambda>s. fst (runReserved e c nonce inner ?tok key cx r' (f s)))"
        by (rule tunnel_op_comp [OF f reserved_op])
      ultimately show ?thesis using f by blast
    qed
  qed
qed

lemma idem_op: "tunnel_op (\<lambda>s. fst (IdempotencyMiddleware sha seal opn secret e nonce inner cx r s))"
  unfolding IdempotencyMiddleware_def Let_def
  by (intro tunnel_op_if) (simp_all add: handler_op tunnel_op_id handle_idem_op)

end

end
