(* ===== verification/JsonParse.thy ===== *)
theory JsonParse
  imports Http
begin

text \<open>
  Reading JSON as \<open>encoding/json\<close> does: the scanner (which values are complete, which are only
  begun, which are malformed), the unquoting of strings with surrogate pairs and the repair of
  invalid UTF-8, the matching of object keys to the fields of a struct, and the sequence of two
  \<open>Decode\<close> calls with which the handlers demand exactly one value in the body.
\<close>

text \<open>
  A value as the decoders see it.  A string whose literal is the string itself is \<open>VStr\<close>;
  \<open>VEscaped raw s\<close> is a literal with the text \<open>raw\<close> that stands for \<open>s\<close>, because of an escape or of
  invalid UTF-8 that is repaired.  The text matters to a type with an \<open>UnmarshalJSON\<close> of its own,
  such as \<open>time.Time\<close>, which is given the literal.
\<close>

datatype (plugins only: size code) jval = VNull | VBool bool | VNum string | VStr string
  | VEscaped string string | VArr "jval list" | VObj "(string \<times> jval) list"

fun string_of_value :: "jval \<Rightarrow> string option" where
  "string_of_value (VStr s) = Some s"
| "string_of_value (VEscaped raw s) = Some s"
| "string_of_value _ = None"

fun literal_of_value :: "jval \<Rightarrow> string option" where
  "literal_of_value (VStr s) = Some s"
| "literal_of_value (VEscaped raw s) = Some raw"
| "literal_of_value _ = None"

text \<open>
  \<open>Done v rest\<close>: a value and what follows it; \<open>More\<close>: the input ends inside a value; \<open>Bad\<close>: a
  syntax error; \<open>Fuel\<close> never happens with the fuel that \<open>parse_value\<close> gives.
\<close>

datatype 'a scan = Done 'a string | More | Bad | Fuel

fun scan_map :: "('a \<Rightarrow> 'b) \<Rightarrow> 'a scan \<Rightarrow> 'b scan" where
  "scan_map f (Done v r) = Done (f v) r"
| "scan_map f More = More"
| "scan_map f Bad = Bad"
| "scan_map f Fuel = Fuel"

fun scan_bind :: "'a scan \<Rightarrow> ('a \<Rightarrow> string \<Rightarrow> 'b scan) \<Rightarrow> 'b scan" where
  "scan_bind (Done v r) k = k v r"
| "scan_bind More k = More"
| "scan_bind Bad k = Bad"
| "scan_bind Fuel k = Fuel"

definition json_space :: "char \<Rightarrow> bool" where
  "json_space c \<longleftrightarrow> byte c \<in> {9, 10, 13, 32}"

definition skip_ws :: "string \<Rightarrow> string" where
  "skip_ws s = dropWhile json_space s"

text \<open>The input after white space, when its first character is as expected.\<close>

definition expect :: "char \<Rightarrow> string \<Rightarrow> unit scan" where
  "expect c s = (case skip_ws s of [] \<Rightarrow> More | d # r \<Rightarrow> if d = c then Done () r else Bad)"

subsection \<open>Numbers and literals\<close>

definition digits_then :: "string \<Rightarrow> string \<Rightarrow> (string \<Rightarrow> string \<Rightarrow> string scan) \<Rightarrow> string scan" where
  "digits_then acc s k =
     (case s of [] \<Rightarrow> More
      | c # _ \<Rightarrow> if is_digit c then k (acc @ takeWhile is_digit s) (dropWhile is_digit s) else Bad)"

definition scan_exponent :: "string \<Rightarrow> string \<Rightarrow> string scan" where
  "scan_exponent acc s =
     (if prefix ''e'' s \<or> prefix ''E'' s then
        (let acc1 = acc @ take 1 s; s1 = drop 1 s
         in if prefix ''+'' s1 \<or> prefix ''-'' s1 then digits_then (acc1 @ take 1 s1) (drop 1 s1) Done
            else digits_then acc1 s1 Done)
      else Done acc s)"

definition scan_fraction :: "string \<Rightarrow> string \<Rightarrow> string scan" where
  "scan_fraction acc s =
     (if prefix ''.'' s then digits_then (acc @ ''.'') (drop 1 s) scan_exponent else scan_exponent acc s)"

definition scan_number :: "string \<Rightarrow> string scan" where
  "scan_number s =
     (let sign = (if prefix ''-'' s then ''-'' else ''''); s1 = (if prefix ''-'' s then drop 1 s else s)
      in if prefix ''0'' s1 then scan_fraction (sign @ ''0'') (drop 1 s1) else digits_then sign s1 scan_fraction)"

fun scan_word :: "string \<Rightarrow> 'a \<Rightarrow> string \<Rightarrow> 'a scan" where
  "scan_word [] v s = Done v s"
| "scan_word (w # ws) v [] = More"
| "scan_word (w # ws) v (c # cs) = (if c = w then scan_word ws v cs else Bad)"

subsection \<open>Strings\<close>

text \<open>The four hexadecimal digits after \<open>\\u\<close>.\<close>

fun hex_prefix :: "nat \<Rightarrow> string \<Rightarrow> unit scan" where
  "hex_prefix 0 s = Done () s"
| "hex_prefix (Suc n) [] = More"
| "hex_prefix (Suc n) (c # cs) = (if hex_value c = None then Bad else hex_prefix n cs)"

definition is_backslash :: "char \<Rightarrow> bool" where "is_backslash c \<longleftrightarrow> c = CHR 0x5C"

text \<open>The raw text of a string up to its closing quote, escapes checked.\<close>

fun raw_string :: "string \<Rightarrow> string scan" where
  "raw_string [] = More"
| "raw_string [c] = (if c = quote_char then Done [] [] else if byte c < 32 then Bad else More)"
| "raw_string (c # d # cs) =
     (if c = quote_char then Done [] (d # cs)
      else if is_backslash c then
        (if d = CHR ''u'' then scan_bind (hex_prefix 4 cs) (\<lambda>_ _. scan_map (\<lambda>s. c # d # s) (raw_string cs))
         else if d \<in> {quote_char, CHR 0x5C, CHR ''/'', CHR ''b'', CHR ''f'', CHR ''n'', CHR ''r'', CHR ''t''}
         then scan_map (\<lambda>s. c # d # s) (raw_string cs)
         else Bad)
      else if byte c < 32 then Bad
      else scan_map (\<lambda>s. c # s) (raw_string (d # cs)))"

definition continuation :: "nat \<Rightarrow> nat \<Rightarrow> char \<Rightarrow> bool" where
  "continuation lo hi c \<longleftrightarrow> lo \<le> byte c \<and> byte c \<le> hi"

text \<open>The number of bytes of the valid UTF-8 sequence at the head, 0 when there is none.\<close>

definition rune_width :: "string \<Rightarrow> nat" where
  "rune_width s =
     (case s of [] \<Rightarrow> 0
      | c # cs \<Rightarrow>
          (let b = byte c; cont = continuation 0x80 0xBF;
               second = (\<lambda>lo hi. cs \<noteq> [] \<and> continuation lo hi (hd cs));
               third = (1 < length cs \<and> cont (cs ! 1)); fourth = (2 < length cs \<and> cont (cs ! 2))
           in if b < 0x80 then 1
              else if 0xC2 \<le> b \<and> b \<le> 0xDF then (if second 0x80 0xBF then 2 else 0)
              else if b = 0xE0 then (if second 0xA0 0xBF \<and> third then 3 else 0)
              else if b = 0xED then (if second 0x80 0x9F \<and> third then 3 else 0)
              else if 0xE1 \<le> b \<and> b \<le> 0xEF then (if second 0x80 0xBF \<and> third then 3 else 0)
              else if b = 0xF0 then (if second 0x90 0xBF \<and> third \<and> fourth then 4 else 0)
              else if 0xF1 \<le> b \<and> b \<le> 0xF3 then (if second 0x80 0xBF \<and> third \<and> fourth then 4 else 0)
              else if b = 0xF4 then (if second 0x80 0x8F \<and> third \<and> fourth then 4 else 0)
              else 0))"

definition rune_error :: nat where "rune_error = 0xFFFD"

definition encode_rune :: "nat \<Rightarrow> string" where
  "encode_rune r0 =
     (let r = (if (0xD800 \<le> r0 \<and> r0 < 0xE000) \<or> 0x10FFFF < r0 then rune_error else r0)
      in map char_of
        (if r < 0x80 then [r]
         else if r < 0x800 then [0xC0 + r div 64, 0x80 + r mod 64]
         else if r < 0x10000 then [0xE0 + r div 4096, 0x80 + r div 64 mod 64, 0x80 + r mod 64]
         else [0xF0 + r div 262144, 0x80 + r div 4096 mod 64, 0x80 + r div 64 mod 64, 0x80 + r mod 64]))"

definition hex4 :: "string \<Rightarrow> nat" where
  "hex4 s = foldl (\<lambda>n c. 16 * n + (case hex_value c of None \<Rightarrow> 0 | Some v \<Rightarrow> v)) 0 (take 4 s)"

definition simple_escape :: "char \<Rightarrow> char" where
  "simple_escape c =
     (if c = CHR ''b'' then CHR 0x08 else if c = CHR ''f'' then CHR 0x0C else if c = CHR ''n'' then CHR 0x0A
      else if c = CHR ''r'' then CHR 0x0D else if c = CHR ''t'' then CHR 0x09 else c)"

text \<open>A \<open>\\u\<close> escape: its rune and how many bytes after the \<open>u\<close> it takes.\<close>

definition unicode_escape :: "string \<Rightarrow> nat \<times> nat" where
  "unicode_escape s =
     (let r = hex4 s; rest = drop 4 s
      in if 0xD800 \<le> r \<and> r < 0xE000 then
           (if r < 0xDC00 \<and> 5 < length rest \<and> is_backslash (rest ! 0) \<and> rest ! 1 = CHR ''u'' \<and>
               0xDC00 \<le> hex4 (drop 2 rest) \<and> hex4 (drop 2 rest) < 0xE000
            then ((r - 0xD800) * 1024 + (hex4 (drop 2 rest) - 0xDC00) + 0x10000, 10)
            else (rune_error, 4))
         else (r, 4))"

function unquote :: "string \<Rightarrow> string" where
  "unquote [] = []"
| "unquote (c # cs) =
     (if is_backslash c then
        (case cs of [] \<Rightarrow> []
         | d # ds \<Rightarrow>
             (if d = CHR ''u'' then encode_rune (fst (unicode_escape ds)) @ unquote (drop (snd (unicode_escape ds)) ds)
              else simple_escape d # unquote ds))
      else if rune_width (c # cs) = 0 then encode_rune rune_error @ unquote cs
      else take (rune_width (c # cs)) (c # cs) @ unquote (drop (rune_width (c # cs) - 1) cs))"
  by pat_completeness auto
termination by (relation "measure length") auto

definition scan_string :: "string \<Rightarrow> string scan" where
  "scan_string s = scan_map unquote (raw_string s)"

text \<open>The value of a string literal.\<close>

definition string_literal :: "string \<Rightarrow> string \<Rightarrow> jval" where
  "string_literal raw s = (if raw = s then VStr s else VEscaped raw s)"

subsection \<open>Values\<close>

text \<open>
  \<open>fuel\<close> bounds the recursion; \<open>depth\<close> is the number of objects and arrays that may still be
  opened.  The functions for members and elements are called after the first token.
\<close>

fun scan_value :: "nat \<Rightarrow> nat \<Rightarrow> string \<Rightarrow> jval scan"
  and scan_members :: "nat \<Rightarrow> nat \<Rightarrow> string \<Rightarrow> (string \<times> jval) list scan"
  and scan_elements :: "nat \<Rightarrow> nat \<Rightarrow> string \<Rightarrow> jval list scan" where
  "scan_value 0 depth s = Fuel"
| "scan_value (Suc n) depth s =
     (case skip_ws s of [] \<Rightarrow> More
      | c # cs \<Rightarrow>
          if c = CHR ''{'' then
            (if depth = 0 then Bad
             else (case skip_ws cs of [] \<Rightarrow> More
                   | d # ds \<Rightarrow> if d = CHR ''}'' then Done (VObj []) ds
                               else scan_map VObj (scan_members n (depth - 1) cs)))
          else if c = CHR ''['' then
            (if depth = 0 then Bad
             else (case skip_ws cs of [] \<Rightarrow> More
                   | d # ds \<Rightarrow> if d = CHR '']'' then Done (VArr []) ds
                               else scan_map VArr (scan_elements n (depth - 1) cs)))
          else if c = quote_char then scan_map (\<lambda>raw. string_literal raw (unquote raw)) (raw_string cs)
          else if c = CHR ''t'' then scan_word ''rue'' (VBool True) cs
          else if c = CHR ''f'' then scan_word ''alse'' (VBool False) cs
          else if c = CHR ''n'' then scan_word ''ull'' VNull cs
          else scan_map VNum (scan_number (c # cs)))"
| "scan_members 0 depth s = Fuel"
| "scan_members (Suc n) depth s =
     scan_bind (expect quote_char s) (\<lambda>_ r0.
     scan_bind (scan_string r0) (\<lambda>key r1.
     scan_bind (expect CHR '':'' r1) (\<lambda>_ r2.
     scan_bind (scan_value n depth r2) (\<lambda>v r3.
       (case skip_ws r3 of [] \<Rightarrow> More
        | c # r4 \<Rightarrow> if c = CHR ''}'' then Done [(key, v)] r4
                    else if c = CHR '','' then scan_map (\<lambda>ms. (key, v) # ms) (scan_members n depth r4)
                    else Bad)))))"
| "scan_elements 0 depth s = Fuel"
| "scan_elements (Suc n) depth s =
     scan_bind (scan_value n depth s) (\<lambda>v r.
       (case skip_ws r of [] \<Rightarrow> More
        | c # r1 \<Rightarrow> if c = CHR '']'' then Done [v] r1
                    else if c = CHR '','' then scan_map (\<lambda>vs. v # vs) (scan_elements n depth r1)
                    else Bad))"

definition parse_value :: "string \<Rightarrow> jval scan" where
  "parse_value s = scan_value (2 * length s + 1) 10000 s"

subsection \<open>The fuel is enough\<close>

text \<open>A scan of \<open>s\<close> that does not run out of fuel and, when it succeeds, leaves less than \<open>n\<close> bytes.\<close>

definition leaves :: "nat \<Rightarrow> 'a scan \<Rightarrow> bool" where
  "leaves n x \<longleftrightarrow> (case x of Done _ r \<Rightarrow> length r < n | Fuel \<Rightarrow> False | _ \<Rightarrow> True)"

lemma leaves_simps [simp]:
  "leaves n (Done v r) \<longleftrightarrow> length r < n" "leaves n More" "leaves n Bad" "\<not> leaves n Fuel"
  by (simp_all add: leaves_def)

lemma leaves_mono: "leaves m x \<Longrightarrow> m \<le> n \<Longrightarrow> leaves n x"
  by (cases x) auto

lemma leaves_Suc: "leaves n x \<Longrightarrow> leaves (Suc n) x"
  by (erule leaves_mono) simp

lemma leaves_map [simp]: "leaves n (scan_map f x) = leaves n x"
  by (cases x) auto

lemma leaves_bind:
  "leaves m x \<Longrightarrow> (\<And>v r. x = Done v r \<Longrightarrow> length r < m \<Longrightarrow> leaves n (k v r)) \<Longrightarrow> leaves n (scan_bind x k)"
  by (cases x) auto

lemma length_skip_ws: "length (skip_ws s) \<le> length s"
  by (simp add: skip_ws_def length_dropWhile_le)

lemma skip_ws_Cons: "skip_ws s = c # cs \<Longrightarrow> length cs < length s"
  using length_skip_ws [of s] by simp

lemma leaves_expect: "leaves (length s) (expect c s)"
  using skip_ws_Cons [of s] by (auto simp: expect_def split: list.split)

lemma leaves_digits:
  assumes "\<And>a r. length r < length s \<Longrightarrow> leaves (length s) (k a r)"
  shows "leaves (length s) (digits_then acc s k)"
proof (cases s)
  case (Cons c cs)
  then show ?thesis
    using assms length_dropWhile_le [of is_digit cs] by (auto simp: digits_then_def less_Suc_eq_le)
qed (simp add: digits_then_def)

lemma leaves_exponent: "leaves (Suc (length s)) (scan_exponent acc s)"
proof -
  have d: "leaves (Suc (length s)) (digits_then a (drop n s) Done)" for a n
    by (rule leaves_mono [OF leaves_digits]) auto
  have "leaves (Suc (length s)) (digits_then a (drop 1 (drop 1 s)) Done)" for a
    by (rule leaves_mono [OF leaves_digits]) auto
  then show ?thesis using d [of _ 1] d [of _ 0] by (auto simp: scan_exponent_def Let_def simp del: drop_drop)
qed

lemma leaves_fraction: "leaves (Suc (length s)) (scan_fraction acc s)"
proof -
  have "leaves (length (drop 1 s)) (digits_then (acc @ ''.'') (drop 1 s) scan_exponent)"
    by (rule leaves_digits) (rule leaves_mono [OF leaves_exponent], simp)
  then show ?thesis
    by (auto simp: scan_fraction_def leaves_exponent elim: leaves_mono)
qed

lemma leaves_number: "s \<noteq> [] \<Longrightarrow> leaves (length s) (scan_number s)"
proof -
  assume "s \<noteq> []"
  have f: "leaves (length s) (scan_fraction a (drop n s))" if "0 < n" for a n
    using that \<open>s \<noteq> []\<close> by (intro leaves_mono [OF leaves_fraction]) (cases s; simp)
  have d: "leaves (length (drop n s)) (digits_then a (drop n s) scan_fraction)" for a n
    by (rule leaves_digits) (rule leaves_mono [OF leaves_fraction], simp)
  have d': "leaves (length s) (digits_then a (drop n s) scan_fraction)" for a n
    by (rule leaves_mono [OF d]) simp
  show ?thesis
    using f [of "Suc 0"] f [of "Suc (Suc 0)"] d' [of _ 0] d' [of _ 1]
    by (auto simp: scan_number_def Let_def numeral_2_eq_2)
qed

lemma leaves_word: "leaves (Suc (length s)) (scan_word w v s)"
  by (induction w v s rule: scan_word.induct) (auto intro: leaves_Suc)

lemma leaves_hex: "leaves (Suc (length s)) (hex_prefix n s)"
  by (induction n s rule: hex_prefix.induct) (auto intro: leaves_Suc)

lemma leaves_raw_string: "leaves (length s) (raw_string s)"
proof (induction s rule: raw_string.induct)
  case (3 c d cs)
  have hex: "leaves (Suc (Suc (length cs))) (scan_bind (hex_prefix 4 cs) (\<lambda>_ _. scan_map f (raw_string cs)))"
    if "leaves (length cs) (raw_string cs)" for f :: "string \<Rightarrow> string"
    using that by (intro leaves_bind [OF leaves_hex]) (simp add: leaves_Suc)
  consider (close) "c = quote_char" | (uni) "c \<noteq> quote_char" "is_backslash c" "d = CHR ''u''"
    | (esc) "c \<noteq> quote_char" "is_backslash c" "d \<noteq> CHR ''u''"
    | (plain) "c \<noteq> quote_char" "\<not> is_backslash c"
    by blast
  then show ?case
  proof cases
    case uni
    with "3.IH"(1) hex show ?thesis by simp
  next
    case esc
    with "3.IH"(2) show ?thesis by (simp add: leaves_Suc)
  next
    case plain
    with "3.IH"(3) show ?thesis by (simp add: leaves_Suc)
  qed simp
qed simp_all

lemma leaves_string: "leaves (length s) (scan_string s)"
  by (simp add: scan_string_def leaves_raw_string)

text \<open>The shapes that the scanners of values are built from.\<close>

lemma leaves_leaf:
  assumes "skip_ws s = c # cs"
  shows "leaves (length s) (scan_word w v cs)" "leaves (length s) (scan_number (c # cs))" "leaves (length s) (raw_string cs)"
  using skip_ws_Cons [OF assms] leaves_number [of "c # cs"]
  by (auto intro: leaves_mono [OF leaves_word] leaves_mono [OF leaves_raw_string] elim!: leaves_mono)

lemma leaves_open:
  assumes "skip_ws s = c # cs" "\<And>d ds. skip_ws cs = d # ds \<Longrightarrow> d \<noteq> e \<Longrightarrow> leaves (length cs) x"
  shows "leaves (length s) (case skip_ws cs of [] \<Rightarrow> More | d # ds \<Rightarrow> if d = e then Done v ds else scan_map f x)"
  using skip_ws_Cons [OF assms(1)] skip_ws_Cons [of cs] assms(2)
  by (cases "skip_ws cs") (auto intro: less_trans elim: leaves_mono [OF _ less_imp_le])

lemma leaves_rest:
  assumes "length r < m" "\<And>cs. skip_ws r = CHR '','' # cs \<Longrightarrow> length cs < m \<Longrightarrow> leaves m (g cs)"
  shows "leaves m (case skip_ws r of [] \<Rightarrow> More
    | c # cs \<Rightarrow> if c = e then Done v cs else if c = CHR '','' then scan_map f (g cs) else Bad)"
  using skip_ws_Cons [of r] assms by (cases "skip_ws r") auto

lemma leaves_member:
  assumes "\<And>r. length r < length s \<Longrightarrow> leaves (length s) (val r)"
    and "\<And>key v r. length r < length s \<Longrightarrow> leaves (length s) (rest key v r)"
  shows "leaves (length s) (scan_bind (expect quote_char s) (\<lambda>_ r0. scan_bind (scan_string r0) (\<lambda>key r1.
     scan_bind (expect CHR '':'' r1) (\<lambda>_ r2. scan_bind (val r2) (rest key)))))"
proof (rule leaves_bind [OF leaves_expect], rule leaves_bind [OF leaves_string], rule leaves_bind [OF leaves_expect])
  fix key and r0 r1 r2 :: string
  assume "length r0 < length s" "length r1 < length r0" "length r2 < length r1"
  then show "leaves (length s) (scan_bind (val r2) (rest key))"
    by (intro leaves_bind [OF assms(1)] assms(2)) simp_all
qed

lemma leaves_scans:
  "2 * length s + 1 \<le> n \<Longrightarrow> leaves (length s) (scan_value n k s)"
  "2 * length s + 2 \<le> n \<Longrightarrow> leaves (length s) (scan_members n k s)"
  "2 * length s + 2 \<le> n \<Longrightarrow> leaves (length s) (scan_elements n k s)"
proof (induction n k s and n k s and n k s rule: scan_value_scan_members_scan_elements.induct)
  case (2 n k s)
  show ?case
  proof (cases "skip_ws s")
    case (Cons c cs)
    have n: "2 * length cs + 2 \<le> n" using skip_ws_Cons [OF Cons] 2(3) by simp
    consider (obj) "c = CHR ''{''" | (arr) "c = CHR ''[''" "c \<noteq> CHR ''{''" | (other) "c \<noteq> CHR ''{''" "c \<noteq> CHR ''[''" by fastforce
    then show ?thesis
    proof cases
      case obj
      note open_obj = leaves_open [OF Cons, of "CHR ''}''" "scan_members n (k - 1) cs"]
      show ?thesis using 2(1) [OF Cons obj _ _ _ n] by (simp add: Cons obj del: One_nat_def) (intro impI open_obj, simp)
    next
      case arr
      note open_arr = leaves_open [OF Cons, of "CHR '']''" "scan_elements n (k - 1) cs"]
      show ?thesis using 2(2) [OF Cons arr(2,1) _ _ _ n] by (simp add: Cons arr(1) del: One_nat_def) (intro impI open_arr, simp)
    qed (simp add: Cons leaves_leaf [OF Cons])
  qed simp
next
  case (4 n k s)
  have val: "leaves (length s) (scan_value n k r)" if "length r < length s" for r
    using that 4(3) by (intro leaves_mono [OF 4(1)]) simp_all
  show ?case
    unfolding scan_members.simps
  proof (rule leaves_member, erule val, erule leaves_rest)
    fix r cs :: string
    assume "skip_ws r = CHR '','' # cs" "length cs < length s"
    then show "leaves (length s) (scan_members n k cs)" using 4(3) by (intro leaves_mono [OF 4(2)]) simp_all
  qed
next
  case (6 n k s)
  have "leaves (length s) (scan_value n k s)" using 6(3) by (intro 6(1)) simp
  then show ?case
    unfolding scan_elements.simps
  proof (rule leaves_bind, elim leaves_rest)
    fix r cs :: string
    assume "skip_ws r = CHR '','' # cs" "length cs < length s"
    then show "leaves (length s) (scan_elements n k cs)" using 6(3) by (intro leaves_mono [OF 6(2)]) simp_all
  qed
qed simp_all

text \<open>The fuel of \<open>parse_value\<close> never runs out, and a complete value takes at least one byte.\<close>

lemma parse_value_fuel: "parse_value s \<noteq> Fuel"
  using leaves_scans(1) [of s "2 * length s + 1" 10000] by (auto simp: parse_value_def)

lemma parse_value_shorter: "parse_value s = Done v r \<Longrightarrow> length r < length s"
  using leaves_scans(1) [of s "2 * length s + 1" 10000] by (simp add: parse_value_def)

subsection \<open>Decoding into structs\<close>

text \<open>
  The name under which \<open>encoding/json\<close> compares keys without case: ASCII letters in upper case,
  and the two characters outside ASCII that fold with an ASCII letter, the long s and the
  Kelvin sign.
\<close>

fun fold_name :: "string \<Rightarrow> string" where
  "fold_name [] = []"
| "fold_name (c # cs) =
     (if is_lower c then char_of (byte c - 32) # fold_name cs
      else if c = CHR 0xC5 \<and> prefix [CHR 0xBF] cs then CHR ''S'' # fold_name (drop 1 cs)
      else if c = CHR 0xE2 \<and> prefix [CHR 0x84, CHR 0xAA] cs then CHR ''K'' # fold_name (drop 2 cs)
      else c # fold_name cs)"

definition match_field :: "string list \<Rightarrow> string \<Rightarrow> string option" where
  "match_field names key =
     (case List.find (\<lambda>n. n = key) names of
        Some n \<Rightarrow> Some n
      | None \<Rightarrow> List.find (\<lambda>n. fold_name n = fold_name key) names)"

text \<open>
  A struct is its fields by JSON name with their values, of the kinds that the server's structs
  use; \<open>FRaw\<close> is \<open>json.RawMessage\<close>, None when the key is absent.  A map is kept with its newest
  entry first.
\<close>

datatype (plugins only: size code) field = FStr string | FInt int | FBool bool
  | FMap "(string \<times> string) list" | FList "string list" | FRaw "jval option"
  | FStruct "(string \<times> field) list"

type_synonym gostruct = "(string \<times> field) list"

definition decode_string :: "string \<Rightarrow> jval \<Rightarrow> string option" where
  "decode_string cur v = (case v of VNull \<Rightarrow> Some cur | _ \<Rightarrow> string_of_value v)"

text \<open>Into an \<open>int\<close>: an integer literal in the range of 64 bits.\<close>

definition decode_int :: "int \<Rightarrow> jval \<Rightarrow> int option" where
  "decode_int cur v = (case v of VNull \<Rightarrow> Some cur | VNum t \<Rightarrow> atoi t | _ \<Rightarrow> None)"

definition decode_bool :: "bool \<Rightarrow> jval \<Rightarrow> bool option" where
  "decode_bool cur v = (case v of VNull \<Rightarrow> Some cur | VBool b \<Rightarrow> Some b | _ \<Rightarrow> None)"

fun decode_entries :: "(string \<times> jval) list \<Rightarrow> (string \<times> string) list \<Rightarrow> (string \<times> string) list option" where
  "decode_entries [] m = Some m"
| "decode_entries ((k, v) # ms) m =
     (case decode_string '''' v of None \<Rightarrow> None | Some s \<Rightarrow> decode_entries ms ((k, s) # m))"

definition decode_strmap :: "(string \<times> string) list \<Rightarrow> jval \<Rightarrow> (string \<times> string) list option" where
  "decode_strmap cur v = (case v of VNull \<Rightarrow> Some [] | VObj ms \<Rightarrow> decode_entries ms cur | _ \<Rightarrow> None)"

definition decode_strlist :: "jval \<Rightarrow> string list option" where
  "decode_strlist v = (case v of VNull \<Rightarrow> Some [] | VArr vs \<Rightarrow> those (map (decode_string '''') vs) | _ \<Rightarrow> None)"

text \<open>
  Members are stored in order into the current value; \<open>strict\<close> is \<open>DisallowUnknownFields\<close>.  An
  error is reported at the end of decoding in Go and ends it here, as no caller looks at a value
  decoded with an error.
\<close>

fun decode_field :: "bool \<Rightarrow> field \<Rightarrow> jval \<Rightarrow> field option"
  and decode_members :: "bool \<Rightarrow> gostruct \<Rightarrow> (string \<times> jval) list \<Rightarrow> gostruct option" where
  "decode_field strict (FStr cur) v = map_option FStr (decode_string cur v)"
| "decode_field strict (FInt cur) v = map_option FInt (decode_int cur v)"
| "decode_field strict (FBool cur) v = map_option FBool (decode_bool cur v)"
| "decode_field strict (FMap cur) v = map_option FMap (decode_strmap cur v)"
| "decode_field strict (FList cur) v = map_option FList (decode_strlist v)"
| "decode_field strict (FRaw cur) v = Some (FRaw (Some v))"
| "decode_field strict (FStruct fs) (VObj ms) = map_option FStruct (decode_members strict fs ms)"
| "decode_field strict (FStruct fs) VNull = Some (FStruct fs)"
| "decode_field strict (FStruct fs) (VBool _) = None"
| "decode_field strict (FStruct fs) (VNum _) = None"
| "decode_field strict (FStruct fs) (VStr _) = None"
| "decode_field strict (FStruct fs) (VEscaped _ _) = None"
| "decode_field strict (FStruct fs) (VArr _) = None"
| "decode_members strict fs [] = Some fs"
| "decode_members strict fs ((key, v) # ms) =
     (case match_field (map fst fs) key of
        None \<Rightarrow> if strict then None else decode_members strict fs ms
      | Some name \<Rightarrow>
          (case map_of fs name of
             None \<Rightarrow> None
           | Some f \<Rightarrow>
               (case decode_field strict f v of
                  None \<Rightarrow> None
                | Some f' \<Rightarrow> decode_members strict (map (\<lambda>(n, x). (n, if n = name then f' else x)) fs) ms)))"

definition decode_struct :: "bool \<Rightarrow> gostruct \<Rightarrow> jval \<Rightarrow> gostruct option" where
  "decode_struct strict zero v =
     (case decode_field strict (FStruct zero) v of Some (FStruct fs) \<Rightarrow> Some fs | _ \<Rightarrow> None)"

text \<open>\<open>json.Unmarshal\<close> of a raw message into a struct; an absent message is empty input.\<close>

definition unmarshal_raw :: "gostruct \<Rightarrow> jval option \<Rightarrow> gostruct option" where
  "unmarshal_raw zero raw = Option.bind raw (decode_struct False zero)"

definition get_str :: "string \<Rightarrow> gostruct \<Rightarrow> string" where
  "get_str n fs = (case map_of fs n of Some (FStr s) \<Rightarrow> s | _ \<Rightarrow> '''')"

definition get_int :: "string \<Rightarrow> gostruct \<Rightarrow> int" where
  "get_int n fs = (case map_of fs n of Some (FInt i) \<Rightarrow> i | _ \<Rightarrow> 0)"

definition get_bool :: "string \<Rightarrow> gostruct \<Rightarrow> bool" where
  "get_bool n fs = (case map_of fs n of Some (FBool b) \<Rightarrow> b | _ \<Rightarrow> False)"

definition get_map :: "string \<Rightarrow> gostruct \<Rightarrow> (string \<times> string) list" where
  "get_map n fs = (case map_of fs n of Some (FMap m) \<Rightarrow> m | _ \<Rightarrow> [])"

definition get_list :: "string \<Rightarrow> gostruct \<Rightarrow> string list" where
  "get_list n fs = (case map_of fs n of Some (FList l) \<Rightarrow> l | _ \<Rightarrow> [])"

definition get_raw :: "string \<Rightarrow> gostruct \<Rightarrow> jval option" where
  "get_raw n fs = (case map_of fs n of Some (FRaw v) \<Rightarrow> v | _ \<Rightarrow> None)"

definition get_struct :: "string \<Rightarrow> gostruct \<Rightarrow> gostruct" where
  "get_struct n fs = (case map_of fs n of Some (FStruct s) \<Rightarrow> s | _ \<Rightarrow> [])"

text \<open>Indexing a \<open>map[string]string\<close>: the zero value when the key is absent.\<close>

definition map_index :: "(string \<times> string) list \<Rightarrow> string \<Rightarrow> string" where
  "map_index m k = (case map_of m k of None \<Rightarrow> '''' | Some v \<Rightarrow> v)"

subsection \<open>One value in the body\<close>

text \<open>
  The two calls: the first failed because of the size limit or otherwise, or the second did not
  find the end of the body, because of the limit or otherwise.
\<close>

datatype 'a body_result = BodyTooBig | BodyInvalid | BodyTrailingTooBig | BodyTrailing | BodyValue 'a

definition container :: "jval \<Rightarrow> bool" where
  "container v = (case v of VObj _ \<Rightarrow> True | VArr _ \<Rightarrow> True | _ \<Rightarrow> False)"

text \<open>
  A scalar is complete only when something follows it, be it the end of the input; an object or
  array at its closing bracket.
\<close>

definition scan_top :: "string \<Rightarrow> body_end \<Rightarrow> jval scan" where
  "scan_top s en =
     (case parse_value s of
        Done v r \<Rightarrow> if r = [] \<and> en \<noteq> BodyEOF \<and> \<not> container v then More else Done v r
      | x \<Rightarrow> x)"

definition decode_body :: "(jval \<Rightarrow> 'a option) \<Rightarrow> request \<Rightarrow> 'a body_result" where
  "decode_body dec rq =
     (case read_body rq of (s, en) \<Rightarrow>
        (case scan_top s en of
           Done v r \<Rightarrow>
             (case dec v of
                None \<Rightarrow> BodyInvalid
              | Some x \<Rightarrow>
                  if skip_ws r = [] then
                    (case en of BodyEOF \<Rightarrow> BodyValue x | BodyTooLarge \<Rightarrow> BodyTrailingTooBig | BodyError \<Rightarrow> BodyTrailing)
                  else if scan_top r en = More \<and> en = BodyTooLarge then BodyTrailingTooBig
                  else BodyTrailing)
         | More \<Rightarrow> if en = BodyTooLarge then BodyTooBig else BodyInvalid
         | _ \<Rightarrow> BodyInvalid))"

text \<open>An accepted body was read to its end, so it is within the limit and holds one value.\<close>

lemma decode_body_ValueD:
  assumes "decode_body dec rq = BodyValue x"
  obtains v r where "read_body rq = (rq_body rq, BodyEOF)" "parse_value (rq_body rq) = Done v r"
    "dec v = Some x" "skip_ws r = []"
proof -
  obtain s en where b: "read_body rq = (s, en)" by (cases "read_body rq")
  with assms have en: "en = BodyEOF"
    by (auto simp: decode_body_def split: scan.splits option.splits if_splits body_end.splits)
  with b have s: "s = rq_body rq" using read_body_whole [of rq] by simp
  from assms b en show thesis
    by (auto simp: decode_body_def scan_top_def s split: scan.splits option.splits if_splits
        intro: that)
qed

subsection \<open>Reading back what is written\<close>

lemma rune_width_ascii: "byte c < 128 \<Longrightarrow> rune_width (c # cs) = 1"
  by (simp add: rune_width_def Let_def)

text \<open>ASCII text survives being written by \<open>json_string\<close> and read by \<open>scan_string\<close>.\<close>

lemma scan_map_map [simp]: "scan_map f (scan_map g x) = scan_map (\<lambda>v. f (g v)) x"
  by (cases x) auto

lemma raw_plain:
  assumes "c \<noteq> quote_char" "\<not> is_backslash c" "32 \<le> byte c" "s \<noteq> []"
  shows "raw_string (c # s) = scan_map ((#) c) (raw_string s)"
  using assms by (cases s) (simp_all add: fun_eq_iff)

lemma raw_pair:
  assumes "d \<in> {quote_char, CHR 0x5C, CHR ''/'', CHR ''b'', CHR ''f'', CHR ''n'', CHR ''r'', CHR ''t''}"
  shows "raw_string (CHR 0x5C # d # s) = scan_map (\<lambda>t. CHR 0x5C # d # t) (raw_string s)"
  using assms by (auto simp: is_backslash_def quote_char_def)

lemma hex_digit_facts:
  assumes "n < 16"
  shows "hex_digits ! n \<noteq> quote_char" "\<not> is_backslash (hex_digits ! n)" "32 \<le> byte (hex_digits ! n)"
proof -
  have "list_all (\<lambda>c. c \<noteq> quote_char \<and> \<not> is_backslash c \<and> 32 \<le> byte c) hex_digits" by code_simp
  then have "\<forall>c \<in> set hex_digits. c \<noteq> quote_char \<and> \<not> is_backslash c \<and> 32 \<le> byte c"
    by (simp only: list_all_iff)
  moreover have "hex_digits ! n \<in> set hex_digits"
    by (rule nth_mem) (use assms in \<open>simp add: hex_digits_def [THEN arg_cong [where f = length]]\<close>)
  ultimately show "hex_digits ! n \<noteq> quote_char" "\<not> is_backslash (hex_digits ! n)" "32 \<le> byte (hex_digits ! n)"
    by blast+
qed

lemma hex_escape_eq:
  "hex_escape c = [CHR 0x5C, CHR ''u'', CHR ''0'', CHR ''0'', hex_digits ! (byte c div 16), hex_digits ! (byte c mod 16)]"
  by (simp add: hex_escape_def hex_encode_def)

lemma hex_value_zero: "hex_value CHR ''0'' = Some 0"
  using hex_value_digit [of 0] by (simp add: hex_digits_def)

lemma four: "(4 :: nat) = Suc (Suc (Suc (Suc 0)))"
  by simp

lemma raw_hex_escape:
  assumes "s \<noteq> []"
  shows "raw_string (hex_escape c @ s) = scan_map ((@) (hex_escape c)) (raw_string s)"
proof -
  let ?x = "byte c div 16" and ?y = "byte c mod 16"
  have xy: "?x < 16" "?y < 16" by (simp_all add: less_mult_imp_div_less)
  have z: "CHR ''0'' \<noteq> quote_char" "\<not> is_backslash CHR ''0''" "32 \<le> byte CHR ''0''"
    using hex_digit_facts [of 0] by (simp_all add: hex_digits_def)
  have h: "hex_prefix 4 (CHR ''0'' # CHR ''0'' # hex_digits ! ?x # hex_digits ! ?y # s) = Done () s"
    by (simp only: four hex_prefix.simps hex_value_zero hex_value_digit [OF xy(1)] hex_value_digit [OF xy(2)]
        option.distinct if_False)
  have u: "raw_string (CHR 0x5C # CHR ''u'' # t) =
      scan_bind (hex_prefix 4 t) (\<lambda>_ _. scan_map (\<lambda>s. CHR 0x5C # CHR ''u'' # s) (raw_string t))" for t
    by (simp add: is_backslash_def quote_char_def)
  have p: "raw_string (CHR ''0'' # CHR ''0'' # hex_digits ! ?x # hex_digits ! ?y # s) =
      scan_map (\<lambda>t. CHR ''0'' # CHR ''0'' # hex_digits ! ?x # hex_digits ! ?y # t) (raw_string s)"
    using assms by (simp only: raw_plain [OF z] raw_plain [OF hex_digit_facts [OF xy(1)]]
        raw_plain [OF hex_digit_facts [OF xy(2)]] list.simps not_False_eq_True simp_thms scan_map_map)
  show ?thesis
    unfolding hex_escape_eq append_Cons append_Nil u p h by (simp only: scan_bind.simps scan_map_map append_Cons append_Nil)
qed

lemma raw_escape:
  assumes "byte c < 128" "s \<noteq> []"
  shows "raw_string (json_escape c @ s) = scan_map ((@) (json_escape c)) (raw_string s)"
proof (cases "json_escape c = [c]")
  case True
  then have "c \<noteq> quote_char" "\<not> is_backslash c" "32 \<le> byte c"
    by (auto simp: json_escape_def quote_char_def is_backslash_def hex_escape_eq split: if_splits)
  then have "raw_string (c # s) = scan_map ((#) c) (raw_string s)" using assms(2) by (rule raw_plain)
  moreover have "(@) [c] = (#) c" by (simp add: fun_eq_iff)
  ultimately show ?thesis by (simp only: True append_Cons append_Nil)
next
  case False
  then consider "json_escape c = hex_escape c"
    | d where "json_escape c = [CHR 0x5C, d]"
        "d \<in> {quote_char, CHR 0x5C, CHR ''/'', CHR ''b'', CHR ''f'', CHR ''n'', CHR ''r'', CHR ''t''}"
    unfolding json_escape_def quote_char_def by (auto split: if_splits)
  then show ?thesis
  proof cases
    case (2 d)
    have "(@) [CHR 0x5C, d] = (\<lambda>t. CHR 0x5C # d # t)" by (simp add: fun_eq_iff)
    then show ?thesis unfolding 2(1) append_Cons append_Nil raw_pair [OF 2(2)] by simp
  qed (simp only: raw_hex_escape [OF assms(2)])
qed

lemma unquote_hex:
  assumes "byte c < 128"
  shows "unquote (hex_escape c @ s) = c # unquote s"
proof -
  let ?x = "byte c div 16" and ?y = "byte c mod 16"
  have xy: "?x < 16" "?y < 16" by (simp_all add: less_mult_imp_div_less)
  let ?t = "CHR ''0'' # CHR ''0'' # hex_digits ! ?x # hex_digits ! ?y # s"
  have four': "take 4 ?t = [CHR ''0'', CHR ''0'', hex_digits ! ?x, hex_digits ! ?y]" "drop 4 ?t = s"
    by (simp_all only: four take_Suc_Cons take_0 drop_Suc_Cons drop_0)
  have "hex4 ?t = 16 * ?x + ?y"
    by (simp only: hex4_def four' foldl.simps hex_value_zero hex_value_digit [OF xy(1)]
        hex_value_digit [OF xy(2)] option.case) simp
  then have h: "hex4 ?t = byte c" by simp
  have "unicode_escape ?t = (byte c, 4)"
    unfolding unicode_escape_def Let_def h using assms by simp
  moreover have "encode_rune (byte c) = [c]" using assms by (simp add: encode_rune_def Let_def)
  moreover have "unquote (CHR 0x5C # CHR ''u'' # ?t) =
      encode_rune (fst (unicode_escape ?t)) @ unquote (drop (snd (unicode_escape ?t)) ?t)"
    by (simp add: is_backslash_def)
  ultimately show ?thesis
    unfolding hex_escape_eq append_Cons append_Nil by (simp only: fst_conv snd_conv four' append_Cons append_Nil)
qed

lemma byte_eqD: "byte c = n \<Longrightarrow> byte d = n \<Longrightarrow> c = d"
  by (metis of_char_eq_iff)

lemma unquote_escape:
  assumes "byte c < 128"
  shows "unquote (json_escape c @ s) = c # unquote s"
proof -
  have pair: "unquote (CHR 0x5C # d # s) = simple_escape d # unquote s" if "d \<noteq> CHR ''u''" for d
    using that by (simp add: is_backslash_def)
  consider (dquote) "c = CHR 0x22" | (bslash) "c = CHR 0x5C" | (c8) "byte c = 8" | (c12) "byte c = 12"
    | (c10) "byte c = 10" | (c13) "byte c = 13" | (c9) "byte c = 9" | (hex) "json_escape c = hex_escape c"
    | (plain) "json_escape c = [c]" "c \<noteq> CHR 0x5C"
  proof -
    have "c = CHR 0x22 \<or> c = CHR 0x5C \<or> byte c = 8 \<or> byte c = 12 \<or> byte c = 10 \<or> byte c = 13 \<or> byte c = 9 \<or>
        json_escape c = hex_escape c \<or> (json_escape c = [c] \<and> c \<noteq> CHR 0x5C)"
      by (simp add: json_escape_def)
    then show thesis using that by blast
  qed
  then show ?thesis
  proof cases
    case plain
    then show ?thesis using assms by (simp add: is_backslash_def rune_width_ascii)
  next
    case hex
    then show ?thesis by (simp only: unquote_hex [OF assms])
  next
    case c8
    then have "c = CHR 0x08" by (rule byte_eqD) simp
    then show ?thesis by (simp add: json_escape_def pair simple_escape_def del: unquote.simps)
  next
    case c12
    then have "c = CHR 0x0C" by (rule byte_eqD) simp
    then show ?thesis by (simp add: json_escape_def pair simple_escape_def del: unquote.simps)
  next
    case c10
    then have "c = CHR 0x0A" by (rule byte_eqD) simp
    then show ?thesis by (simp add: json_escape_def pair simple_escape_def del: unquote.simps)
  next
    case c13
    then have "c = CHR 0x0D" by (rule byte_eqD) simp
    then show ?thesis by (simp add: json_escape_def pair simple_escape_def del: unquote.simps)
  next
    case c9
    then have "c = CHR 0x09" by (rule byte_eqD) simp
    then show ?thesis by (simp add: json_escape_def pair simple_escape_def del: unquote.simps)
  qed (simp_all add: json_escape_def pair simple_escape_def del: unquote.simps)
qed

subsection \<open>Properties\<close>

lemma raw_escaped_string:
  "list_all is_ascii s \<Longrightarrow>
     raw_string (concat (map json_escape s) @ quote_char # r) = Done (concat (map json_escape s)) r"
proof (induction s)
  case Nil
  then show ?case by (cases r) (simp_all add: quote_char_def)
next
  case (Cons c s)
  then have "byte c < 128" by (simp add: is_ascii_def)
  from raw_escape [OF this, of "concat (map json_escape s) @ quote_char # r"] Cons show ?case
    by (simp del: raw_string.simps)
qed

lemma unquote_escaped: "list_all is_ascii s \<Longrightarrow> unquote (concat (map json_escape s)) = s"
  by (induction s) (simp_all add: unquote_escape is_ascii_def del: unquote.simps(2))

text \<open>How a string that is written by \<open>json_string\<close> is read.\<close>

definition written_string :: "string \<Rightarrow> jval" where
  "written_string s = string_literal (concat (map json_escape s)) s"

lemma decode_written_string [simp]: "decode_string cur (written_string s) = Some s"
  "string_of_value (written_string s) = Some s" "written_string s \<noteq> VNull" "\<not> container (written_string s)"
  by (simp_all add: written_string_def string_literal_def decode_string_def container_def)

lemma literal_written_string: "literal_of_value (written_string s) = Some (concat (map json_escape s))"
  by (simp add: written_string_def string_literal_def)

text \<open>
  A JSON string written by the server reads back as the same text: every ASCII string,
  control characters, quotes and HTML characters included, survives \<open>json_string\<close> followed by the
  scanner and \<open>unquote\<close>, and the scanner stops right after its closing quote.
\<close>

theorem json_string_roundtrip:
  assumes "list_all is_ascii s"
  shows "parse_value (json_string s @ r) = Done (written_string s) r"
proof -
  have "scan_map (\<lambda>raw. string_literal raw (unquote raw)) (raw_string (concat (map json_escape s) @ quote_char # r)) =
      Done (written_string s) r"
    using assms by (simp add: raw_escaped_string unquote_escaped written_string_def)
  moreover have "skip_ws (quote_char # t) = quote_char # t" for t
    by (simp add: skip_ws_def json_space_def quote_char_def)
  ultimately show ?thesis
    by (simp add: parse_value_def json_string_def) (simp add: quote_char_def)
qed

theorem json_string_roundtrip_witness:
  "parse_value (json_string [CHR ''a'', CHR 0x22, CHR 0x0A, CHR ''<''] @ '', x'') =
     Done (written_string [CHR ''a'', CHR 0x22, CHR 0x0A, CHR ''<'']) '', x''"
  by (rule json_string_roundtrip) (simp add: is_ascii_def)

end
