(* ===== verification/GoUrl.thy ===== *)
theory GoUrl
  imports GoEncoding
begin

text \<open>
  What the code uses of \<open>net/url\<close>: reading a query string (\<open>URL.Query().Get\<close>, which drops the
  pairs that do not parse) and escaping a query value or a path segment.
\<close>

fun query_unescape :: "string \<Rightarrow> string option" where
  "query_unescape [] = Some []"
| "query_unescape (c # cs) =
     (if c = CHR ''%'' then
        (case cs of a # b # r \<Rightarrow>
            (case (hex_value a, hex_value b, query_unescape r) of
               (Some x, Some y, Some t) \<Rightarrow> Some (char_of (16 * x + y) # t)
             | _ \<Rightarrow> None)
         | _ \<Rightarrow> None)
      else map_option (\<lambda>t. (if c = CHR ''+'' then CHR '' '' else c) # t) (query_unescape cs))"

definition query_pair :: "string \<Rightarrow> (string \<times> string) option" where
  "query_pair p =
     (if p = '''' \<or> CHR '';'' \<in> set p then None
      else (case (case split_first CHR ''='' p of None \<Rightarrow> (p, '''') | Some kv \<Rightarrow> kv) of
              (k, v) \<Rightarrow> (case (query_unescape k, query_unescape v) of
                 (Some k', Some v') \<Rightarrow> Some (k', v')
               | _ \<Rightarrow> None)))"

definition parse_query :: "string \<Rightarrow> (string \<times> string) list" where
  "parse_query raw = List.map_filter query_pair (split_char CHR ''&'' raw)"

definition query_get :: "string \<Rightarrow> string \<Rightarrow> string" where
  "query_get key raw = (case map_of (parse_query raw) key of None \<Rightarrow> '''' | Some v \<Rightarrow> v)"

definition upper_hex :: string where "upper_hex = ''0123456789ABCDEF''"

text \<open>The characters neither a query value nor a path segment escapes.\<close>

definition unreserved :: "char \<Rightarrow> bool" where
  "unreserved c \<longleftrightarrow> is_lower c \<or> is_upper c \<or> is_digit c \<or> c \<in> set ''-_.~''"

definition percent :: "char \<Rightarrow> string" where
  "percent c = [CHR ''%'', upper_hex ! (byte c div 16), upper_hex ! (byte c mod 16)]"

definition query_escape :: "string \<Rightarrow> string" where
  "query_escape s =
     concat (map (\<lambda>c. if unreserved c then [c] else if c = CHR '' '' then ''+'' else percent c) s)"

definition path_escape :: "string \<Rightarrow> string" where
  "path_escape s =
     concat (map (\<lambda>c. if unreserved c \<or> c \<in> set ''$&+=:@'' then [c] else percent c) s)"

lemma query_unescape_percent: "query_unescape (percent c @ s) = map_option (\<lambda>t. c # t) (query_unescape s)"
proof -
  have "list_all (\<lambda>n. hex_value (upper_hex ! n) = Some n) [0..<16 :: nat]" by code_simp
  then have h: "n < 16 \<Longrightarrow> hex_value (upper_hex ! n) = Some n" for n by (auto simp: list_all_iff)
  have xy: "byte c div 16 < 16" "byte c mod 16 < 16" by (simp_all add: less_mult_imp_div_less)
  show ?thesis
    by (cases "query_unescape s") (simp_all add: percent_def h [OF xy(1)] h [OF xy(2)])
qed

text \<open>A value written into a query reads back.\<close>

lemma query_roundtrip: "query_unescape (query_escape s) = Some s"
proof (induction s)
  case (Cons c s)
  have "c \<noteq> CHR ''%'' \<and> c \<noteq> CHR ''+''" if "unreserved c"
    using that by (auto simp: unreserved_def char_class_defs)
  then show ?case
    using Cons by (auto simp: query_escape_def query_unescape_percent)
qed (simp add: query_escape_def)

end
