(* ===== verification/GoTime.thy ===== *)
theory GoTime
  imports Json
begin

text \<open>
  Go's \<open>time.Duration\<close>, a signed 64-bit number of nanoseconds, kept here as an \<open>int\<close>:
  \<open>time.ParseDuration\<close>, \<open>Duration.String\<close> and the conversions by division.  The one step that Go
  does in floating point, the value of the digits after a decimal point, is the parameter
  \<open>frac\<close> (digits, power of ten, unit).
\<close>

type_synonym duration = int

abbreviation ns_per_sec :: int where "ns_per_sec \<equiv> 1000000000"

abbreviation max_int64 :: int where "max_int64 \<equiv> 2 ^ 63 - 1"

type_synonym frac_fun = "nat \<Rightarrow> nat \<Rightarrow> nat \<Rightarrow> nat"

subsection \<open>time.ParseDuration\<close>

text \<open>The micro sign is accepted in both of its encodings.\<close>

definition duration_units :: "(string \<times> nat) list" where
  "duration_units =
     [(''ns'', 1), (''us'', 1000), ([char_of (0xC2 :: nat), char_of (0xB5 :: nat), CHR ''s''], 1000),
      ([char_of (0xCE :: nat), char_of (0xBC :: nat), CHR ''s''], 1000), (''ms'', 1000000),
      (''s'', 1000000000), (''m'', 60 * 1000000000), (''h'', 3600 * 1000000000)]"

fun leading_fraction :: "nat \<Rightarrow> nat \<Rightarrow> bool \<Rightarrow> string \<Rightarrow> nat \<times> nat" where
  "leading_fraction x scale overflow [] = (x, scale)"
| "leading_fraction x scale overflow (c # cs) =
     (let y = 10 * x + (byte c - byte CHR ''0'')
      in if overflow \<or> (2 ^ 63 - 1) div 10 < x \<or> 2 ^ 63 < y
         then leading_fraction x scale True cs
         else leading_fraction y (10 * scale) False cs)"

definition unit_char :: "char \<Rightarrow> bool" where
  "unit_char c \<longleftrightarrow> c \<noteq> CHR ''.'' \<and> \<not> is_digit c"

text \<open>One element of the text, such as \<open>1.5h\<close>: its value and what follows it.\<close>

definition duration_element :: "frac_fun \<Rightarrow> string \<Rightarrow> (nat \<times> string) option" where
  "duration_element frac s =
     (let whole = takeWhile is_digit s; s1 = dropWhile is_digit s;
          dot = prefix ''.'' s1; fdigits = (if dot then takeWhile is_digit (tl s1) else []);
          s2 = (if dot then dropWhile is_digit (tl s1) else s1);
          u = takeWhile unit_char s2; rest = dropWhile unit_char s2; v = dec_value whole
      in if 2 ^ 63 < v \<or> (whole = [] \<and> fdigits = []) \<or> u = [] then None
         else (case map_of duration_units u of
                 None \<Rightarrow> None
               | Some unit \<Rightarrow>
                   if 2 ^ 63 div unit < v then None
                   else (let (f, scale) = leading_fraction 0 1 False fdigits;
                             v' = v * unit + (if 0 < f then frac f scale unit else 0)
                         in if 2 ^ 63 < v' then None else Some (v', rest))))"

lemma length_dropWhile_less: "takeWhile P xs \<noteq> [] \<Longrightarrow> length (dropWhile P xs) < length xs"
  by (cases xs) (auto simp: le_imp_less_Suc length_dropWhile_le split: if_splits)

lemma duration_element_shorter: "duration_element frac s = Some (v, rest) \<Longrightarrow> length rest < length s"
proof -
  assume h: "duration_element frac s = Some (v, rest)"
  let ?s1 = "dropWhile is_digit s"
  let ?s2 = "if prefix ''.'' ?s1 then dropWhile is_digit (tl ?s1) else ?s1"
  from h have u: "takeWhile unit_char ?s2 \<noteq> []" and r: "rest = dropWhile unit_char ?s2"
    by (auto simp: duration_element_def Let_def split: if_splits option.splits prod.splits)
  have "length ?s2 \<le> length s"
    using length_dropWhile_le [of is_digit s] length_dropWhile_le [of is_digit "tl ?s1"] by auto
  with length_dropWhile_less [OF u] r show ?thesis by simp
qed

function duration_sum :: "frac_fun \<Rightarrow> nat \<Rightarrow> string \<Rightarrow> nat option" where
  "duration_sum frac d s =
     (if s = [] then Some d
      else (case duration_element frac s of
              None \<Rightarrow> None
            | Some (v, rest) \<Rightarrow> if 2 ^ 63 < d + v then None else duration_sum frac (d + v) rest))"
  by pat_completeness auto
termination
  by (relation "measure (\<lambda>(frac, d, s). length s)") (auto simp: duration_element_shorter)

declare duration_sum.simps [simp del]

definition parse_duration :: "frac_fun \<Rightarrow> string \<Rightarrow> duration option" where
  "parse_duration frac s =
     (let neg = prefix ''-'' s; s1 = (if prefix ''-'' s \<or> prefix ''+'' s then tl s else s)
      in if s1 = ''0'' then Some 0
         else if s1 = [] then None
         else (case duration_sum frac 0 s1 of
                 None \<Rightarrow> None
               | Some d \<Rightarrow> if neg then Some (- int d)
                            else if 2 ^ 63 - 1 < d then None else Some (int d)))"

lemma duration_sum_bound: "d \<le> 2 ^ 63 \<Longrightarrow> duration_sum frac d s = Some n \<Longrightarrow> n \<le> 2 ^ 63"
proof (induction frac d s rule: duration_sum.induct)
  case (1 frac d s)
  show ?case
  proof (cases "s = []")
    case True
    with "1.prems" show ?thesis by (simp add: duration_sum.simps [of frac d "[]"])
  next
    case False
    with "1.prems"(2) duration_sum.simps [of frac d s]
    have step: "(case duration_element frac s of None \<Rightarrow> None
      | Some (v, rest) \<Rightarrow> if 2 ^ 63 < d + v then None else duration_sum frac (d + v) rest) = Some n"
      by simp
    then obtain p where e: "duration_element frac s = Some p"
      by (cases "duration_element frac s") simp_all
    obtain v rest where p: "p = (v, rest)" by (cases p)
    from step e p have v: "\<not> 2 ^ 63 < d + v" and r: "duration_sum frac (d + v) rest = Some n"
      by (simp_all split: if_splits)
    show ?thesis using "1.IH" [OF False e p [symmetric] v] v r by simp
  qed
qed

text \<open>A parsed duration fits in 64 bits.\<close>

lemma parse_duration_int64:
  assumes "parse_duration frac s = Some d"
  shows "- (2 ^ 63) \<le> d \<and> d \<le> max_int64"
proof (cases "d = 0")
  case False
  with assms obtain n s1 where n: "duration_sum frac 0 s1 = Some n"
    and d: "d = - int n \<or> (d = int n \<and> n \<le> 2 ^ 63 - 1)"
    by (auto simp: parse_duration_def Let_def split: if_splits option.splits)
  from duration_sum_bound [OF _ n] have "int n \<le> 2 ^ 63" by simp
  with d show ?thesis by auto
qed simp

subsection \<open>Duration.String\<close>

fun strip_zeros :: "string \<Rightarrow> string" where
  "strip_zeros s = rev (dropWhile (\<lambda>c. c = CHR ''0'') (rev s))"

definition pad_zeros :: "nat \<Rightarrow> nat \<Rightarrow> string" where
  "pad_zeros k n = replicate (k - length (show_nat n)) CHR ''0'' @ show_nat n"

text \<open>\<open>v / 10^k\<close> in decimal, without trailing zeros.\<close>

definition show_frac :: "nat \<Rightarrow> nat \<Rightarrow> string" where
  "show_frac v k =
     (let f = strip_zeros (pad_zeros k (v mod 10 ^ k)) in if f = [] then [] else ''.'' @ f)"

definition show_magnitude :: "nat \<Rightarrow> string" where
  "show_magnitude u =
     (if u < 1000 then show_nat u @ ''ns''
      else if u < 1000000 then show_nat (u div 1000) @ show_frac u 3 @ [char_of (0xC2 :: nat), char_of (0xB5 :: nat), CHR ''s'']
      else if u < 1000000000 then show_nat (u div 1000000) @ show_frac u 6 @ ''ms''
      else (let secs = u div 1000000000; mins = secs div 60; hours = mins div 60
            in (if 0 < mins then (if 0 < hours then show_nat hours @ ''h'' else []) @ show_nat (mins mod 60) @ ''m'' else [])
               @ show_nat (secs mod 60) @ show_frac u 9 @ ''s''))"

definition show_duration :: "duration \<Rightarrow> string" where
  "show_duration d =
     (if d = 0 then ''0s'' else if d < 0 then ''-'' @ show_magnitude (nat (- d)) else show_magnitude (nat d))"

lemma show_duration_day: "show_duration (24 * 3600 * ns_per_sec) = ''24h0m0s''"
  by (simp add: show_duration_def show_magnitude_def show_frac_def pad_zeros_def show_nat.simps
      Let_def)

end
