(* ===== verification/GoDate.thy ===== *)
theory GoDate
  imports GoTime "HOL-Library.Monad_Syntax"
begin

text \<open>
  What the server uses of \<open>time.Time\<close> in JSON: the RFC 3339 text of a database timestamp
  (\<open>MarshalJSON\<close>) and the reading of such a text (\<open>UnmarshalJSON\<close>).  The time zone of the process
  is the parameter \<open>zone\<close>, the offset from UTC in minutes at an instant.
\<close>

subsection \<open>The civil calendar\<close>

text \<open>
  Days are counted from 1 January 1970.  Years are taken to begin in March, so that the leap day
  is the last of its year; 719468 days lie between 1 March of year 0 and the origin.
\<close>

definition march_split :: "int \<Rightarrow> int \<times> int" where
  "march_split z =
     (let a = z div 146097; r1 = z mod 146097;
          b = min 3 (r1 div 36524); r2 = r1 - b * 36524;
          c = r2 div 1461; r3 = r2 mod 1461;
          d = min 3 (r3 div 365)
      in (400 * a + 100 * b + 4 * c + d, r3 - d * 365))"

definition civil_of_days :: "int \<Rightarrow> int \<times> int \<times> int" where
  "civil_of_days days =
     (let (my, yday) = march_split (days + 719468);
          mp = (5 * yday + 2) div 153;
          day = yday - (153 * mp + 2) div 5 + 1;
          month = (if mp < 10 then mp + 3 else mp - 9)
      in (if month \<le> 2 then my + 1 else my, month, day))"

definition days_of_civil :: "int \<Rightarrow> int \<Rightarrow> int \<Rightarrow> int" where
  "days_of_civil y m d =
     (let my = (if m \<le> 2 then y - 1 else y);
          mp = (if 2 < m then m - 3 else m + 9);
          yday = (153 * mp + 2) div 5 + d - 1
      in 365 * my + my div 4 - my div 100 + my div 400 + yday - 719468)"

definition leap_year :: "int \<Rightarrow> bool" where
  "leap_year y \<longleftrightarrow> 4 dvd y \<and> (\<not> 100 dvd y \<or> 400 dvd y)"

definition days_in_month :: "int \<Rightarrow> int \<Rightarrow> int" where
  "days_in_month y m =
     (if m = 2 then (if leap_year y then 29 else 28)
      else if m \<in> {4, 6, 9, 11} then 30 else 31)"

subsection \<open>Formatting\<close>

definition pad_int :: "nat \<Rightarrow> int \<Rightarrow> string" where
  "pad_int k n = pad_zeros k (nat n)"

definition show_zone :: "int \<Rightarrow> string" where
  "show_zone off =
     (if off = 0 then ''Z''
      else (if off < 0 then ''-'' else ''+'') @ pad_int 2 (\<bar>off\<bar> div 60) @ '':'' @ pad_int 2 (\<bar>off\<bar> mod 60))"

text \<open>A timestamp in microseconds; no text for a year outside of four digits.\<close>

definition rfc3339 :: "(time \<Rightarrow> int) \<Rightarrow> time \<Rightarrow> string option" where
  "rfc3339 zone t =
     (let loc = t + zone t * 60 * usec_per_sec;
          (y, m, d) = civil_of_days (loc div usec_per_day);
          us = loc mod usec_per_day; secs = us div usec_per_sec
      in if y < 0 \<or> 9999 < y then None
         else Some (pad_int 4 y @ ''-'' @ pad_int 2 m @ ''-'' @ pad_int 2 d @ ''T'' @
                    pad_int 2 (secs div 3600) @ '':'' @ pad_int 2 (secs div 60 mod 60) @ '':'' @
                    pad_int 2 (secs mod 60) @ show_frac (nat (us mod usec_per_sec)) 6 @ show_zone (zone t)))"

subsection \<open>Reading\<close>

text \<open>A number of exactly \<open>k\<close> digits within bounds, and what follows it.\<close>

definition fixed :: "nat \<Rightarrow> int \<Rightarrow> int \<Rightarrow> string \<Rightarrow> (int \<times> string) option" where
  "fixed k lo hi s =
     (let ds = take k s; v = int (dec_value ds)
      in if length ds = k \<and> list_all is_digit ds \<and> lo \<le> v \<and> v \<le> hi then Some (v, drop k s) else None)"

fun sep :: "char \<Rightarrow> string \<Rightarrow> string option" where
  "sep c [] = None"
| "sep c (x # s) = (if x = c then Some s else None)"

definition read_frac :: "string \<Rightarrow> int \<times> string" where
  "read_frac s =
     (case s of
        p # c # r \<Rightarrow>
          if p = CHR ''.'' \<and> is_digit c
          then (let ds = take 9 (takeWhile is_digit (c # r))
                in (int (dec_value ds * 10 ^ (9 - length ds)), dropWhile is_digit (c # r)))
          else (0, s)
      | _ \<Rightarrow> (0, s))"

definition read_zone :: "string \<Rightarrow> int option" where
  "read_zone s =
     (if s = ''Z'' then Some 0
      else (case s of
              [] \<Rightarrow> None
            | sign # r \<Rightarrow>
                do {
                  (hr, r1) \<leftarrow> fixed 2 0 23 r;
                  r2 \<leftarrow> sep CHR '':'' r1;
                  (mm, r3) \<leftarrow> fixed 2 0 59 r2;
                  if r3 \<noteq> [] then None
                  else if sign = CHR ''+'' then Some (hr * 60 + mm)
                  else if sign = CHR ''-'' then Some (- (hr * 60 + mm))
                  else None
                }))"

text \<open>The instant in nanoseconds.\<close>

definition parse_rfc3339 :: "string \<Rightarrow> int option" where
  "parse_rfc3339 s0 =
     do {
       (y, s) \<leftarrow> fixed 4 0 9999 s0; s \<leftarrow> sep CHR ''-'' s;
       (m, s) \<leftarrow> fixed 2 1 12 s; s \<leftarrow> sep CHR ''-'' s;
       (d, s) \<leftarrow> fixed 2 1 (days_in_month y m) s; s \<leftarrow> sep CHR ''T'' s;
       (hr, s) \<leftarrow> fixed 2 0 23 s; s \<leftarrow> sep CHR '':'' s;
       (mi, s) \<leftarrow> fixed 2 0 59 s; s \<leftarrow> sep CHR '':'' s;
       (sc, s) \<leftarrow> fixed 2 0 59 s;
       (let (ns, s) = read_frac s
        in do {
             off \<leftarrow> read_zone s;
             Some ((((days_of_civil y m d * 24 + hr) * 60 + mi - off) * 60 + sc) * 1000000000 + ns)
           })
     }"

subsection \<open>The calendar reads back\<close>

lemma leap_year_quarter:
  assumes "0 \<le> c" "c < 24"
  shows "leap_year (400 * a + 100 * b + 4 * (c + 1))" (is "leap_year ?y")
proof -
  have "\<not> 100 dvd ?y"
  proof
    assume "100 dvd ?y"
    then obtain k where "?y = 100 * k" by (rule dvdE)
    then have k: "c + 1 = 25 * (k - 4 * a - b)" by simp
    show False using k assms by (cases "1 \<le> k - 4 * a - b") simp_all
  qed
  moreover have "4 dvd ?y" by simp
  ultimately show ?thesis by (simp add: leap_year_def)
qed

text \<open>The number of the year in its cycle, and the day in its year, of days counted from 1 March.\<close>

lemma last_year_day:
  fixes r3 :: int
  assumes "0 \<le> r3" "r3 \<le> 1460" and d: "d = min 3 (r3 div 365)" and yday: "yday = r3 - d * 365"
  shows "0 \<le> d \<and> d \<le> 3 \<and> 0 \<le> yday \<and> yday \<le> 365 \<and> (yday = 365 \<longrightarrow> d = 3 \<and> r3 = 1460)"
proof (cases "3 \<le> r3 div 365")
  case True
  then have "d = 3" by (simp add: d)
  moreover have "1095 \<le> r3" using True by linarith
  ultimately show ?thesis using assms by simp
next
  case False
  then have "d = r3 div 365" by (simp add: d)
  moreover have "yday = r3 mod 365" by (simp add: yday calculation minus_div_mult_eq_mod)
  ultimately show ?thesis
    using assms(1,2) False by (simp add: pos_imp_zdiv_nonneg_iff zmod_le_nonneg_dividend less_imp_le less_imp_neq)
qed

lemma march_split_correct:
  assumes "march_split z = (my, yday)"
  shows "365 * my + my div 4 - my div 100 + my div 400 + yday = z" "0 \<le> yday" "yday \<le> 365"
    and "yday = 365 \<Longrightarrow> leap_year (my + 1)"
proof -
  define a r1 where "a = z div 146097" and "r1 = z mod 146097"
  define b where "b = min 3 (r1 div 36524)"
  define r2 where "r2 = r1 - b * 36524"
  define c r3 where "c = r2 div 1461" and "r3 = r2 mod 1461"
  define d where "d = min 3 (r3 div 365)"
  have my: "my = 400 * a + 100 * b + 4 * c + d" and yday: "yday = r3 - d * 365"
    using assms unfolding march_split_def Let_def a_def [symmetric] r1_def [symmetric] b_def [symmetric]
      r2_def [symmetric] c_def [symmetric] r3_def [symmetric] d_def [symmetric] prod.inject
    by (blast intro: sym)+
  have r1: "0 \<le> r1" "r1 \<le> 146096" "z = 146097 * a + r1" by (simp_all add: r1_def a_def)
  have b: "0 \<le> b" "b \<le> 3" "0 \<le> r2" "r2 \<le> 36524" "b \<le> 2 \<Longrightarrow> r2 \<le> 36523"
    using r1 unfolding r2_def b_def by linarith+
  have c: "0 \<le> c" "c \<le> 24" "0 \<le> r3" "r3 \<le> 1460" "r2 = 1461 * c + r3"
    using b by (auto simp: c_def r3_def)
  note d = last_year_day [OF c(3,4) d_def yday]
  show "0 \<le> yday" "yday \<le> 365" using d by simp_all
  have "my div 4 = 100 * a + 25 * b + c" using d unfolding my by linarith
  moreover have "my div 100 = 4 * a + b" using c d unfolding my by linarith
  moreover have "my div 400 = a" using b c d unfolding my by linarith
  ultimately show "365 * my + my div 4 - my div 100 + my div 400 + yday = z"
    using r1 b c by (simp add: my yday r2_def)
  assume "yday = 365"
  with d have d3: "d = 3" "r3 = 1460" by auto
  have my1: "my + 1 = 400 * a + 100 * b + 4 * (c + 1)" using d3 by (simp add: my)
  show "leap_year (my + 1)"
  proof (cases "c = 24")
    case True
    with c d3 b have "b = 3" by (cases "b \<le> 2") auto
    with True my1 have "my + 1 = 400 * (a + 1)" by simp
    then show ?thesis by (simp add: leap_year_def)
  next
    case False
    with c show ?thesis unfolding my1 by (intro leap_year_quarter) simp_all
  qed
qed

definition month_ok :: "int \<Rightarrow> bool" where
  "month_ok yday =
     (let mp = (5 * yday + 2) div 153; day = yday - (153 * mp + 2) div 5 + 1;
          m = (if mp < 10 then mp + 3 else mp - 9)
      in 1 \<le> m \<and> m \<le> 12 \<and> 1 \<le> day \<and> (if 2 < m then m - 3 else m + 9) = mp \<and>
         day \<le> (if m = 2 then (if yday = 365 then 29 else 28) else if m \<in> {4, 6, 9, 11} then 30 else 31))"

lemma month_ok: "0 \<le> yday \<Longrightarrow> yday \<le> 365 \<Longrightarrow> month_ok yday"
proof -
  assume y: "0 \<le> yday" "yday \<le> 365"
  define mp where "mp = (5 * yday + 2) div 153"
  have b: "153 * mp \<le> 5 * yday + 2" "5 * yday + 2 < 153 * mp + 153" by (simp_all add: mp_def)
  with y have "0 \<le> mp" "mp \<le> 11" by linarith+
  then have "mp \<in> {0, 1, 2, 3, 4, 5, 6, 7, 8, 9, 10, 11}" by simp presburger
  then show ?thesis
    unfolding month_ok_def Let_def mp_def [symmetric] using y b by (elim insertE emptyE) simp_all
qed

lemma civil_roundtrip:
  assumes "civil_of_days days = (y, m, d)"
  shows "days_of_civil y m d = days" "1 \<le> m" "m \<le> 12" "1 \<le> d" "d \<le> days_in_month y m"
proof -
  obtain my yday where ms: "march_split (days + 719468) = (my, yday)" by (cases "march_split (days + 719468)")
  note c = march_split_correct [OF ms]
  note ok = month_ok [OF c(2,3), unfolded month_ok_def Let_def]
  define mp where "mp = (5 * yday + 2) div 153"
  have m: "m = (if mp < 10 then mp + 3 else mp - 9)" and d: "d = yday - (153 * mp + 2) div 5 + 1"
    and y: "y = (if m \<le> 2 then my + 1 else my)"
    using assms by (auto simp: civil_of_days_def ms Let_def mp_def)
  note ok = ok [folded mp_def, folded m d]
  show "1 \<le> m" "m \<le> 12" "1 \<le> d" using ok by auto
  show "days_of_civil y m d = days"
    using ok c(1) by (simp add: days_of_civil_def y Let_def d)
  show "d \<le> days_in_month y m"
    using ok c(4) by (auto simp: days_in_month_def y split: if_splits)
qed

subsection \<open>The text reads back\<close>

lemma dec_value_zeros: "dec_value (replicate j CHR ''0'' @ s) = dec_value s"
proof (induction s rule: rev_induct)
  case Nil
  show ?case
  proof (induction j)
    case (Suc j)
    have "replicate (Suc j) CHR ''0'' = replicate j CHR ''0'' @ [CHR ''0'']"
      by (simp add: replicate_append_same)
    with Suc show ?case by (simp only: append_Nil2 dec_value_snoc) (simp add: dec_value_def)
  qed simp
next
  case (snoc c s)
  then show ?case by (simp add: dec_value_snoc flip: append_assoc)
qed

lemma dec_value_trailing: "dec_value (s @ replicate j CHR ''0'') = dec_value s * 10 ^ j"
proof (induction j)
  case (Suc j)
  have "s @ replicate (Suc j) CHR ''0'' = (s @ replicate j CHR ''0'') @ [CHR ''0'']"
    by (simp add: replicate_append_same)
  with Suc show ?case by (simp only: dec_value_snoc) simp
qed simp

lemma is_digit_0 [simp]: "is_digit CHR ''0''"
  by (simp add: is_digit_def in_range_def)

lemma pad_zeros_facts:
  assumes "n < 10 ^ k" "0 < k"
  shows "length (pad_zeros k n) = k" "list_all is_digit (pad_zeros k n)" "dec_value (pad_zeros k n) = n"
proof -
  obtain j where "k = Suc j" using assms(2) by (cases k) auto
  with assms(1) length_show_nat [of n j] have "length (show_nat n) \<le> k" by simp
  then show "length (pad_zeros k n) = k" by (simp add: pad_zeros_def)
  show "list_all is_digit (pad_zeros k n)"
    using show_nat_digits [of n] by (auto simp: pad_zeros_def list_all_iff)
  show "dec_value (pad_zeros k n) = n"
    by (simp add: pad_zeros_def dec_value_zeros dec_value_show_nat)
qed

lemma fixed_pad:
  assumes "0 < k" "0 \<le> n" "n < 10 ^ k" "lo \<le> n" "n \<le> hi"
  shows "fixed k lo hi (pad_int k n @ r) = Some (n, r)"
proof -
  have "nat n < 10 ^ k" using assms(2,3) by (simp add: nat_less_iff)
  from pad_zeros_facts [OF this assms(1)] show ?thesis
    using assms by (simp add: fixed_def pad_int_def Let_def)
qed

lemma takeWhile_eq_replicate: "takeWhile (\<lambda>c. c = x) s = replicate (length (takeWhile (\<lambda>c. c = x) s)) x"
  by (induction s) auto

lemma strip_zeros_split: "\<exists>j. s = strip_zeros s @ replicate j CHR ''0''"
proof -
  let ?t = "takeWhile (\<lambda>c. c = CHR ''0'') (rev s)"
  have "s = rev (?t @ dropWhile (\<lambda>c. c = CHR ''0'') (rev s))" by simp
  then have "s = strip_zeros s @ rev ?t" by (simp only: rev_append strip_zeros.simps)
  moreover have "rev ?t = replicate (length ?t) CHR ''0''"
    by (subst takeWhile_eq_replicate) simp
  ultimately show ?thesis by metis
qed

text \<open>The fraction of a second, in microseconds, is read back as nanoseconds.\<close>

lemma read_show_frac:
  assumes "v < 1000000" and r: "r \<noteq> []" "\<not> is_digit (hd r)" "hd r \<noteq> CHR ''.''"
  shows "read_frac (show_frac v 6 @ r) = (int v * 1000, r)"
proof -
  let ?p = "pad_zeros 6 (v mod 10 ^ 6)"
  have v: "v mod 10 ^ 6 = v" using assms(1) by simp
  have p: "length ?p = 6" "list_all is_digit ?p" "dec_value ?p = v"
    using pad_zeros_facts [of v 6] assms(1) by (simp_all add: v)
  obtain j where j: "?p = strip_zeros ?p @ replicate j CHR ''0''" using strip_zeros_split by blast
  define f where "f = strip_zeros ?p"
  have pf: "?p = f @ replicate j CHR ''0''" using j by (simp only: f_def)
  have f: "list_all is_digit f" "length f + j = 6" "dec_value f * 10 ^ j = v"
    using p unfolding pf by (simp_all add: dec_value_trailing)
  have tw: "takeWhile is_digit (f @ r) = f" "dropWhile is_digit (f @ r) = r"
    using f(1) r by (auto simp: list_all_iff takeWhile_append takeWhile_eq_all_conv dropWhile_append neq_Nil_conv)
  show ?thesis
  proof (cases "f = []")
    case True
    with f(3) have "v = 0" by (simp add: dec_value_def)
    moreover have "show_frac v 6 = []" using True unfolding show_frac_def f_def by (simp add: Let_def)
    ultimately show ?thesis using r by (auto simp: read_frac_def neq_Nil_conv split: list.split)
  next
    case False
    then obtain c cs where c: "f = c # cs" by (cases f) auto
    have sf: "show_frac v 6 = CHR ''.'' # f"
      using False unfolding show_frac_def f_def [symmetric] Let_def by simp
    have "9 - length f = j + 3" using f(2) by simp
    then have "int (dec_value f) * 10 ^ (9 - length f) = int v * 1000"
      using f(3) [symmetric] by (simp add: power_add)
    moreover have "take 9 f = f" using f(2) by simp
    ultimately show ?thesis
      using tw f(1) unfolding sf read_frac_def by (simp add: c Let_def)
  qed
qed

lemma read_show_zone:
  assumes "\<bar>off\<bar> < 1440"
  shows "read_zone (show_zone off) = Some off"
proof (cases "off = 0")
  case False
  have "fixed 2 0 23 (pad_int 2 (\<bar>off\<bar> div 60) @ r) = Some (\<bar>off\<bar> div 60, r)" for r
  proof (rule fixed_pad)
    show "0 \<le> \<bar>off\<bar> div 60" by simp
    show "\<bar>off\<bar> div 60 \<le> 23" using assms by linarith
    then show "\<bar>off\<bar> div 60 < 10 ^ 2" by simp
  qed simp_all
  moreover have "fixed 2 0 59 (pad_int 2 (\<bar>off\<bar> mod 60)) = Some (\<bar>off\<bar> mod 60, [])"
    using fixed_pad [of 2 "\<bar>off\<bar> mod 60" 0 59 "[]"] pos_mod_bound [of 60 "\<bar>off\<bar>"] by simp
  ultimately show ?thesis
    using False by (auto simp: read_zone_def show_zone_def)
qed (simp add: read_zone_def show_zone_def)

lemma fixed_sep:
  assumes "0 < k" "0 \<le> n" "n < 10 ^ k" "lo \<le> n" "n \<le> hi"
  shows "fixed k lo hi (pad_int k n @ c # r) = Some (n, c # r)"
  by (rule fixed_pad [OF assms])

lemma show_zone_start: "show_zone off \<noteq> [] \<and> \<not> is_digit (hd (show_zone off)) \<and> hd (show_zone off) \<noteq> CHR ''.''"
  by (simp add: show_zone_def is_digit_def in_range_def)

lemma rfc3339_roundtrip:
  assumes t: "rfc3339 zone t = Some s" and z: "\<bar>zone t\<bar> < 1440"
  shows "parse_rfc3339 s = Some (t * 1000)"
proof -
  define loc where "loc = t + zone t * 60 * usec_per_sec"
  obtain y m d where c: "civil_of_days (loc div usec_per_day) = (y, m, d)" by (cases "civil_of_days (loc div usec_per_day)")
  define us secs where "us = loc mod usec_per_day" and "secs = us div usec_per_sec"
  define hr mi sc where "hr = secs div 3600" and "mi = secs div 60 mod 60" and "sc = secs mod 60"
  define fr where "fr = us mod usec_per_sec"
  have y: "0 \<le> y" "y \<le> 9999"
    and s: "s = pad_int 4 y @ CHR ''-'' # pad_int 2 m @ CHR ''-'' # pad_int 2 d @ CHR ''T'' # pad_int 2 hr @
       CHR '':'' # pad_int 2 mi @ CHR '':'' # pad_int 2 sc @ show_frac (nat fr) 6 @ show_zone (zone t)"
    using t unfolding rfc3339_def Let_def loc_def [symmetric] c us_def [symmetric] secs_def [symmetric]
      hr_def [symmetric] mi_def [symmetric] sc_def [symmetric] fr_def [symmetric]
    by (auto split: if_splits)
  note cv = civil_roundtrip [OF c]
  have "days_in_month y m \<le> 31" by (simp add: days_in_month_def)
  with cv have d99: "d < 100" by linarith
  have us: "0 \<le> us" "us < usec_per_day" by (simp_all add: us_def)
  then have secs: "0 \<le> secs" "secs < 86400" by (simp_all add: secs_def)
  then have hr: "0 \<le> hr" "hr \<le> 23" unfolding hr_def by linarith+
  have mi: "0 \<le> mi" "mi \<le> 59" unfolding mi_def by linarith+
  have sc: "0 \<le> sc" "sc \<le> 59" unfolding sc_def by linarith+
  have fr: "0 \<le> fr" "fr < 1000000" by (simp_all add: fr_def)
  have "hr = secs div 60 div 60" unfolding hr_def by (simp flip: zdiv_zmult2_eq)
  then have secs_eq: "secs = (hr * 60 + mi) * 60 + sc"
    using div_mult_mod_eq [of secs 60] div_mult_mod_eq [of "secs div 60" 60] by (simp only: mi_def sc_def)
  have us_eq: "us = secs * 1000000 + fr" by (simp add: secs_def fr_def)
  have loc_eq: "loc = loc div usec_per_day * usec_per_day + us" by (simp add: us_def)
  have f: "read_frac (show_frac (nat fr) 6 @ show_zone (zone t)) = (fr * 1000, show_zone (zone t))"
    using read_show_frac [of "nat fr" "show_zone (zone t)"] show_zone_start fr by simp
  have "parse_rfc3339 s =
      Some ((((days_of_civil y m d * 24 + hr) * 60 + mi - zone t) * 60 + sc) * 1000000000 + fr * 1000)"
    unfolding s parse_rfc3339_def
    using y cv d99 hr mi sc by (simp add: fixed_pad fixed_sep f read_show_zone [OF z])
  also have "\<dots> = Some (t * 1000)"
    using cv(1) secs_eq us_eq loc_eq by (simp add: loc_def)
  finally show ?thesis .
qed

end
