(* ===== verification/Config.thy ===== *)
theory Config
  imports GoTime
begin

text \<open>
  Server configuration (\<open>internal/config/config.go\<close>) and the tunnel identifiers
  (\<open>internal/server/tunnels/id.go\<close>) whose length the configuration allows for.  The process
  environment is a function from names to values, empty when a variable is not set, as for
  \<open>os.Getenv\<close>.  \<open>Load\<close> returns the configuration with the names of the variables whose value
  does not parse, in the order in which they are read.
\<close>

definition maxTunnelDomainLength :: nat where
  "maxTunnelDomainLength = 253 - 18 - 1"

record config =
  DatabaseURL :: string
  APIAddr :: string
  FRPSPluginAddr :: string
  APIReadTimeout :: duration
  APIWriteTimeout :: duration
  MaxRequestBytes :: int
  FRPSDomain :: string
  TunnelDomain :: string
  PluginSecret :: string
  FRPSAuthToken :: string
  PluginTimeout :: duration
  MaxConcurrent :: int
  MaxTTL :: duration
  RateCreatePerMin :: int
  LogUserConns :: bool
  FRPSMode :: string
  FRPSBinPath :: string
  FRPSConfigPath :: string
  EventsRetentionDays :: int
  IdempotencyRetentionHours :: int
  RuntimeTokenRetentionDays :: int

subsection \<open>Reading the environment\<close>

type_synonym environment = "string \<Rightarrow> string"

definition envString :: "environment \<Rightarrow> string \<Rightarrow> string \<Rightarrow> string" where
  "envString getenv key fallback = (if getenv key \<noteq> '''' then getenv key else fallback)"

text \<open>\<open>strconv.ParseBool\<close>\<close>

definition parse_bool :: "string \<Rightarrow> bool option" where
  "parse_bool s =
     (if s \<in> set [''1'', ''t'', ''T'', ''TRUE'', ''true'', ''True''] then Some True
      else if s \<in> set [''0'', ''f'', ''F'', ''FALSE'', ''false'', ''False''] then Some False
      else None)"

text \<open>A typed variable: its value, and its name when the text does not parse.\<close>

definition env_typed :: "(string \<Rightarrow> 'a option) \<Rightarrow> environment \<Rightarrow> string \<Rightarrow> 'a \<Rightarrow> 'a \<times> string list" where
  "env_typed parse getenv key fallback =
     (if getenv key \<noteq> '''' then
        (case parse (getenv key) of None \<Rightarrow> (fallback, [key]) | Some v \<Rightarrow> (v, []))
      else (fallback, []))"

definition envInt :: "environment \<Rightarrow> string \<Rightarrow> int \<Rightarrow> int \<times> string list" where
  "envInt = env_typed atoi"

definition envDuration :: "frac_fun \<Rightarrow> environment \<Rightarrow> string \<Rightarrow> duration \<Rightarrow> duration \<times> string list" where
  "envDuration frac = env_typed (parse_duration frac)"

definition envBool :: "environment \<Rightarrow> string \<Rightarrow> bool \<Rightarrow> bool \<times> string list" where
  "envBool = env_typed parse_bool"

definition Load :: "frac_fun \<Rightarrow> environment \<Rightarrow> config \<times> string list" where
  "Load frac getenv =
     (let (readTimeout, e1) = envDuration frac getenv ''HATCHWAY_API_READ_TIMEOUT'' (30 * ns_per_sec);
          (writeTimeout, e2) = envDuration frac getenv ''HATCHWAY_API_WRITE_TIMEOUT'' (30 * ns_per_sec);
          (maxBytes, e3) = envInt getenv ''HATCHWAY_MAX_REQUEST_BYTES'' (64 * 1024);
          (pluginTimeout, e4) = envDuration frac getenv ''HATCHWAY_PLUGIN_TIMEOUT'' (2 * ns_per_sec);
          (maxConcurrent, e5) = envInt getenv ''HATCHWAY_MAX_CONCURRENT_TUNNELS'' 5;
          (maxTTL, e6) = envDuration frac getenv ''HATCHWAY_MAX_TTL'' (24 * 3600 * ns_per_sec);
          (rate, e7) = envInt getenv ''HATCHWAY_RATE_CREATE_PER_MIN'' 10;
          (logConns, e8) = envBool getenv ''HATCHWAY_LOG_USER_CONNS'' False;
          (eventDays, e9) = envInt getenv ''HATCHWAY_EVENTS_RETENTION_DAYS'' 30;
          (idemHours, e10) = envInt getenv ''HATCHWAY_IDEMPOTENCY_RETENTION_HOURS'' 24;
          (tokenDays, e11) = envInt getenv ''HATCHWAY_RUNTIME_TOKEN_RETENTION_DAYS'' 7
      in (\<lparr>DatabaseURL = envString getenv ''DATABASE_URL'' '''',
           APIAddr = envString getenv ''HATCHWAY_API_ADDR'' '':9000'',
           FRPSPluginAddr = envString getenv ''HATCHWAY_FRPS_PLUGIN_ADDR'' '':9001'',
           APIReadTimeout = readTimeout,
           APIWriteTimeout = writeTimeout,
           MaxRequestBytes = maxBytes,
           FRPSDomain = envString getenv ''HATCHWAY_FRPS_DOMAIN'' '''',
           TunnelDomain = envString getenv ''HATCHWAY_TUNNEL_DOMAIN'' ''tunnel.example.com'',
           PluginSecret = envString getenv ''HATCHWAY_PLUGIN_SECRET'' '''',
           FRPSAuthToken = envString getenv ''HATCHWAY_FRPS_AUTH_TOKEN'' '''',
           PluginTimeout = pluginTimeout,
           MaxConcurrent = maxConcurrent,
           MaxTTL = maxTTL,
           RateCreatePerMin = rate,
           LogUserConns = logConns,
           FRPSMode = envString getenv ''HATCHWAY_FRPS_MODE'' ''external'',
           FRPSBinPath = envString getenv ''HATCHWAY_FRPS_BIN_PATH'' ''frps'',
           FRPSConfigPath = envString getenv ''HATCHWAY_FRPS_CONFIG_PATH'' '''',
           EventsRetentionDays = eventDays,
           IdempotencyRetentionHours = idemHours,
           RuntimeTokenRetentionDays = tokenDays\<rparr>,
          concat [e1, e2, e3, e4, e5, e6, e7, e8, e9, e10, e11]))"

subsection \<open>Validation\<close>

definition url_safe :: "char \<Rightarrow> bool" where
  "url_safe c \<longleftrightarrow> is_lower c \<or> is_upper c \<or> is_digit c \<or> c = CHR ''_'' \<or> c = CHR ''-''"

definition validServiceSecret :: "string \<Rightarrow> bool" where
  "validServiceSecret s \<longleftrightarrow> \<not> (length s < 32 \<or> 256 < length s) \<and> list_all url_safe s"

definition label_char :: "char \<Rightarrow> bool" where
  "label_char c \<longleftrightarrow> is_lower c \<or> is_upper c \<or> is_digit c \<or> c = CHR ''-''"

definition valid_label :: "string \<Rightarrow> bool" where
  "valid_label l \<longleftrightarrow>
     \<not> (length l = 0 \<or> 63 < length l \<or> hd l = CHR ''-'' \<or> last l = CHR ''-'') \<and> list_all label_char l"

definition validHostname :: "string \<Rightarrow> bool" where
  "validHostname s \<longleftrightarrow> \<not> (s = '''' \<or> 253 < length s) \<and> list_all valid_label (split_char CHR ''.'' s)"

datatype (plugins only: size code) config_error =
    MissingVars "string list" | BadPluginSecret | BadAuthToken | SameSecrets | BadTunnelDomain
  | LongTunnelDomain | BadFRPSDomain | BadMaxConcurrent int | BadMaxTTL duration
  | BadPluginTimeout duration | BadReadTimeout duration | BadWriteTimeout duration | BadRate int
  | BadMode string | NoFRPSConfig | NoFRPSBin | BadMaxBytes int | BadEventDays int
  | BadIdemHours int | BadTokenDays int

definition missing_vars :: "config \<Rightarrow> string list" where
  "missing_vars c =
     map snd (filter (\<lambda>(v, _). v = '''')
       [(DatabaseURL c, ''DATABASE_URL''), (PluginSecret c, ''HATCHWAY_PLUGIN_SECRET''),
        (FRPSAuthToken c, ''HATCHWAY_FRPS_AUTH_TOKEN''), (TunnelDomain c, ''HATCHWAY_TUNNEL_DOMAIN''),
        (FRPSDomain c, ''HATCHWAY_FRPS_DOMAIN'')])"

definition Validate :: "config \<Rightarrow> config_error + unit" where
  "Validate c =
     (if missing_vars c \<noteq> [] then Inl (MissingVars (missing_vars c))
      else if \<not> validServiceSecret (PluginSecret c) then Inl BadPluginSecret
      else if \<not> validServiceSecret (FRPSAuthToken c) then Inl BadAuthToken
      else if PluginSecret c = FRPSAuthToken c then Inl SameSecrets
      else if \<not> validHostname (TunnelDomain c) then Inl BadTunnelDomain
      else if maxTunnelDomainLength < length (TunnelDomain c) then Inl LongTunnelDomain
      else if \<not> validHostname (FRPSDomain c) then Inl BadFRPSDomain
      else if MaxConcurrent c \<le> 0 then Inl (BadMaxConcurrent (MaxConcurrent c))
      else if MaxTTL c < ns_per_sec then Inl (BadMaxTTL (MaxTTL c))
      else if PluginTimeout c \<le> 0 then Inl (BadPluginTimeout (PluginTimeout c))
      else if APIReadTimeout c \<le> 0 then Inl (BadReadTimeout (APIReadTimeout c))
      else if APIWriteTimeout c \<le> 0 then Inl (BadWriteTimeout (APIWriteTimeout c))
      else if RateCreatePerMin c \<le> 0 then Inl (BadRate (RateCreatePerMin c))
      else if FRPSMode c \<noteq> ''external'' \<and> FRPSMode c \<noteq> ''subprocess'' then Inl (BadMode (FRPSMode c))
      else if FRPSMode c = ''subprocess'' \<and> FRPSConfigPath c = '''' then Inl NoFRPSConfig
      else if FRPSMode c = ''subprocess'' \<and> FRPSBinPath c = '''' then Inl NoFRPSBin
      else if MaxRequestBytes c \<le> 0 then Inl (BadMaxBytes (MaxRequestBytes c))
      else if EventsRetentionDays c \<le> 0 then Inl (BadEventDays (EventsRetentionDays c))
      else if IdempotencyRetentionHours c \<le> 0 then Inl (BadIdemHours (IdempotencyRetentionHours c))
      else if RuntimeTokenRetentionDays c \<le> 0 then Inl (BadTokenDays (RuntimeTokenRetentionDays c))
      else Inr ())"

subsection \<open>Tunnel identifiers\<close>

definition crockfordAlphabet :: string where
  "crockfordAlphabet = ''abcdefghjkmnpqrstuvwxyz23456789''"

text \<open>\<open>draw i\<close> is the i-th result of \<open>rand.Int\<close>, None when the entropy source fails.\<close>

definition GenerateTunnelID :: "(nat \<Rightarrow> nat option) \<Rightarrow> string option" where
  "GenerateTunnelID draw =
     map_option (\<lambda>body. ''t-'' @ body)
       (those (map (\<lambda>i. map_option (\<lambda>n. crockfordAlphabet ! n) (draw i)) [0..<16]))"

lemma length_crockford: "length crockfordAlphabet = 31"
  by (simp add: crockfordAlphabet_def)

lemma crockford_chars: "c \<in> set crockfordAlphabet \<Longrightarrow> is_lower c \<or> is_digit c"
proof -
  assume c: "c \<in> set crockfordAlphabet"
  have "list_all (\<lambda>c. is_lower c \<or> is_digit c) crockfordAlphabet" by code_simp
  with c show ?thesis by (auto simp: list_all_iff)
qed

text \<open>The shape of an identifier, also the one that the request gate accepts.\<close>

definition tunnel_id_shape :: "string \<Rightarrow> bool" where
  "tunnel_id_shape t \<longleftrightarrow> (\<exists>body. t = ''t-'' @ body \<and> length body = 16 \<and> set body \<subseteq> set crockfordAlphabet)"

lemma GenerateTunnelID_shape:
  assumes "GenerateTunnelID draw = Some t" and "\<And>i n. draw i = Some n \<Longrightarrow> n < 31"
  shows "tunnel_id_shape t"
proof -
  from assms(1) obtain body where t: "t = ''t-'' @ body"
    and b: "those (map (\<lambda>i. map_option (\<lambda>n. crockfordAlphabet ! n) (draw i)) [0..<16]) = Some body"
    by (auto simp: GenerateTunnelID_def)
  from those_map_SomeD [OF b] assms(2) have "length body = 16 \<and> set body \<subseteq> set crockfordAlphabet"
    by (auto simp: length_crockford [symmetric])
  with t show ?thesis unfolding tunnel_id_shape_def by blast
qed

lemma tunnel_id_length: "tunnel_id_shape t \<Longrightarrow> length t = 18"
  by (auto simp: tunnel_id_shape_def)

lemma tunnel_id_chars: "tunnel_id_shape t \<Longrightarrow> c \<in> set t \<Longrightarrow> is_lower c \<or> is_digit c \<or> c = CHR ''-''"
proof -
  have t: "is_lower CHR ''t''" by code_simp
  assume "tunnel_id_shape t" "c \<in> set t"
  then show ?thesis using crockford_chars t by (fastforce simp: tunnel_id_shape_def)
qed

lemma tunnel_id_no_dot: "tunnel_id_shape t \<Longrightarrow> CHR ''.'' \<notin> set t"
  using tunnel_id_chars by (fastforce simp: char_class_defs)

lemma tunnel_id_label: "tunnel_id_shape t \<Longrightarrow> valid_label t"
proof -
  assume t: "tunnel_id_shape t"
  then obtain body where b: "t = ''t-'' @ body" "length body = 16" "set body \<subseteq> set crockfordAlphabet"
    unfolding tunnel_id_shape_def by blast
  then have "body \<noteq> []" by auto
  then have "last t \<in> set crockfordAlphabet" using b(1,3) last_in_set [of body] by auto
  then have "last t \<noteq> CHR ''-''" by (auto simp: crockfordAlphabet_def)
  then show ?thesis
    using b(1,2) tunnel_id_chars [OF t] by (auto simp: valid_label_def list_all_iff label_char_def)
qed

subsection \<open>Properties\<close>

lemma Validate_InrD:
  assumes "Validate c = Inr ()"
  shows "missing_vars c = []" "validServiceSecret (PluginSecret c)" "validServiceSecret (FRPSAuthToken c)"
    "PluginSecret c \<noteq> FRPSAuthToken c" "validHostname (TunnelDomain c)"
    "length (TunnelDomain c) \<le> maxTunnelDomainLength" "validHostname (FRPSDomain c)"
    "0 < MaxConcurrent c" "ns_per_sec \<le> MaxTTL c" "0 < PluginTimeout c" "0 < RateCreatePerMin c"
    "0 < MaxRequestBytes c" "0 < EventsRetentionDays c" "0 < IdempotencyRetentionHours c"
    "0 < RuntimeTokenRetentionDays c"
  using assms by (simp_all add: Validate_def split: if_splits)

text \<open>
  C17: Every host the server can announce is a valid DNS name: under a configuration that passed
  validation, a generated tunnel identifier in front of the tunnel domain is a well-formed
  hostname of at most 253 bytes.
\<close>

theorem generated_hosts_valid:
  assumes "Validate c = Inr ()" and "GenerateTunnelID draw = Some t" and "\<And>i n. draw i = Some n \<Longrightarrow> n < 31"
  shows "validHostname (t @ ''.'' @ TunnelDomain c) \<and> length t = 18"
proof -
  have t: "tunnel_id_shape t" using assms(2,3) by (rule GenerateTunnelID_shape)
  have "split_char CHR ''.'' (t @ ''.'' @ TunnelDomain c) = t # split_char CHR ''.'' (TunnelDomain c)"
    using split_char_append [OF tunnel_id_no_dot [OF t]] by simp
  then show ?thesis
    using Validate_InrD(5,6) [OF assms(1)] tunnel_id_label [OF t] tunnel_id_length [OF t]
    by (simp add: validHostname_def maxTunnelDomainLength_def)
qed

definition sample_config :: config where
  "sample_config =
     \<lparr>DatabaseURL = ''postgres://db'', APIAddr = '':9000'', FRPSPluginAddr = '':9001'',
      APIReadTimeout = 30 * ns_per_sec, APIWriteTimeout = 30 * ns_per_sec, MaxRequestBytes = 65536,
      FRPSDomain = ''frps.example.com'', TunnelDomain = ''tunnel.example.com'',
      PluginSecret = replicate 32 CHR ''p'', FRPSAuthToken = replicate 32 CHR ''f'',
      PluginTimeout = 2 * ns_per_sec, MaxConcurrent = 5, MaxTTL = 24 * 3600 * ns_per_sec,
      RateCreatePerMin = 10, LogUserConns = False, FRPSMode = ''external'', FRPSBinPath = ''frps'',
      FRPSConfigPath = '''', EventsRetentionDays = 30, IdempotencyRetentionHours = 24,
      RuntimeTokenRetentionDays = 7\<rparr>"

lemma sample_hosts: "validHostname ''tunnel.example.com''" "validHostname ''frps.example.com''"
  by (simp_all add: validHostname_def valid_label_def label_char_def char_class_defs)

lemma sample_secrets: "validServiceSecret (replicate 32 CHR ''p'')" "validServiceSecret (replicate 32 CHR ''f'')"
  by (simp_all add: validServiceSecret_def list_all_iff url_safe_def char_class_defs)

lemma Validate_sample: "Validate sample_config = Inr ()"
  using sample_hosts sample_secrets
  by (simp add: Validate_def sample_config_def missing_vars_def maxTunnelDomainLength_def numeral_eq_Suc)

theorem generated_hosts_valid_witness:
  "validHostname (''t-2222222222222222'' @ ''.'' @ TunnelDomain sample_config) \<and> length ''t-2222222222222222'' = 18"
proof (rule generated_hosts_valid [OF Validate_sample])
  show "GenerateTunnelID (\<lambda>_. Some 23) = Some ''t-2222222222222222''" by code_simp
qed simp

text \<open>The typed variables, and which texts parse.\<close>

definition typed_vars :: "frac_fun \<Rightarrow> (string \<times> (string \<Rightarrow> bool)) list" where
  "typed_vars frac =
     (let dur = (\<lambda>s. parse_duration frac s \<noteq> None); int = (\<lambda>s. atoi s \<noteq> None)
      in [(''HATCHWAY_API_READ_TIMEOUT'', dur), (''HATCHWAY_API_WRITE_TIMEOUT'', dur),
          (''HATCHWAY_MAX_REQUEST_BYTES'', int), (''HATCHWAY_PLUGIN_TIMEOUT'', dur),
          (''HATCHWAY_MAX_CONCURRENT_TUNNELS'', int), (''HATCHWAY_MAX_TTL'', dur),
          (''HATCHWAY_RATE_CREATE_PER_MIN'', int), (''HATCHWAY_LOG_USER_CONNS'', \<lambda>s. parse_bool s \<noteq> None),
          (''HATCHWAY_EVENTS_RETENTION_DAYS'', int), (''HATCHWAY_IDEMPOTENCY_RETENTION_HOURS'', int),
          (''HATCHWAY_RUNTIME_TOKEN_RETENTION_DAYS'', int)])"

definition setting :: "(string \<Rightarrow> 'a option) \<Rightarrow> environment \<Rightarrow> string \<Rightarrow> 'a \<Rightarrow> 'a" where
  "setting parse getenv key fallback =
     (if getenv key = '''' then fallback else case parse (getenv key) of None \<Rightarrow> fallback | Some v \<Rightarrow> v)"

lemma fst_env_typed: "fst (env_typed parse getenv key fallback) = setting parse getenv key fallback"
  by (simp add: env_typed_def setting_def split: option.split)

lemma snd_env_typed:
  "snd (env_typed parse getenv key fallback) =
     (if getenv key \<noteq> '''' \<and> parse (getenv key) = None then [key] else [])"
  by (simp add: env_typed_def split: option.split)

lemma map_fst_filter_Cons:
  "map fst (filter (\<lambda>(key, p). Q key p) ((k, p) # kps)) =
     (if Q k p then [k] else []) @ map fst (filter (\<lambda>(key, p). Q key p) kps)"
  by simp

lemma load_errors:
  "snd (Load frac getenv) =
     map fst (filter (\<lambda>(key, parses). getenv key \<noteq> '''' \<and> \<not> parses (getenv key)) (typed_vars frac))"
proof -
  have *: "snd (Load frac getenv) =
      concat [snd (envDuration frac getenv ''HATCHWAY_API_READ_TIMEOUT'' (30 * ns_per_sec)),
        snd (envDuration frac getenv ''HATCHWAY_API_WRITE_TIMEOUT'' (30 * ns_per_sec)),
        snd (envInt getenv ''HATCHWAY_MAX_REQUEST_BYTES'' (64 * 1024)),
        snd (envDuration frac getenv ''HATCHWAY_PLUGIN_TIMEOUT'' (2 * ns_per_sec)),
        snd (envInt getenv ''HATCHWAY_MAX_CONCURRENT_TUNNELS'' 5),
        snd (envDuration frac getenv ''HATCHWAY_MAX_TTL'' (24 * 3600 * ns_per_sec)),
        snd (envInt getenv ''HATCHWAY_RATE_CREATE_PER_MIN'' 10),
        snd (envBool getenv ''HATCHWAY_LOG_USER_CONNS'' False),
        snd (envInt getenv ''HATCHWAY_EVENTS_RETENTION_DAYS'' 30),
        snd (envInt getenv ''HATCHWAY_IDEMPOTENCY_RETENTION_HOURS'' 24),
        snd (envInt getenv ''HATCHWAY_RUNTIME_TOKEN_RETENTION_DAYS'' 7)]"
    unfolding Load_def by (simp only: Let_def case_prod_beta snd_conv)
  show ?thesis
    unfolding * typed_vars_def Let_def envDuration_def envInt_def envBool_def snd_env_typed
    by (simp only: map_fst_filter_Cons concat.simps not_not filter.simps(1) list.map(1))
qed

lemma load_settings:
  "fst (Load frac getenv) = (fst (Load frac getenv))
     \<lparr>APIReadTimeout := setting (parse_duration frac) getenv ''HATCHWAY_API_READ_TIMEOUT'' (30 * ns_per_sec),
      APIWriteTimeout := setting (parse_duration frac) getenv ''HATCHWAY_API_WRITE_TIMEOUT'' (30 * ns_per_sec),
      MaxRequestBytes := setting atoi getenv ''HATCHWAY_MAX_REQUEST_BYTES'' 65536,
      PluginTimeout := setting (parse_duration frac) getenv ''HATCHWAY_PLUGIN_TIMEOUT'' (2 * ns_per_sec),
      MaxConcurrent := setting atoi getenv ''HATCHWAY_MAX_CONCURRENT_TUNNELS'' 5,
      MaxTTL := setting (parse_duration frac) getenv ''HATCHWAY_MAX_TTL'' (24 * 3600 * ns_per_sec),
      RateCreatePerMin := setting atoi getenv ''HATCHWAY_RATE_CREATE_PER_MIN'' 10,
      LogUserConns := setting parse_bool getenv ''HATCHWAY_LOG_USER_CONNS'' False,
      EventsRetentionDays := setting atoi getenv ''HATCHWAY_EVENTS_RETENTION_DAYS'' 30,
      IdempotencyRetentionHours := setting atoi getenv ''HATCHWAY_IDEMPOTENCY_RETENTION_HOURS'' 24,
      RuntimeTokenRetentionDays := setting atoi getenv ''HATCHWAY_RUNTIME_TOKEN_RETENTION_DAYS'' 7\<rparr>"
  unfolding Load_def Let_def case_prod_beta fst_conv envDuration_def envInt_def envBool_def fst_env_typed by simp

text \<open>
  C18: No typing error in the environment is passed over: \<open>Load\<close> reports exactly the typed variables
  that are set to a text that does not parse, in the order in which they are read; and each typed setting has the
  value of its variable when that is set and parses, and its documented default otherwise.
\<close>

theorem load_reports_every_typo:
  "snd (Load frac getenv) =
     map fst (filter (\<lambda>(key, parses). getenv key \<noteq> '''' \<and> \<not> parses (getenv key)) (typed_vars frac)) \<and>
   APIReadTimeout (fst (Load frac getenv)) = setting (parse_duration frac) getenv ''HATCHWAY_API_READ_TIMEOUT'' (30 * ns_per_sec) \<and>
   APIWriteTimeout (fst (Load frac getenv)) = setting (parse_duration frac) getenv ''HATCHWAY_API_WRITE_TIMEOUT'' (30 * ns_per_sec) \<and>
   MaxRequestBytes (fst (Load frac getenv)) = setting atoi getenv ''HATCHWAY_MAX_REQUEST_BYTES'' 65536 \<and>
   PluginTimeout (fst (Load frac getenv)) = setting (parse_duration frac) getenv ''HATCHWAY_PLUGIN_TIMEOUT'' (2 * ns_per_sec) \<and>
   MaxConcurrent (fst (Load frac getenv)) = setting atoi getenv ''HATCHWAY_MAX_CONCURRENT_TUNNELS'' 5 \<and>
   MaxTTL (fst (Load frac getenv)) = setting (parse_duration frac) getenv ''HATCHWAY_MAX_TTL'' (24 * 3600 * ns_per_sec) \<and>
   RateCreatePerMin (fst (Load frac getenv)) = setting atoi getenv ''HATCHWAY_RATE_CREATE_PER_MIN'' 10 \<and>
   LogUserConns (fst (Load frac getenv)) = setting parse_bool getenv ''HATCHWAY_LOG_USER_CONNS'' False \<and>
   EventsRetentionDays (fst (Load frac getenv)) = setting atoi getenv ''HATCHWAY_EVENTS_RETENTION_DAYS'' 30 \<and>
   IdempotencyRetentionHours (fst (Load frac getenv)) = setting atoi getenv ''HATCHWAY_IDEMPOTENCY_RETENTION_HOURS'' 24 \<and>
   RuntimeTokenRetentionDays (fst (Load frac getenv)) = setting atoi getenv ''HATCHWAY_RUNTIME_TOKEN_RETENTION_DAYS'' 7"
  by (intro conjI load_errors; subst load_settings; simp)

end
