(* ===== verification/Tunnels.thy ===== *)
theory Tunnels
  imports Idempotency JsonParse GoUrl GoDate Config
begin

text \<open>
  The tunnel API (\<open>internal/server/tunnels/handlers.go\<close>): creation, the paginated list, lookup and
  revocation.  Parameters of a request are the random draws (\<open>draws\<close> for the credential, one per
  attempt for the identifier), the fresh UUID, the nonce of the idempotency codec, the time zone
  of the process, the collation of the database as a function to its sort keys, and \<open>lenient\<close>,
  what \<open>time.Parse\<close> makes of a text that is not in the strict form of RFC 3339, on which Go's
  \<open>time.Time\<close> falls back.  The path value \<open>{id}\<close>, which the router extracts, is an argument.
\<close>

subsection \<open>Requests and responses\<close>

definition CreateTunnelRequest :: gostruct where
  "CreateTunnelRequest =
     [(''type'', FStr ''''), (''local_host'', FStr ''''), (''local_port'', FInt 0), (''ttl_seconds'', FInt 0)]"

record frp_config =
  fc_server_addr :: string
  fc_server_port :: int
  fc_server_token :: string
  fc_proxy_name :: string
  fc_proxy_type :: string
  fc_subdomain :: string
  fc_local_ip :: string
  fc_local_port :: int

record tunnel_response =
  tr_id :: string
  tr_status :: string
  tr_type :: string
  tr_url :: string
  tr_expires :: "time option"
  tr_token :: string
  tr_frp :: "frp_config option"

definition frp_json :: "frp_config \<Rightarrow> json" where
  "frp_json f =
     JObj [(''server_addr'', JStr (fc_server_addr f)), (''server_port'', JNum (fc_server_port f)),
           (''server_token'', JStr (fc_server_token f)), (''proxy_name'', JStr (fc_proxy_name f)),
           (''proxy_type'', JStr (fc_proxy_type f)), (''subdomain'', JStr (fc_subdomain f)),
           (''local_ip'', JStr (fc_local_ip f)), (''local_port'', JNum (fc_local_port f))]"

text \<open>Marshalling fails when a time cannot be written.\<close>

definition time_json :: "(time \<Rightarrow> int) \<Rightarrow> time option \<Rightarrow> json option" where
  "time_json zone t = (case t of None \<Rightarrow> Some JNull | Some t \<Rightarrow> map_option JStr (rfc3339 zone t))"

definition tunnel_json :: "(time \<Rightarrow> int) \<Rightarrow> tunnel_response \<Rightarrow> json option" where
  "tunnel_json zone r =
     map_option (\<lambda>t. JObj
       ([(''tunnel_id'', JStr (tr_id r)), (''status'', JStr (tr_status r)), (''type'', JStr (tr_type r)),
         (''public_url'', JStr (tr_url r)), (''expires_at'', t)] @
        (if tr_token r = '''' then [] else [(''runtime_token'', JStr (tr_token r))]) @
        (case tr_frp r of None \<Rightarrow> [] | Some f \<Rightarrow> [(''frp'', frp_json f)])))
       (time_json zone (tr_expires r))"

text \<open>\<open>json.Encoder.Encode\<close> writes nothing when it fails.\<close>

definition writeJSON :: "json option \<Rightarrow> wop list" where
  "writeJSON j = (case j of None \<Rightarrow> [] | Some v \<Rightarrow> [WriteBody (json_text v @ ''\<newline>'')])"

definition publicURL :: "string \<Rightarrow> string \<Rightarrow> string" where
  "publicURL tunnelID tunnelDomain = ''https://'' @ tunnelID @ ''.'' @ tunnelDomain"

subsection \<open>Creation: the request\<close>

record create_request =
  cr_type :: string
  cr_host :: string
  cr_port :: int
  cr_ttl :: int

definition create_request_of :: "gostruct \<Rightarrow> create_request" where
  "create_request_of fs =
     \<lparr>cr_type = get_str ''type'' fs, cr_host = get_str ''local_host'' fs,
      cr_port = get_int ''local_port'' fs, cr_ttl = get_int ''ttl_seconds'' fs\<rparr>"

text \<open>\<open>d / time.Second\<close>, which truncates towards zero.\<close>

definition whole_seconds :: "duration \<Rightarrow> int" where
  "whole_seconds d = (if d < 0 then - ((- d) div ns_per_sec) else d div ns_per_sec)"

definition default_ttl :: "config \<Rightarrow> int" where
  "default_ttl cfg = whole_seconds (if MaxTTL cfg < 3600 * ns_per_sec then MaxTTL cfg else 3600 * ns_per_sec)"

definition bad_request :: "string \<Rightarrow> wop list" where
  "bad_request msg = WriteError 400 ErrInvalidRequest msg"

definition server_error :: "string \<Rightarrow> wop list" where
  "server_error msg = WriteError 500 ErrInternal msg"

text \<open>The request with its defaults filled in, or the error response.\<close>

definition check_create :: "config \<Rightarrow> create_request \<Rightarrow> wop list + create_request" where
  "check_create cfg q =
     (if cr_type q \<noteq> ''http'' then Inl (bad_request ''only http tunnels supported in MVP'')
      else if cr_port q < 1 \<or> 65535 < cr_port q then Inl (bad_request ''local_port must be between 1 and 65535'')
      else (let host = (if cr_host q = '''' then ''127.0.0.1'' else cr_host q)
            in if host \<noteq> ''127.0.0.1'' \<and> host \<noteq> ''localhost''
               then Inl (bad_request ''local_host must be 127.0.0.1 or localhost'')
               else if cr_ttl q < 0 then Inl (bad_request ''ttl_seconds must be non-negative'')
               else (let ttl = (if cr_ttl q = 0 then default_ttl cfg else cr_ttl q)
                     in if whole_seconds (MaxTTL cfg) < ttl
                        then Inl (bad_request (''ttl exceeds maximum of '' @ show_duration (MaxTTL cfg)))
                        else Inr (q\<lparr>cr_host := host, cr_ttl := ttl\<rparr>))))"

definition decode_create :: "config \<Rightarrow> request \<Rightarrow> wop list + create_request" where
  "decode_create cfg r =
     (case decode_body (decode_struct True CreateTunnelRequest) r of
        BodyTooBig \<Rightarrow> Inl (WriteError 413 ErrInvalidRequest ''request body too large'')
      | BodyInvalid \<Rightarrow> Inl (bad_request ''invalid JSON body'')
      | BodyTrailingTooBig \<Rightarrow> Inl (WriteError 413 ErrInvalidRequest ''request body too large'')
      | BodyTrailing \<Rightarrow> Inl (bad_request ''request body must contain one JSON object'')
      | BodyValue fs \<Rightarrow> check_create cfg (create_request_of fs))"

subsection \<open>Creation: the transaction\<close>

definition new_tunnel_row :: "string \<Rightarrow> string \<Rightarrow> create_request \<Rightarrow> time \<Rightarrow> time \<Rightarrow> tunnel_row" where
  "new_tunnel_row tid uid q expires now =
     \<lparr>tn_id = tid, tn_user = uid, tn_type = cr_type q, tn_local_host = cr_host q,
      tn_local_port = cr_port q, tn_status = Reserved, tn_expires = Some expires, tn_created = now\<rparr>"

text \<open>
  \<open>INSERT INTO tunnels ... ON CONFLICT (id) DO NOTHING RETURNING expires_at\<close>: no row when the
  identifier is taken.  \<open>stmt\<close> is the time of the statement, \<open>now\<close> that of the transaction.
\<close>

definition sql_insert_tunnel ::
  "time \<Rightarrow> time \<Rightarrow> string \<Rightarrow> string \<Rightarrow> create_request \<Rightarrow> db \<Rightarrow> sql_error + (db \<times> time) option" where
  "sql_insert_tunnel now stmt tid uid q d =
     (if \<not> (1 \<le> cr_port q \<and> cr_port q \<le> 65535) then Inl CheckViolation
      else if find_tunnel tid d \<noteq> None then Inr None
      else if uid \<notin> us_id ` set (db_users d) then Inl ForeignKeyViolation
      else (let expires = stmt + cr_ttl q * usec_per_sec
            in Inr (Some (d\<lparr>db_tunnels := db_tunnels d @ [new_tunnel_row tid uid q expires now]\<rparr>, expires))))"

text \<open>The loop over the attempts: the tunnel inserted, with its identifier and expiry, or none.\<close>

fun insert_attempts ::
  "env \<Rightarrow> (nat \<Rightarrow> draws) \<Rightarrow> string \<Rightarrow> create_request \<Rightarrow> nat list \<Rightarrow> db \<Rightarrow> wop list + (db \<times> string \<times> time) option" where
  "insert_attempts e ids uid q [] d = Inr None"
| "insert_attempts e ids uid q (n # ns) d =
     (case GenerateTunnelID (ids n) of
        None \<Rightarrow> Inl (server_error ''failed to generate tunnel ID'')
      | Some candidate \<Rightarrow>
          if \<not> ok e (CtInsert n) then Inl (server_error ''failed to create tunnel'')
          else (case sql_insert_tunnel (e_time e CtBegin) (e_time e (CtInsert n)) candidate uid q d of
                  Inl _ \<Rightarrow> Inl (server_error ''failed to create tunnel'')
                | Inr None \<Rightarrow> insert_attempts e ids uid q ns d
                | Inr (Some (d', expires)) \<Rightarrow> Inr (Some (d', candidate, expires))))"

definition insert_tunnel ::
  "env \<Rightarrow> (nat \<Rightarrow> draws) \<Rightarrow> string \<Rightarrow> create_request \<Rightarrow> db \<Rightarrow> wop list + (db \<times> string \<times> time)" where
  "insert_tunnel e ids uid q d =
     (case insert_attempts e ids uid q [0, 1, 2] d of
        Inl w \<Rightarrow> Inl w
      | Inr None \<Rightarrow> Inl (server_error ''failed to generate unique tunnel ID'')
      | Inr (Some (d', tid, expires)) \<Rightarrow>
          if tid = '''' then Inl (server_error ''failed to generate unique tunnel ID'') else Inr (d', tid, expires))"

definition new_rt_row :: "string \<Rightarrow> string \<Rightarrow> token \<Rightarrow> time \<Rightarrow> time \<Rightarrow> rt_row" where
  "new_rt_row uuid tid rt expires now =
     \<lparr>rt_id = uuid, rt_tunnel = tid, rt_prefix = tk_prefix rt, rt_hash = tk_hash rt, rt_expires = expires,
      rt_last_used = None, rt_use_count = 0, rt_revoked = None, rt_created = now\<rparr>"

definition sql_insert_rt :: "time \<Rightarrow> string \<Rightarrow> string \<Rightarrow> token \<Rightarrow> time \<Rightarrow> db \<Rightarrow> sql_error + db" where
  "sql_insert_rt now uuid tid rt expires d =
     (if uuid \<in> rt_id ` set (db_rt_tokens d) then Inl UniqueViolation
      else if tid \<notin> tn_id ` set (db_tunnels d) then Inl ForeignKeyViolation
      else Inr (d\<lparr>db_rt_tokens := db_rt_tokens d @ [new_rt_row uuid tid rt expires now]\<rparr>))"

definition create_response :: "config \<Rightarrow> create_request \<Rightarrow> token \<Rightarrow> string \<Rightarrow> time \<Rightarrow> tunnel_response" where
  "create_response cfg q rt tid expires =
     \<lparr>tr_id = tid, tr_status = ''reserved'', tr_type = cr_type q, tr_url = publicURL tid (TunnelDomain cfg),
      tr_expires = Some expires, tr_token = tk_raw rt,
      tr_frp = Some \<lparr>fc_server_addr = FRPSDomain cfg, fc_server_port = 7000,
                     fc_server_token = FRPSAuthToken cfg, fc_proxy_name = tid, fc_proxy_type = ''http'',
                     fc_subdomain = tid, fc_local_ip = cr_host q, fc_local_port = cr_port q\<rparr>\<rparr>"

text \<open>What happens between \<open>Begin\<close> and \<open>Commit\<close>: the new database and the response body.\<close>

definition create_body ::
  "env \<Rightarrow> codec \<Rightarrow> nonce \<Rightarrow> (time \<Rightarrow> int) \<Rightarrow> config \<Rightarrow> (nat \<Rightarrow> draws) \<Rightarrow> string \<Rightarrow> ctx \<Rightarrow> string \<Rightarrow>
     create_request \<Rightarrow> token \<Rightarrow> db \<Rightarrow> wop list + (db \<times> string)" where
  "create_body e c nonce zone cfg ids uuid cx uid q rt d =
     (let now = e_time e CtBegin in
      if \<not> ok e CtLock then Inl (server_error ''quota check failed'')
      else if \<not> ok e CtCount then Inl (server_error ''quota check failed'')
      else if MaxConcurrent cfg \<le> int (CountNonTerminalTunnels uid d)
      then Inl (WriteError 403 ErrQuotaExceeded (''maximum '' @ show_int (MaxConcurrent cfg) @ '' concurrent tunnels''))
      else (case insert_tunnel e ids uid q d of
              Inl w \<Rightarrow> Inl w
            | Inr (d1, tid, expires) \<Rightarrow>
                if \<not> ok e CtToken then Inl (server_error ''failed to store runtime token'')
                else (case sql_insert_rt now uuid tid rt expires d1 of
                        Inl _ \<Rightarrow> Inl (server_error ''failed to store runtime token'')
                      | Inr d2 \<Rightarrow>
                          if \<not> ok e CtEvent then Inl (server_error ''failed to create tunnel'')
                          else (case tunnel_json zone (create_response cfg q rt tid expires) of
                                  None \<Rightarrow> Inl (server_error ''failed to create tunnel'')
                                | Some j \<Rightarrow>
                                    (let body = json_text j @ ''\<newline>''
                                     in case CompleteIdempotentResponseInTransaction e c nonce now cx 201 body
                                               (insertEvent now tid ''created'' Reserved d2) of
                                          Inl _ \<Rightarrow> Inl (server_error ''failed to create tunnel'')
                                        | Inr (d3, _) \<Rightarrow> Inr (d3, body))))))"

definition CreateTunnel ::
  "sha_fun \<Rightarrow> env \<Rightarrow> codec \<Rightarrow> nonce \<Rightarrow> (time \<Rightarrow> int) \<Rightarrow> config \<Rightarrow> draws \<Rightarrow> (nat \<Rightarrow> draws) \<Rightarrow> string \<Rightarrow> handler" where
  "CreateTunnel sha e c nonce zone cfg draw ids uuid cx r s =
     (let uid = UserIDFromContext cx in
      if uid = '''' then (s, WriteError 401 ErrUnauthenticated ''not authenticated'')
      else (case decode_create cfg r of
              Inl w \<Rightarrow> (s, w)
            | Inr q \<Rightarrow>
                (case MintRuntimeToken sha draw of
                   None \<Rightarrow> (s, server_error ''failed to mint runtime token'')
                 | Some rt \<Rightarrow>
                     if \<not> ok e CtBegin then (s, server_error ''failed to create tunnel'')
                     else (case create_body e c nonce zone cfg ids uuid cx uid q rt (sv_db s) of
                             Inl w \<Rightarrow> (s, w)
                           | Inr (d', body) \<Rightarrow>
                               (case commit e CtCommit s (s\<lparr>sv_db := d'\<rparr>) of
                                  (s', False) \<Rightarrow> (s', server_error ''failed to create tunnel'')
                                | (s', True) \<Rightarrow>
                                    (s', [SetHeader ''Content-Type'' ''application/json'', WriteHeader 201,
                                          WriteBody body]))))))"

subsection \<open>Listing\<close>

definition defaultListLimit :: int where "defaultListLimit = 50"
definition maxListLimit :: int where "maxListLimit = 100"

text \<open>A cursor holds its time in nanoseconds, as \<open>time.Time\<close> does; the zero time is in the year 1.\<close>

record list_cursor =
  lc_created :: int
  lc_id :: string

definition zero_time :: int where "zero_time = days_of_civil 1 1 1 * 86400 * 1000000000"

definition no_cursor :: list_cursor where
  "no_cursor = \<lparr>lc_created = zero_time, lc_id = ''''\<rparr>"

text \<open>The cursor of a row; a time that cannot be written leaves the empty text.\<close>

definition encodeCursor :: "(time \<Rightarrow> int) \<Rightarrow> time \<Rightarrow> string \<Rightarrow> string" where
  "encodeCursor zone created tid =
     b64_encode b64_url_alphabet
       (case rfc3339 zone created of
          None \<Rightarrow> []
        | Some t \<Rightarrow> json_text (JObj [(''c'', JStr t), (''i'', JStr tid)]))"

definition read_time :: "(string \<Rightarrow> int option) \<Rightarrow> string \<Rightarrow> int option" where
  "read_time lenient t = (case parse_rfc3339 t of None \<Rightarrow> lenient t | Some ns \<Rightarrow> Some ns)"

text \<open>
  The members of the payload, stored in order into the cursor.  A time is read from the text of
  its literal: \<open>time.Time\<close> does not resolve escapes.
\<close>

fun cursor_members :: "(string \<Rightarrow> int option) \<Rightarrow> (string \<times> jval) list \<Rightarrow> list_cursor \<Rightarrow> list_cursor option" where
  "cursor_members lenient [] c = Some c"
| "cursor_members lenient ((key, v) # ms) c =
     (case match_field [''c'', ''i''] key of
        None \<Rightarrow> cursor_members lenient ms c
      | Some f \<Rightarrow>
          if f = ''c'' then
            (if v = VNull then cursor_members lenient ms c
             else (case Option.bind (literal_of_value v) (read_time lenient) of
                     None \<Rightarrow> None
                   | Some ns \<Rightarrow> cursor_members lenient ms (c\<lparr>lc_created := ns\<rparr>)))
          else
            (case decode_string (lc_id c) v of
               None \<Rightarrow> None
             | Some i \<Rightarrow> cursor_members lenient ms (c\<lparr>lc_id := i\<rparr>)))"

definition unmarshal_cursor :: "(string \<Rightarrow> int option) \<Rightarrow> string \<Rightarrow> list_cursor option" where
  "unmarshal_cursor lenient raw =
     (case parse_value raw of
        Done v rest \<Rightarrow>
          if skip_ws rest \<noteq> [] then None
          else (case v of
                  VObj ms \<Rightarrow> cursor_members lenient ms no_cursor
                | VNull \<Rightarrow> Some no_cursor
                | _ \<Rightarrow> None)
      | _ \<Rightarrow> None)"

definition decodeCursor :: "(string \<Rightarrow> int option) \<Rightarrow> string \<Rightarrow> string + list_cursor" where
  "decodeCursor lenient s =
     (if s = '''' then Inr no_cursor
      else (case b64_decode b64_url_alphabet s of
              None \<Rightarrow> Inl ''invalid cursor encoding''
            | Some raw \<Rightarrow>
                (case unmarshal_cursor lenient raw of
                   None \<Rightarrow> Inl ''invalid cursor payload''
                 | Some c \<Rightarrow>
                     if lc_id c = '''' \<or> lc_created c = zero_time then Inl ''invalid cursor'' else Inr c)))"

text \<open>The sentinels of the first page: the year 9999 and the last character of the basic plane.\<close>

definition far_future :: time where "far_future = days_of_civil 9999 1 1 * usec_per_day"

definition last_id :: string where
  "last_id = [char_of (0xEF :: nat), char_of (0xBF :: nat), char_of (0xBF :: nat)]"

text \<open>
  \<open>WHERE user_id = $1 AND (created_at, id) < ($2, $3) ORDER BY created_at DESC, id DESC LIMIT $4\<close>;
  the driver sends a time in whole microseconds.
\<close>

definition row_key :: "(string \<Rightarrow> string) \<Rightarrow> tunnel_row \<Rightarrow> time \<times> string" where
  "row_key collate r = (tn_created r, collate (tn_id r))"

definition sql_list_tunnels :: "(string \<Rightarrow> string) \<Rightarrow> string \<Rightarrow> time \<Rightarrow> string \<Rightarrow> nat \<Rightarrow> db \<Rightarrow> tunnel_row list" where
  "sql_list_tunnels collate uid ts tid n d =
     take n (rev (sort_key (row_key collate)
       (filter (\<lambda>r. tn_user r = uid \<and> row_key collate r < (ts, collate tid)) (db_tunnels d))))"

definition response_of_row :: "config \<Rightarrow> tunnel_row \<Rightarrow> tunnel_response" where
  "response_of_row cfg r =
     \<lparr>tr_id = tn_id r, tr_status = status_text (tn_status r), tr_type = tn_type r,
      tr_url = publicURL (tn_id r) (TunnelDomain cfg), tr_expires = tn_expires r, tr_token = '''', tr_frp = None\<rparr>"

text \<open>The limit of a page, None for a value out of range.\<close>

definition page_limit :: "string \<Rightarrow> int option" where
  "page_limit v =
     (if v = '''' then Some defaultListLimit
      else (case atoi v of
              None \<Rightarrow> None
            | Some n \<Rightarrow> if n < 1 \<or> maxListLimit < n then None else Some n))"

text \<open>The rows of the page, and the cursor to the next when there are more.\<close>

definition cut_page :: "(time \<Rightarrow> int) \<Rightarrow> nat \<Rightarrow> tunnel_row list \<Rightarrow> tunnel_row list \<times> string option" where
  "cut_page zone limit rows =
     (if limit < length rows
      then (take limit rows, Some (encodeCursor zone (tn_created (rows ! (limit - 1))) (tn_id (rows ! (limit - 1)))))
      else (rows, None))"

definition page_json :: "config \<Rightarrow> (time \<Rightarrow> int) \<Rightarrow> tunnel_row list \<times> string option \<Rightarrow> json option" where
  "page_json cfg zone page =
     map_option (\<lambda>ts. JObj [(''next_cursor'', case snd page of None \<Rightarrow> JNull | Some c \<Rightarrow> JStr c), (''tunnels'', JArr ts)])
       (those (map (\<lambda>r. tunnel_json zone (response_of_row cfg r)) (fst page)))"

text \<open>Where the page starts: after the cursor's row, or before everything.\<close>

definition page_position :: "list_cursor \<Rightarrow> time \<times> string" where
  "page_position cur =
     (if lc_id cur = '''' then (far_future, last_id) else (lc_created cur div 1000, lc_id cur))"

definition ListTunnels ::
  "(string \<Rightarrow> int option) \<Rightarrow> (string \<Rightarrow> string) \<Rightarrow> env \<Rightarrow> (time \<Rightarrow> int) \<Rightarrow> config \<Rightarrow> handler" where
  "ListTunnels lenient collate e zone cfg cx r s =
     (s, case page_limit (query_get ''limit'' (rq_raw_query r)) of
           None \<Rightarrow> bad_request (''limit must be between 1 and '' @ show_int maxListLimit)
         | Some limit \<Rightarrow>
             (case decodeCursor lenient (query_get ''cursor'' (rq_raw_query r)) of
                Inl msg \<Rightarrow> bad_request msg
              | Inr cur \<Rightarrow>
                  (let (ts, tid) = page_position cur;
                       rows = sql_list_tunnels collate (UserIDFromContext cx) ts tid (nat limit + 1) (sv_db s)
                   in if \<not> ok e LsQuery then server_error ''query failed''
                      else if rows \<noteq> [] \<and> \<not> ok e LsScan then server_error ''scan failed''
                      else if \<not> ok e LsIter then server_error ''query failed''
                      else SetHeader ''Content-Type'' ''application/json'' #
                           writeJSON (page_json cfg zone (cut_page zone (nat limit) rows)))))"

subsection \<open>One tunnel\<close>

definition GetTunnel :: "env \<Rightarrow> (time \<Rightarrow> int) \<Rightarrow> config \<Rightarrow> string \<Rightarrow> handler" where
  "GetTunnel e zone cfg tid cx r s =
     (s, if \<not> ok e GtQuery then server_error ''query failed''
         else (case find_tunnel tid (sv_db s) of
                 None \<Rightarrow> WriteError 404 ErrNotFound ''tunnel not found''
               | Some t \<Rightarrow>
                   if tn_user t \<noteq> UserIDFromContext cx then WriteError 404 ErrNotFound ''tunnel not found''
                   else SetHeader ''Content-Type'' ''application/json'' #
                        writeJSON (tunnel_json zone (response_of_row cfg t))))"

text \<open>The answers of both revocation handlers to the result of \<open>Revoke\<close>.\<close>

definition revoke_answer :: "revoke_error + bool \<Rightarrow> wop list" where
  "revoke_answer res =
     (case res of
        Inl _ \<Rightarrow> server_error ''failed to revoke tunnel''
      | Inr found \<Rightarrow> if \<not> found then WriteError 404 ErrNotFound ''tunnel not found'' else [WriteHeader 204])"

definition DeleteTunnel :: "env \<Rightarrow> string \<Rightarrow> handler" where
  "DeleteTunnel e tid cx r s =
     (case Revoke e tid (UserIDFromContext cx) s of (s', res) \<Rightarrow> (s', revoke_answer res))"

definition AdminRevokeTunnel :: "env \<Rightarrow> string \<Rightarrow> handler" where
  "AdminRevokeTunnel e tid cx r s =
     (case Revoke e tid '''' s of (s', res) \<Rightarrow> (s', revoke_answer res))"

subsection \<open>What a creation does\<close>

text \<open>The effect of the statements, apart from the completion of the reservation.\<close>

definition tunnel_created ::
  "string \<Rightarrow> create_request \<Rightarrow> token \<Rightarrow> string \<Rightarrow> time \<Rightarrow> time \<Rightarrow> string \<Rightarrow> db \<Rightarrow> db" where
  "tunnel_created uid q rt tid expires now uuid d =
     insertEvent now tid ''created'' Reserved
       (d\<lparr>db_tunnels := db_tunnels d @ [new_tunnel_row tid uid q expires now],
          db_rt_tokens := db_rt_tokens d @ [new_rt_row uuid tid rt expires now]\<rparr>)"

lemma insert_attempts_SomeD:
  assumes "insert_attempts e ids uid q ns d = Inr (Some (d', tid, expires))"
  shows "\<exists>n \<in> set ns. GenerateTunnelID (ids n) = Some tid \<and> find_tunnel tid d = None \<and>
     uid \<in> us_id ` set (db_users d) \<and> 1 \<le> cr_port q \<and> cr_port q \<le> 65535 \<and>
     expires = e_time e (CtInsert n) + cr_ttl q * usec_per_sec \<and>
     d' = d\<lparr>db_tunnels := db_tunnels d @ [new_tunnel_row tid uid q expires (e_time e CtBegin)]\<rparr>"
  using assms
  by (induction ns)
     (auto simp: sql_insert_tunnel_def Let_def split: option.splits if_splits sum.splits prod.splits)

lemma complete_InrD:
  assumes "CompleteIdempotentResponseInTransaction e c nonce now cx st body d = Inr (d', b)"
  shows "(cx_reservation cx = None \<and> d' = d) \<or>
     (\<exists>rv enc. cx_reservation cx = Some rv \<and> 200 \<le> st \<and> st < 300 \<and>
        codec_seal c nonce (rv_token rv) (rv_key rv) st body = Some enc \<and>
        sql_complete now (rv_token rv) (rv_key rv) st (Some enc) d = (d', 1))"
  using assms
  by (auto simp: CompleteIdempotentResponseInTransaction_def not_le not_less
      split: option.splits if_splits prod.splits)

lemma create_body_InrD:
  assumes "create_body e c nonce zone cfg ids uuid cx uid q rt d = Inr (d', body)"
  obtains n tid expires j b where "int (CountNonTerminalTunnels uid d) < MaxConcurrent cfg"
    "GenerateTunnelID (ids n) = Some tid" "find_tunnel tid d = None" "uid \<in> us_id ` set (db_users d)"
    "1 \<le> cr_port q" "cr_port q \<le> 65535" "expires = e_time e (CtInsert n) + cr_ttl q * usec_per_sec"
    "uuid \<notin> rt_id ` set (db_rt_tokens d)"
    "tunnel_json zone (create_response cfg q rt tid expires) = Some j" "body = json_text j @ ''\<newline>''"
    "CompleteIdempotentResponseInTransaction e c nonce (e_time e CtBegin) cx 201 body
       (tunnel_created uid q rt tid expires (e_time e CtBegin) uuid d) = Inr (d', b)"
proof -
  from assms obtain d1 tid expires d2 j b where quota: "\<not> MaxConcurrent cfg \<le> int (CountNonTerminalTunnels uid d)"
    and ins: "insert_tunnel e ids uid q d = Inr (d1, tid, expires)"
    and rt: "sql_insert_rt (e_time e CtBegin) uuid tid rt expires d1 = Inr d2"
    and j: "tunnel_json zone (create_response cfg q rt tid expires) = Some j" "body = json_text j @ ''\<newline>''"
    and cp: "CompleteIdempotentResponseInTransaction e c nonce (e_time e CtBegin) cx 201 body
       (insertEvent (e_time e CtBegin) tid ''created'' Reserved d2) = Inr (d', b)"
    by (auto simp: create_body_def Let_def split: if_splits sum.splits option.splits prod.splits)
  from ins have "insert_attempts e ids uid q [0, 1, 2] d = Inr (Some (d1, tid, expires))"
    by (auto simp: insert_tunnel_def simp del: insert_attempts.simps split: sum.splits option.splits prod.splits if_splits)
  from insert_attempts_SomeD [OF this] obtain n where n: "GenerateTunnelID (ids n) = Some tid"
    "find_tunnel tid d = None" "uid \<in> us_id ` set (db_users d)" "1 \<le> cr_port q" "cr_port q \<le> 65535"
    "expires = e_time e (CtInsert n) + cr_ttl q * usec_per_sec"
    and d1: "d1 = d\<lparr>db_tunnels := db_tunnels d @ [new_tunnel_row tid uid q expires (e_time e CtBegin)]\<rparr>"
    by blast
  from rt have "uuid \<notin> rt_id ` set (db_rt_tokens d)"
    and "d2 = d1\<lparr>db_rt_tokens := db_rt_tokens d @ [new_rt_row uuid tid rt expires (e_time e CtBegin)]\<rparr>"
    by (auto simp: sql_insert_rt_def d1 split: if_splits)
  with quota n j cp d1 show thesis
    by (intro that [of n tid expires j b]) (auto simp: tunnel_created_def)
qed

text \<open>The invariants of the new state.\<close>

lemma created_other_tables [simp]:
  "db_users (tunnel_created uid q rt tid expires now uuid d) = db_users d"
  "db_api_tokens (tunnel_created uid q rt tid expires now uuid d) = db_api_tokens d"
  "db_idem (tunnel_created uid q rt tid expires now uuid d) = db_idem d"
  "db_tunnels (tunnel_created uid q rt tid expires now uuid d) =
     db_tunnels d @ [new_tunnel_row tid uid q expires now]"
  "db_rt_tokens (tunnel_created uid q rt tid expires now uuid d) =
     db_rt_tokens d @ [new_rt_row uuid tid rt expires now]"
  by (simp_all add: tunnel_created_def insertEvent_def)

lemma new_row_simps [simp]:
  "tn_id (new_tunnel_row tid uid q expires now) = tid" "tn_user (new_tunnel_row tid uid q expires now) = uid"
  "tn_status (new_tunnel_row tid uid q expires now) = Reserved"
  "tn_expires (new_tunnel_row tid uid q expires now) = Some expires"
  "tn_local_port (new_tunnel_row tid uid q expires now) = cr_port q"
  "rt_id (new_rt_row uuid tid rt expires now) = uuid" "rt_tunnel (new_rt_row uuid tid rt expires now) = tid"
  "rt_prefix (new_rt_row uuid tid rt expires now) = tk_prefix rt" "rt_hash (new_rt_row uuid tid rt expires now) = tk_hash rt"
  "rt_revoked (new_rt_row uuid tid rt expires now) = None" "rt_use_count (new_rt_row uuid tid rt expires now) = 0"
  "rt_expires (new_rt_row uuid tid rt expires now) = expires"
  by (simp_all add: new_tunnel_row_def new_rt_row_def)

lemma find_tunnel_None: "find_tunnel tid d = None \<longleftrightarrow> tid \<notin> tn_id ` set (db_tunnels d)"
  by (simp add: find_tunnel_def find_by_None_iff)

lemma schema_created:
  assumes "schema_ok d" "find_tunnel tid d = None" "uid \<in> us_id ` set (db_users d)"
    "1 \<le> cr_port q" "cr_port q \<le> 65535" "uuid \<notin> rt_id ` set (db_rt_tokens d)"
  shows "schema_ok (tunnel_created uid q rt tid expires now uuid d)"
  using assms unfolding schema_ok_def find_tunnel_None by simp

lemma dead_created:
  assumes "schema_ok d" "revoked_dead d" "find_tunnel tid d = None"
  shows "revoked_dead (tunnel_created uid q rt tid expires now uuid d)"
  using assms(2,3) by (auto simp: revoked_dead_def find_tunnel_None)

lemma evolves_created: "evolves d (tunnel_created uid q rt tid expires now uuid d)"
  by (simp add: rows_evolve_append)

lemma audit_created:
  assumes "audit_ok d" "find_tunnel tid d = None"
  shows "audit_ok (tunnel_created uid q rt tid expires now uuid d)"
  using assms unfolding audit_ok_def find_tunnel_None
  by (auto simp: tunnel_created_def logged_insertEvent)

lemma count_created:
  "CountNonTerminalTunnels u (tunnel_created uid q rt tid expires now uuid d) =
     CountNonTerminalTunnels u d + (if u = uid then 1 else 0)"
  by (simp add: CountNonTerminalTunnels_def row_simps)

text \<open>The completion touches the keys only.\<close>

lemma complete_frame:
  assumes "CompleteIdempotentResponseInTransaction e c nonce now cx st body d = Inr (d', b)"
  shows "db_tunnels d' = db_tunnels d" "db_rt_tokens d' = db_rt_tokens d" "db_events d' = db_events d"
    "db_users d' = db_users d" "db_api_tokens d' = db_api_tokens d" "schema_ok d \<Longrightarrow> schema_ok d'"
proof -
  consider "d' = d" | tok key enc where "200 \<le> st" "st < 300" "d' = fst (sql_complete now tok key st (Some enc) d)"
    using complete_InrD [OF assms] by (metis fst_conv)
  then show "db_tunnels d' = db_tunnels d" "db_rt_tokens d' = db_rt_tokens d" "db_events d' = db_events d"
    "db_users d' = db_users d" "db_api_tokens d' = db_api_tokens d" "schema_ok d \<Longrightarrow> schema_ok d'"
    by (cases; simp add: schema_complete; simp add: sql_complete_def)+
qed

lemma created_rows:
  assumes "CompleteIdempotentResponseInTransaction e c nonce now' cx st body (tunnel_created uid q rt tid expires now uuid d) = Inr (d', b)"
    and "find_tunnel tid d = None"
  shows "find_tunnel tid d' = Some (new_tunnel_row tid uid q expires now)"
    "db_rt_tokens d' = db_rt_tokens d @ [new_rt_row uuid tid rt expires now]"
  using assms(2) complete_frame [OF assms(1)] by (simp_all add: find_tunnel_def find_by_append new_tunnel_row_def)

subsection \<open>The outcomes of a creation\<close>

definition created_ops :: "string \<Rightarrow> wop list" where
  "created_ops body = [SetHeader ''Content-Type'' ''application/json'', WriteHeader 201, WriteBody body]"

lemma render_created [simp]:
  "render (created_ops body) = \<lparr>rs_status = 201, rs_headers = [(''Content-Type'', ''application/json'')], rs_body = body\<rparr>"
  by (simp add: created_ops_def render_simps)

lemma render_errors [simp]:
  "rs_status (render (server_error msg)) = 500" "rs_status (render (bad_request msg)) = 400"
  by (simp_all add: server_error_def bad_request_def)

text \<open>An answer that refuses the request: one error envelope with an error status.\<close>

definition refusal :: "wop list \<Rightarrow> bool" where
  "refusal w \<longleftrightarrow> (\<exists>st code msg. w = WriteError st code msg \<and> 400 \<le> st)"

lemma refusal_simps [simp]:
  "refusal (WriteError st code msg) \<longleftrightarrow> 400 \<le> st" "refusal (server_error msg)" "refusal (bad_request msg)"
  by (auto simp: refusal_def server_error_def bad_request_def WriteError_def)

lemma refusalD:
  "refusal w \<Longrightarrow> 400 \<le> rs_status (render w) \<and> Panicked \<notin> set w \<and> no_zero_status w"
  unfolding refusal_def by (auto, auto simp: WriteError_def)

lemma decode_create_InlD: "decode_create cfg r = Inl w \<Longrightarrow> refusal w"
  by (auto simp: decode_create_def check_create_def Let_def split: body_result.splits if_splits)

lemma insert_attempts_InlD: "insert_attempts e ids uid q ns d = Inl w \<Longrightarrow> refusal w"
  by (induction ns) (auto split: option.splits if_splits sum.splits)

lemma create_body_InlD:
  assumes "create_body e c nonce zone cfg ids uuid cx uid q rt d = Inl w"
  shows "refusal w"
proof -
  have ins: "refusal w" if "insert_tunnel e ids uid q d = Inl w" for w
    using that insert_attempts_InlD [of e ids uid q "[0, 1, 2]" d]
    by (auto simp: insert_tunnel_def simp del: insert_attempts.simps split: sum.splits option.splits prod.splits if_splits)
  show ?thesis
    using assms ins by (auto simp: create_body_def Let_def split: if_splits sum.splits option.splits prod.splits)
qed

lemma CreateTunnel_cases:
  obtains (refused) w where "CreateTunnel sha e c nonce zone cfg draw ids uuid cx r s = (s, w)"
      "refusal w"
  | (committed) q rt d' body where "UserIDFromContext cx \<noteq> ''''" "decode_create cfg r = Inr q"
      "MintRuntimeToken sha draw = Some rt" "ok e CtBegin" "ok e CtCommit"
      "create_body e c nonce zone cfg ids uuid cx (UserIDFromContext cx) q rt (sv_db s) = Inr (d', body)"
      "CreateTunnel sha e c nonce zone cfg draw ids uuid cx r s = (s\<lparr>sv_db := d'\<rparr>, created_ops body)"
  | (in_doubt) q rt d' body where "e_out e CtCommit = InDoubt"
      "create_body e c nonce zone cfg ids uuid cx (UserIDFromContext cx) q rt (sv_db s) = Inr (d', body)"
      "CreateTunnel sha e c nonce zone cfg draw ids uuid cx r s =
         (s\<lparr>sv_db := d'\<rparr>, server_error ''failed to create tunnel'')"
proof -
  let ?uid = "UserIDFromContext cx"
  let ?run = "CreateTunnel sha e c nonce zone cfg draw ids uuid cx r s"
  consider (early) w where "?run = (s, w)" "refusal w"
    | (late) q rt d' body where "?uid \<noteq> ''''" "decode_create cfg r = Inr q" "MintRuntimeToken sha draw = Some rt"
        "ok e CtBegin" "create_body e c nonce zone cfg ids uuid cx ?uid q rt (sv_db s) = Inr (d', body)"
        "?run = (case commit e CtCommit s (s\<lparr>sv_db := d'\<rparr>) of
                   (s', False) \<Rightarrow> (s', server_error ''failed to create tunnel'') | (s', True) \<Rightarrow> (s', created_ops body))"
    using decode_create_InlD create_body_InlD unfolding CreateTunnel_def Let_def created_ops_def [symmetric]
    by (cases "?uid = ''''"; cases "decode_create cfg r"; cases "MintRuntimeToken sha draw"; cases "ok e CtBegin";
        cases "create_body e c nonce zone cfg ids uuid cx ?uid (projr (decode_create cfg r)) (the (MintRuntimeToken sha draw)) (sv_db s)")
      (force split: prod.split)+
  then show thesis
  proof cases
    case early
    then show thesis by (rule refused)
  next
    case late
    show thesis
      by (cases e CtCommit s "s\<lparr>sv_db := d'\<rparr>" rule: commit_cases)
         (use late in \<open>auto intro: committed in_doubt refused\<close>)
  qed
qed

lemma create_effects:
  assumes "create_body e c nonce zone cfg ids uuid cx uid q rt d = Inr (d', body)"
  shows "schema_ok d \<Longrightarrow> schema_ok d'" and "evolves d d'"
    and "schema_ok d \<Longrightarrow> revoked_dead d \<Longrightarrow> revoked_dead d'" and "audit_ok d \<Longrightarrow> audit_ok d'"
    and "int (CountNonTerminalTunnels u d') \<le> max (int (CountNonTerminalTunnels u d)) (MaxConcurrent cfg)"
    and "CountNonTerminalTunnels u d' = CountNonTerminalTunnels u d + (if u = uid then 1 else 0)"
    and "length (db_tunnels d') = length (db_tunnels d) + 1"
proof -
  from assms obtain n tid expires j b where h: "int (CountNonTerminalTunnels uid d) < MaxConcurrent cfg"
    "GenerateTunnelID (ids n) = Some tid" "find_tunnel tid d = None" "uid \<in> us_id ` set (db_users d)"
    "1 \<le> cr_port q" "cr_port q \<le> 65535" "expires = e_time e (CtInsert n) + cr_ttl q * usec_per_sec"
    "uuid \<notin> rt_id ` set (db_rt_tokens d)"
    "tunnel_json zone (create_response cfg q rt tid expires) = Some j" "body = json_text j @ ''\<newline>''"
    "CompleteIdempotentResponseInTransaction e c nonce (e_time e CtBegin) cx 201 body
       (tunnel_created uid q rt tid expires (e_time e CtBegin) uuid d) = Inr (d', b)"
    by (rule create_body_InrD)
  let ?d = "tunnel_created uid q rt tid expires (e_time e CtBegin) uuid d"
  note fr = complete_frame [OF h(11)]
  show "schema_ok d \<Longrightarrow> schema_ok d'" by (rule fr(6) [OF schema_created [OF _ h(3-6,8)]])
  show "evolves d d'" using evolves_created by (simp add: fr)
  show "schema_ok d \<Longrightarrow> revoked_dead d \<Longrightarrow> revoked_dead d'"
    using dead_created [of d tid uid q rt expires "e_time e CtBegin" uuid] h(3) unfolding revoked_dead_def fr by blast
  show "audit_ok d \<Longrightarrow> audit_ok d'"
    using audit_created [of d tid uid q rt expires "e_time e CtBegin" uuid] h(3) unfolding audit_ok_def fr by blast
  show "length (db_tunnels d') = length (db_tunnels d) + 1" by (simp add: fr)
  have "CountNonTerminalTunnels u d' = CountNonTerminalTunnels u ?d"
    by (simp add: CountNonTerminalTunnels_def fr)
  then show "CountNonTerminalTunnels u d' = CountNonTerminalTunnels u d + (if u = uid then 1 else 0)"
    "int (CountNonTerminalTunnels u d') \<le> max (int (CountNonTerminalTunnels u d)) (MaxConcurrent cfg)"
    using h(1) by (simp_all add: count_created)
qed

text \<open>The handlers keep the contract of the middleware.\<close>

interpretation create_handler: tunnel_handler "CreateTunnel sha e c nonce zone cfg draw ids uuid"
  for sha e c nonce zone cfg draw ids uuid
proof (rule tunnel_handler.intro)
  fix cx r
  show "tunnel_op (\<lambda>s. fst (CreateTunnel sha e c nonce zone cfg draw ids uuid cx r s))"
  proof (rule tunnel_op.intro)
    fix s :: srv
    assume ok: "schema_ok (sv_db s)"
    let ?s' = "fst (CreateTunnel sha e c nonce zone cfg draw ids uuid cx r s)"
    have "schema_ok (sv_db ?s') \<and> evolves (sv_db s) (sv_db ?s') \<and>
        (revoked_dead (sv_db s) \<longrightarrow> revoked_dead (sv_db ?s'))"
    proof (cases rule: CreateTunnel_cases [of sha e c nonce zone cfg draw ids uuid cx r s])
      case refused
      then show ?thesis using ok by simp
    next
      case committed
      show ?thesis using create_effects(1-3) [OF committed(6)] ok by (simp add: committed(7))
    next
      case in_doubt
      show ?thesis using create_effects(1-3) [OF in_doubt(2)] ok by (simp add: in_doubt(3))
    qed
    then show "schema_ok (sv_db ?s')" "evolves (sv_db s) (sv_db ?s')"
      "revoked_dead (sv_db s) \<Longrightarrow> revoked_dead (sv_db ?s')" by blast+
  qed
qed

interpretation list_handler: tunnel_handler "ListTunnels lenient collate e zone cfg" for lenient collate e zone cfg
  by unfold_locales (simp_all add: ListTunnels_def)

interpretation get_handler: tunnel_handler "GetTunnel e zone cfg tid" for e zone cfg tid
  by unfold_locales (simp_all add: GetTunnel_def)

interpretation delete_handler: tunnel_handler "DeleteTunnel e tid" for e tid
  by (rule tunnel_handler.intro)
     (simp add: DeleteTunnel_def split_def revoke_op.tunnel_op_axioms)

interpretation admin_revoke_handler: tunnel_handler "AdminRevokeTunnel e tid" for e tid
  by (rule tunnel_handler.intro)
     (simp add: AdminRevokeTunnel_def split_def revoke_op.tunnel_op_axioms)

subsection \<open>A sample creation\<close>

definition sample_ctx :: ctx where
  "sample_ctx = ContextWithAdmin background ''k1'' ''u1'' False"

definition sample_codec :: codec where
  "sample_codec = \<lparr>cd_seal = (\<lambda>_ text _. text), cd_open = (\<lambda>_ text _. Some text)\<rparr>"

definition create_sample :: request where
  "create_sample =
     \<lparr>rq_method = ''POST'', rq_path = ''/v1/tunnels'', rq_escaped_path = ''/v1/tunnels'', rq_raw_query = '''',
      rq_headers = [], rq_body = json_text (JObj [(''type'', JStr ''http''), (''local_port'', JNum 80)]),
      rq_broken_at = None, rq_limit = Some 200\<rparr>"

definition sample_create :: create_request where
  "sample_create = \<lparr>cr_type = ''http'', cr_host = ''127.0.0.1'', cr_port = 80, cr_ttl = 3600\<rparr>"

definition sample_minted :: "sha_fun \<Rightarrow> token" where
  "sample_minted sha =
     (let raw = ''rt_'' @ replicate 24 CHR ''2''
      in \<lparr>tk_kind = KindRuntime, tk_raw = raw, tk_prefix = ''rt_222222222'', tk_hash = HashToken sha raw\<rparr>)"

lemma decode_create_sample: "decode_create sample_config create_sample = Inr sample_create"
  by code_simp

lemma mint_sample: "MintRuntimeToken sha (\<lambda>_. Some 2) = Some (sample_minted sha)"
proof -
  have "random_base62 (\<lambda>_. Some 2) 24 = Some (replicate 24 CHR ''2'')" by code_simp
  then show ?thesis
    by (simp add: MintRuntimeToken_def sample_minted_def Let_def rtTokenBytes_def rtTokenPrefix_def tokenPrefixLen_def
        numeral_eq_Suc)
qed

lemma rfc3339_epoch:
  "rfc3339 (\<lambda>_. 0) 0 = Some ''1970-01-01T00:00:00Z''"
  "rfc3339 (\<lambda>_. 0) 3600000000 = Some ''1970-01-01T01:00:00Z''"
proof -
  have civil: "civil_of_days 0 = (1970, 1, 1)" by (simp add: civil_of_days_def march_split_def)
  have shown: "show_nat 1970 = ''1970''" "show_nat 0 = ''0''" "show_nat 1 = ''1''" "show_nat (Suc 0) = ''1''"
    by (simp_all add: show_nat.simps)
  have "pad_zeros 6 0 = ''000000''" by (simp add: pad_zeros_def shown eval_nat_numeral)
  then have frac: "show_frac 0 6 = ''''" by (simp add: show_frac_def)
  show "rfc3339 (\<lambda>_. 0) 0 = Some ''1970-01-01T00:00:00Z''"
    "rfc3339 (\<lambda>_. 0) 3600000000 = Some ''1970-01-01T01:00:00Z''"
    by (simp add: rfc3339_def civil frac show_zone_def, simp add: pad_int_def pad_zeros_def shown)+
qed

lemma create_body_sample:
  "\<exists>d' body. create_body (calm 0) c None (\<lambda>_. 0) sample_config (\<lambda>_ _. Some 2) ''r9'' sample_ctx ''u1'' sample_create
     (sample_minted sha) (sample_db Active 9) = Inr (d', body)"
proof -
  have gen: "GenerateTunnelID (\<lambda>_. Some 2) = Some ''t-cccccccccccccccc''" by code_simp
  have mc: "MaxConcurrent sample_config = 5" by (simp add: sample_config_def)
  have cnt: "CountNonTerminalTunnels ''u1'' (sample_db Active 9) = 1"
    by (simp add: CountNonTerminalTunnels_def sample_db_def)
  have ft: "find_tunnel ''t-cccccccccccccccc'' (sample_db Active 9) = None"
    by (simp add: find_tunnel_def sample_db_def)
  have users: "us_id ` set (db_users (sample_db Active 9)) = {''u1''}"
    and toks: "rt_id ` set (db_rt_tokens (sample_db Active 9)) = {''r1''}" by (simp_all add: sample_db_def)
  have res: "cx_reservation sample_ctx = None" by (simp add: sample_ctx_def context_defs)
  show ?thesis
    by (simp add: create_body_def Let_def mc cnt insert_tunnel_def gen sql_insert_tunnel_def ft sample_create_def
        users sql_insert_rt_def toks tunnel_json_def create_response_def time_json_def rfc3339_epoch
        CompleteIdempotentResponseInTransaction_def res)
qed

lemma create_sample_201:
  "rs_status (render (snd (CreateTunnel sha (calm 0) c None (\<lambda>_. 0) sample_config (\<lambda>_. Some 2) (\<lambda>_ _. Some 2)
     ''r9'' sample_ctx create_sample (fresh_srv (sample_db Active 9))))) = 201"
proof -
  have uid: "UserIDFromContext sample_ctx = ''u1''" by (simp add: sample_ctx_def context_defs)
  obtain d' body where b: "create_body (calm 0) c None (\<lambda>_. 0) sample_config (\<lambda>_ _. Some 2) ''r9'' sample_ctx ''u1''
      sample_create (sample_minted sha) (sample_db Active 9) = Inr (d', body)"
    using create_body_sample by blast
  show ?thesis
    unfolding CreateTunnel_def Let_def uid created_ops_def [symmetric]
    by (simp add: decode_create_sample mint_sample b commit_simps)
qed

subsection \<open>Properties\<close>

lemma check_create_InrD:
  assumes "check_create cfg q = Inr q'"
  shows "cr_type q' = ''http''" "1 \<le> cr_port q'" "cr_port q' \<le> 65535"
    "cr_host q' = ''127.0.0.1'' \<or> cr_host q' = ''localhost''" "cr_ttl q' \<le> whole_seconds (MaxTTL cfg)"
    and "1 \<le> whole_seconds (MaxTTL cfg) \<Longrightarrow> 1 \<le> cr_ttl q'"
proof -
  define host where "host = (if cr_host q = '''' then ''127.0.0.1'' else cr_host q)"
  define ttl where "ttl = (if cr_ttl q = 0 then default_ttl cfg else cr_ttl q)"
  have q': "cr_type q = ''http''" "1 \<le> cr_port q" "cr_port q \<le> 65535" "host = ''127.0.0.1'' \<or> host = ''localhost''"
    "0 \<le> cr_ttl q" "ttl \<le> whole_seconds (MaxTTL cfg)" "q' = q\<lparr>cr_host := host, cr_ttl := ttl\<rparr>"
    using assms unfolding check_create_def Let_def host_def [symmetric] ttl_def [symmetric]
    by (simp_all split: if_split_asm)
  then show "cr_type q' = ''http''" "1 \<le> cr_port q'" "cr_port q' \<le> 65535"
    "cr_host q' = ''127.0.0.1'' \<or> cr_host q' = ''localhost''" "cr_ttl q' \<le> whole_seconds (MaxTTL cfg)"
    by simp_all
  show "1 \<le> cr_ttl q'" if "1 \<le> whole_seconds (MaxTTL cfg)"
    using that q'(5) unfolding q'(7) ttl_def by (auto simp: default_ttl_def whole_seconds_def split: if_splits)
qed

lemma decode_create_InrD:
  assumes "decode_create cfg r = Inr q"
  obtains q0 where "check_create cfg q0 = Inr q"
  using assms by (auto simp: decode_create_def split: body_result.splits)

text \<open>
  C19: The quota holds: a creation never takes a user past \<open>MaxConcurrent\<close> tunnels in use, and never
  adds to the tunnels of a user who is at the limit already; it adds at most one tunnel, to those of the caller,
  whatever the request is and however the database calls go.
\<close>

theorem create_keeps_quota:
  "int (CountNonTerminalTunnels u (sv_db (fst (CreateTunnel sha e c nonce zone cfg draw ids uuid cx r s))))
     \<le> max (int (CountNonTerminalTunnels u (sv_db s))) (MaxConcurrent cfg) \<and>
   CountNonTerminalTunnels u (sv_db (fst (CreateTunnel sha e c nonce zone cfg draw ids uuid cx r s)))
     \<le> CountNonTerminalTunnels u (sv_db s) + (if u = UserIDFromContext cx then 1 else 0) \<and>
   length (db_tunnels (sv_db (fst (CreateTunnel sha e c nonce zone cfg draw ids uuid cx r s)))) \<le> length (db_tunnels (sv_db s)) + 1"
proof (cases rule: CreateTunnel_cases [of sha e c nonce zone cfg draw ids uuid cx r s])
  case refused
  then show ?thesis by simp
next
  case committed
  then show ?thesis using create_effects(5-7) [OF committed(6)] by simp
next
  case in_doubt
  then show ?thesis using create_effects(5-7) [OF in_doubt(2)] by simp
qed

text \<open>
  C20: A creation that is not answered with 201 is answered with an error and has changed nothing,
  unless the commit itself was in doubt.
\<close>

theorem create_error_atomic:
  assumes "CreateTunnel sha e c nonce zone cfg draw ids uuid cx r s = (s', ops)"
    and "rs_status (render ops) \<noteq> 201"
  shows "400 \<le> rs_status (render ops) \<and> (s' = s \<or> e_out e CtCommit = InDoubt)"
  using assms
  using assms refusalD
  by (cases rule: CreateTunnel_cases [of sha e c nonce zone cfg draw ids uuid cx r s]) auto
theorem create_error_atomic_witness:
  "400 \<le> rs_status (render (snd (CreateTunnel sample_sha (calm 5) sample_codec None (\<lambda>_. 0) sample_config (\<lambda>_. Some 2)
      (\<lambda>_ _. Some 2) ''r9'' background (sample_request '''') (fresh_srv (sample_db Active 9))))) \<and>
   fst (CreateTunnel sample_sha (calm 5) sample_codec None (\<lambda>_. 0) sample_config (\<lambda>_. Some 2)
      (\<lambda>_ _. Some 2) ''r9'' background (sample_request '''') (fresh_srv (sample_db Active 9))) =
     fresh_srv (sample_db Active 9)"
proof -
  let ?run = "CreateTunnel sample_sha (calm 5) sample_codec None (\<lambda>_. 0) sample_config (\<lambda>_. Some 2)
      (\<lambda>_ _. Some 2) ''r9'' background (sample_request '''') (fresh_srv (sample_db Active 9))"
  have "rs_status (render (snd ?run)) \<noteq> 201"
    by (simp add: CreateTunnel_def UserIDFromContext_def background_def)
  from create_error_atomic [OF prod.collapse [symmetric] this] show ?thesis by simp
qed

text \<open>
  C21: A creation answered with 201 has added exactly three rows: one fresh tunnel of the caller,
  reserved, with an identifier of the accepted shape and a lifetime within \<open>MaxTTL\<close>; one event, its
  creation; and one live runtime credential with the same expiry, whose stored prefix and digest
  accept the secret in the response.
\<close>

theorem create_success:
  assumes run: "CreateTunnel sha e c nonce zone cfg draw ids uuid cx r s = (s', ops)"
    and st: "rs_status (render ops) = 201"
    and draws: "\<And>i x. draw i = Some x \<Longrightarrow> x < 62" "\<And>n i x. ids n i = Some x \<Longrightarrow> x < 31"
    and sha: "\<And>x. length (sha x) = 32"
  shows "\<exists>q tid expires rt n t.
     tunnel_id_shape tid \<and> find_tunnel tid (sv_db s) = None \<and>
     db_tunnels (sv_db s') = db_tunnels (sv_db s) @ [new_tunnel_row tid (UserIDFromContext cx) q expires (e_time e CtBegin)] \<and>
     find_tunnel tid (sv_db s') =
       Some (new_tunnel_row tid (UserIDFromContext cx) q expires (e_time e CtBegin)) \<and>
     expires = e_time e (CtInsert n) + cr_ttl q * usec_per_sec \<and>
     cr_ttl q \<le> whole_seconds (MaxTTL cfg) \<and>
     db_events (sv_db s') = db_events (sv_db s) @
       [\<lparr>ev_tunnel = tid, ev_type = ''created'', ev_payload = NewStatus Reserved, ev_created = e_time e CtBegin\<rparr>] \<and>
     db_rt_tokens (sv_db s') = db_rt_tokens (sv_db s) @ [t] \<and> rt_tunnel t = tid \<and> rt_revoked t = None \<and> rt_expires t = expires \<and>
     ParsePrefix (tk_raw rt) = Some (rt_prefix t) \<and>
     VerifyTokenContext sha argon slot (tk_raw rt) (rt_hash t) = Inr True \<and>
     map_option (\<lambda>j. json_text j @ ''\<newline>'') (tunnel_json zone (create_response cfg q rt tid expires)) =
       Some (rs_body (render ops))"
  using run
proof (cases rule: CreateTunnel_cases [of sha e c nonce zone cfg draw ids uuid cx r s])
  case (refused w)
  then show ?thesis using run st refusalD [of w] by auto
next
  case in_doubt
  then show ?thesis using run st by auto
next
  case (committed q rt d' body)
  let ?now = "e_time e CtBegin" and ?uid = "UserIDFromContext cx"
  from committed(6) obtain n tid expires j b where h: "GenerateTunnelID (ids n) = Some tid"
    "find_tunnel tid (sv_db s) = None" "expires = e_time e (CtInsert n) + cr_ttl q * usec_per_sec"
    "tunnel_json zone (create_response cfg q rt tid expires) = Some j" "body = json_text j @ ''\<newline>''"
    and cp: "CompleteIdempotentResponseInTransaction e c nonce ?now cx 201 body
       (tunnel_created ?uid q rt tid expires ?now uuid (sv_db s)) = Inr (d', b)"
    by (rule create_body_InrD)
  have s': "sv_db s' = d'" and body: "rs_body (render ops) = body" using run committed(7) by auto
  obtain q0 where "check_create cfg q0 = Inr q" using decode_create_InrD [OF committed(2)] .
  note q = check_create_InrD [OF this]
  have rt: "KindOf (tk_raw rt) = KindRuntime \<and> length (tk_raw rt) = 27 \<and>
      ParsePrefix (tk_raw rt) = Some (tk_prefix rt) \<and>
      VerifyTokenContext sha argon slot (tk_raw rt) (tk_hash rt) = Inr True"
    by (rule minted_runtime_token) (use committed(3) draws(1) sha in auto)
  note rows = created_rows [OF cp h(2)]
  have lg: "db_events d' = db_events (sv_db s) @
      [\<lparr>ev_tunnel = tid, ev_type = ''created'', ev_payload = NewStatus Reserved, ev_created = ?now\<rparr>]"
    unfolding complete_frame(3) [OF cp] tunnel_created_def by (simp add: insertEvent_def)
  have t: "db_tunnels d' = db_tunnels (sv_db s) @ [new_tunnel_row tid ?uid q expires ?now]"
    by (simp add: complete_frame(1) [OF cp])
  show ?thesis
    unfolding s' body
    by (intro exI [of _ q] exI [of _ tid] exI [of _ expires] exI [of _ rt] exI [of _ n]
          exI [of _ "new_rt_row uuid tid rt expires ?now"] conjI)
       (use h rows q lg t rt GenerateTunnelID_shape [OF h(1) draws(2)] in \<open>simp_all\<close>)
qed

theorem create_success_witness:
  "\<exists>tid. tunnel_id_shape tid \<and> find_tunnel tid (sample_db Active 9) = None \<and>
     find_tunnel tid (sv_db (fst (CreateTunnel sample_sha (calm 0) sample_codec None (\<lambda>_. 0) sample_config (\<lambda>_. Some 2) (\<lambda>_ _. Some 2)
       ''r9'' sample_ctx create_sample (fresh_srv (sample_db Active 9))))) \<noteq> None"
proof -
  let ?run = "CreateTunnel sample_sha (calm 0) sample_codec None (\<lambda>_. 0) sample_config (\<lambda>_. Some 2) (\<lambda>_ _. Some 2)
       ''r9'' sample_ctx create_sample (fresh_srv (sample_db Active 9))"
  have "rs_status (render (snd ?run)) = 201" by (rule create_sample_201)
  note run = create_success [OF prod.collapse [symmetric] this, of "\<lambda>_ _ _ _ _ _. []" SlotWaitExpired]
  have len: "length (sample_sha x) = 32" for x :: string by simp
  have d1: "(\<lambda>_ :: nat. Some (2 :: nat)) i = Some x \<Longrightarrow> x < 62" for i x by simp
  have d2: "(\<lambda>_ _ :: nat. Some (2 :: nat)) n i = Some x \<Longrightarrow> x < 31" for n i x by simp
  from run [OF d1 d2 len] obtain q tid expires
    where "tunnel_id_shape tid" "find_tunnel tid (sv_db (fresh_srv (sample_db Active 9))) = None"
      "find_tunnel tid (sv_db (fst ?run)) =
        Some (new_tunnel_row tid (UserIDFromContext sample_ctx) q expires (e_time (calm 0) CtBegin))"
    by blast
  then show ?thesis by auto
qed

subsection \<open>The size of a response\<close>

lemma length_pad_int: "0 \<le> n \<Longrightarrow> n < 10 ^ k \<Longrightarrow> 0 < k \<Longrightarrow> length (pad_int k n) = k"
  using pad_zeros_facts [of "nat n" k] by (simp add: pad_int_def nat_less_iff)

text \<open>The characters of a time.\<close>

definition time_char :: "char \<Rightarrow> bool" where
  "time_char c \<longleftrightarrow> is_digit c \<or> c \<in> set ''-+:TZ.''"

lemma time_char_plain: "time_char c \<Longrightarrow> json_plain c \<and> is_ascii c"
  by (auto simp: time_char_def json_plain_def is_ascii_def is_digit_def in_range_def)

lemma digits_plain: "list_all is_digit s \<Longrightarrow> list_all time_char s"
  by (auto simp: list_all_iff time_char_def)

lemma show_frac_bound: "v < 1000000 \<Longrightarrow> length (show_frac v 6) \<le> 7 \<and> list_all time_char (show_frac v 6)"
proof -
  assume v: "v < 1000000"
  define p where "p = pad_zeros 6 (v mod 10 ^ 6)"
  have p: "length p = 6" "list_all is_digit p" using pad_zeros_facts [of v 6] v by (simp_all add: p_def)
  obtain j where "p = strip_zeros p @ replicate j CHR ''0''" using strip_zeros_split by blast
  then have "length (strip_zeros p) \<le> 6" "list_all is_digit (strip_zeros p)"
    using p by (metis length_append le_add1, metis list_all_append)
  moreover have "time_char CHR ''.''" by (simp add: time_char_def)
  ultimately show ?thesis
    using digits_plain unfolding show_frac_def p_def [symmetric] Let_def by auto
qed

lemma stamp_bound:
  assumes "length y = 4 \<and> list_all time_char y" "length fr \<le> 7 \<and> list_all time_char fr" "length zn \<le> 6 \<and> list_all time_char zn"
    and "\<And>w. w \<in> {mo, da, ho, mi, se} \<Longrightarrow> length w = 2 \<and> list_all time_char w"
  shows "length (y @ ''-'' @ mo @ ''-'' @ da @ ''T'' @ ho @ '':'' @ mi @ '':'' @ se @ fr @ zn) \<le> 32 \<and>
     list_all time_char (y @ ''-'' @ mo @ ''-'' @ da @ ''T'' @ ho @ '':'' @ mi @ '':'' @ se @ fr @ zn)"
proof -
  have "time_char CHR ''-''" "time_char CHR ''T''" "time_char CHR '':''" by (simp_all add: time_char_def)
  then show ?thesis using assms(1-3) assms(4) [of mo] assms(4) [of da] assms(4) [of ho] assms(4) [of mi] assms(4) [of se] by simp
qed

lemma rfc3339_bound:
  assumes t: "rfc3339 zone t = Some s" and z: "\<bar>zone t\<bar> < 1440"
  shows "length s \<le> 32 \<and> list_all time_char s"
proof -
  define loc where "loc = t + zone t * 60 * usec_per_sec"
  obtain y m d where c: "civil_of_days (loc div usec_per_day) = (y, m, d)" by (cases "civil_of_days (loc div usec_per_day)")
  define us secs where "us = loc mod usec_per_day" and "secs = us div usec_per_sec"
  have y: "0 \<le> y" "y \<le> 9999"
    and s: "s = pad_int 4 y @ ''-'' @ pad_int 2 m @ ''-'' @ pad_int 2 d @ ''T'' @ pad_int 2 (secs div 3600) @
       '':'' @ pad_int 2 (secs div 60 mod 60) @ '':'' @ pad_int 2 (secs mod 60) @
       show_frac (nat (us mod usec_per_sec)) 6 @ show_zone (zone t)"
    using t unfolding rfc3339_def Let_def loc_def [symmetric] c us_def [symmetric] secs_def [symmetric]
    by (auto split: if_splits)
  note cv = civil_roundtrip [OF c]
  have "days_in_month y m \<le> 31" by (simp add: days_in_month_def)
  with cv have d: "0 \<le> d" "d < 100" "0 \<le> m" "m < 100" by linarith+
  have "0 \<le> us" "us < usec_per_day" by (simp_all add: us_def)
  then have secs: "0 \<le> secs" "secs < 86400" by (simp_all add: secs_def)
  have two: "length (pad_int 2 n) = 2 \<and> list_all time_char (pad_int 2 n)" if "0 \<le> n" "n < 100" for n
    using that pad_zeros_facts [of "nat n" 2] digits_plain by (simp add: pad_int_def nat_less_iff)
  have four: "length (pad_int 4 y) = 4 \<and> list_all time_char (pad_int 4 y)"
    using y pad_zeros_facts [of "nat y" 4] digits_plain by (simp add: pad_int_def nat_less_iff)
  have fr: "length (show_frac (nat (us mod usec_per_sec)) 6) \<le> 7 \<and> list_all time_char (show_frac (nat (us mod usec_per_sec)) 6)"
    by (rule show_frac_bound) (simp add: nat_less_iff)
  have ch: "time_char CHR ''-''" "time_char CHR ''+''" "time_char CHR '':''" "time_char CHR ''T''" "time_char CHR ''Z''"
    by (simp_all add: time_char_def)
  have hh: "\<bar>zone t\<bar> div 60 < 100" using z by linarith
  have zn: "length (show_zone (zone t)) \<le> 6 \<and> list_all time_char (show_zone (zone t))"
    using two [of "\<bar>zone t\<bar> div 60"] two [of "\<bar>zone t\<bar> mod 60"] hh ch by (simp add: show_zone_def)
  have h: "secs div 3600 < 100" "0 \<le> secs div 3600" using secs by linarith+
  show ?thesis
    unfolding s
  proof (rule stamp_bound [OF four fr zn])
    fix w assume "w \<in> {pad_int 2 m, pad_int 2 d, pad_int 2 (secs div 3600), pad_int 2 (secs div 60 mod 60), pad_int 2 (secs mod 60)}"
    moreover have "0 \<le> secs div 60 mod 60" "secs div 60 mod 60 < 100" "0 \<le> secs mod 60" "secs mod 60 < 100" by simp_all
    ultimately show "length w = 2 \<and> list_all time_char w" using two d h by blast
  qed
qed

lemma label_plain: "list_all label_char l \<Longrightarrow> list_all json_plain l"
  by (auto simp: list_all_iff label_char_def json_plain_def char_class_defs)

lemma split_char_cover: "c \<in> set s \<Longrightarrow> c \<noteq> d \<Longrightarrow> \<exists>w \<in> set (split_char d s). c \<in> set w"
proof (induction s)
  case (Cons x s)
  obtain w ws where w: "split_char d s = w # ws" by (cases "split_char d s") auto
  then show ?case using Cons by auto
qed simp

lemma hostname_plain:
  assumes "validHostname h"
  shows "length h \<le> 253 \<and> list_all json_plain h"
proof -
  have "list_all json_plain h"
    unfolding list_all_iff
  proof
    fix c assume c: "c \<in> set h"
    show "json_plain c"
    proof (cases "c = CHR ''.''")
      case False
      then obtain l where "l \<in> set (split_char CHR ''.'' h)" "c \<in> set l" using split_char_cover c by blast
      with assms have "list_all label_char l"
        by (auto simp: validHostname_def valid_label_def list_all_iff)
      with label_plain \<open>c \<in> set l\<close> show ?thesis by (auto simp: list_all_iff)
    qed (simp add: json_plain_def)
  qed
  with assms show ?thesis by (simp add: validHostname_def)
qed

lemma plain_keys:
  "list_all (list_all json_plain)
     [''server_addr'', ''server_port'', ''server_token'', ''proxy_name'', ''proxy_type'', ''subdomain'', ''local_ip'',
      ''local_port'', ''tunnel_id'', ''status'', ''type'', ''public_url'', ''expires_at'', ''runtime_token'', ''frp'',
      ''http'', ''reserved'', ''127.0.0.1'', ''localhost'', ''https://'']"
  by code_simp

lemma length_show_int: "0 \<le> i \<Longrightarrow> i < 10 ^ Suc k \<Longrightarrow> length (show_int i) \<le> Suc k"
  using length_show_nat [of "nat i" k] by (simp add: show_int_def nat_less_iff)

lemma created_body_fits:
  assumes cfg: "Validate cfg = Inr ()" and q: "decode_create cfg r = Inr q"
    and rt: "MintRuntimeToken sha draw = Some rt" "\<And>i n. draw i = Some n \<Longrightarrow> n < 62"
    and tid: "GenerateTunnelID ids = Some tid" "\<And>i n. ids i = Some n \<Longrightarrow> n < 31"
    and j: "tunnel_json zone (create_response cfg q rt tid expires) = Some j" and z: "\<bar>zone expires\<bar> < 1440"
  shows "length (json_text j @ ''\<newline>'') \<le> maxCachedBodySize"
proof -
  note v = Validate_InrD [OF cfg]
  obtain q0 where "check_create cfg q0 = Inr q" using decode_create_InrD [OF q] .
  note q = check_create_InrD [OF this]
  obtain ex where ex: "rfc3339 zone expires = Some ex"
    using j by (auto simp: tunnel_json_def create_response_def time_json_def)
  have ex_b: "length ex \<le> 32" "list_all json_plain ex"
    using rfc3339_bound [OF ex z] time_char_plain by (auto simp: list_all_iff)
  have sh: "tunnel_id_shape tid" by (rule GenerateTunnelID_shape [OF tid])
  have alnum: "json_plain c" if "is_digit c \<or> is_lower c \<or> is_upper c \<or> c = CHR ''_'' \<or> c = CHR ''-''" for c
    using that by (auto simp: json_plain_def char_class_defs)
  have t: "length tid = 18" "list_all json_plain tid"
    using tunnel_id_length [OF sh] tunnel_id_chars [OF sh] alnum by (auto simp: list_all_iff)
  obtain raw where raw: "random_base62 draw rtTokenBytes = Some raw" "tk_raw rt = rtTokenPrefix @ raw"
    using rt(1) by (auto simp: MintRuntimeToken_def Let_def split: option.splits)
  have "length raw = 24" using random_base62_SomeD [OF raw(1) rt(2)] by (simp add: rtTokenBytes_def)
  then have r: "length (tk_raw rt) = 27" "tk_raw rt \<noteq> []" by (simp_all add: raw(2) rtTokenPrefix_def)
  have "json_plain c" if "c \<in> set (tk_raw rt)" for c
  proof -
    have "is_digit c \<or> is_lower c \<or> is_upper c \<or> c = CHR ''_''"
      by (rule minted_runtime_chars [OF rt(1) _ that]) (rule rt(2))
    then show ?thesis using alnum by blast
  qed
  then have rp: "list_all json_plain (tk_raw rt)" by (simp add: list_all_iff)
  have dm: "length (TunnelDomain cfg) \<le> 253" "list_all json_plain (TunnelDomain cfg)"
    "length (FRPSDomain cfg) \<le> 253" "list_all json_plain (FRPSDomain cfg)"
    using hostname_plain [OF v(5)] hostname_plain [OF v(7)] by simp_all
  have sec: "length (FRPSAuthToken cfg) \<le> 256" "list_all json_plain (FRPSAuthToken cfg)"
    using v(3) alnum by (auto simp: validServiceSecret_def list_all_iff url_safe_def)
  have host: "length (cr_host q) \<le> 9" "list_all json_plain (cr_host q)" using q(4) plain_keys by auto
  have port: "length (show_int (cr_port q)) \<le> 5"
    using length_show_int [of "cr_port q" 4] q(2,3) by simp
  have p7: "length (show_int 7000) \<le> 4" using length_show_int [of 7000 3] by simp
  have dot: "json_plain CHR ''.''" by (simp add: json_plain_def)
  have "length (json_text j) \<le> 1400"
    using j unfolding tunnel_json_def create_response_def time_json_def frp_json_def publicURL_def
    using plain_keys t r rp dm sec host port p7 ex_b dot
    by (auto simp: ex length_join_with_Cons length_json_string_plain q(1))
  then show ?thesis by (simp add: maxCachedBodySize_def)
qed

text \<open>
  The answer to a creation always fits the idempotency cache, so its size never makes a creation
  fail: under a validated configuration, for every request that passes the checks and every
  identifier and credential that can be generated, the response is written in at most 4096 bytes.
\<close>

lemma create_response_fits:
  assumes cfg: "Validate cfg = Inr ()" and q: "decode_create cfg r = Inr q"
    and rt: "MintRuntimeToken sha draw = Some rt" "\<And>i n. draw i = Some n \<Longrightarrow> n < 62"
    and tid: "GenerateTunnelID ids = Some tid" "\<And>i n. ids i = Some n \<Longrightarrow> n < 31"
    and j: "tunnel_json zone (create_response cfg q rt tid expires) = Some j" and z: "\<bar>zone expires\<bar> < 1440"
  shows "length (json_text j @ ''\<newline>'') \<le> maxCachedBodySize"
  using created_body_fits [OF assms] .

lemma create_response_fits_witness:
  "length (json_text (the (tunnel_json (\<lambda>_. 0) (create_response sample_config sample_create (sample_minted sample_sha) ''t-cccccccccccccccc'' 0)))
     @ ''\<newline>'') \<le> maxCachedBodySize"
proof (rule create_response_fits [OF Validate_sample])
  show "decode_create sample_config create_sample = Inr sample_create" by (rule decode_create_sample)
  show "MintRuntimeToken sample_sha (\<lambda>_. Some 2) = Some (sample_minted sample_sha)"
    by (rule mint_sample)
  show "GenerateTunnelID (\<lambda>_. Some 2) = Some ''t-cccccccccccccccc''" by code_simp
  show "tunnel_json (\<lambda>_. 0) (create_response sample_config sample_create (sample_minted sample_sha) ''t-cccccccccccccccc'' 0) =
      Some (the (tunnel_json (\<lambda>_. 0) (create_response sample_config sample_create (sample_minted sample_sha) ''t-cccccccccccccccc'' 0)))"
    by (simp add: tunnel_json_def create_response_def time_json_def rfc3339_epoch)
qed simp_all

end
