(* ===== verification/Replay.thy ===== *)
theory Replay
  imports Tunnels
begin

text \<open>
  What the idempotency middleware (\<open>internal/server/api/idempotency.go\<close>) promises a client that
  sends a request again with the same key: the contract of the handlers that run under a
  reservation, the three states of a key (free, reserved, completed), the answers to a list of
  attempts under any failures, and what binds a key to its request and a cached answer to its key.
\<close>

subsection \<open>Answers\<close>

text \<open>The answer that a completed key holds.\<close>

definition stored_answer :: "codec \<Rightarrow> string \<Rightarrow> string \<Rightarrow> idem_row \<Rightarrow> (int \<times> string) option" where
  "stored_answer c tok key row =
     (case (ik_completed row, ik_status row, ik_body row) of
        (Some _, Some st, Some b) \<Rightarrow> map_option (Pair st) (codec_open c tok key st b)
      | _ \<Rightarrow> None)"

definition answer :: "wop list \<Rightarrow> int \<times> string" where
  "answer ops = (rs_status (render ops), rs_body (render ops))"

definition success :: "int \<times> string \<Rightarrow> bool" where
  "success a \<longleftrightarrow> is_2xx (fst a)"

lemma answer_WriteError [simp]: "answer (WriteError st code msg) = (st, error_body code msg)"
  by (simp add: answer_def)

lemma answer_in_flight [simp]: "answer (in_flight msg) = (409, error_body ErrInvalidRequest msg)"
  by (simp add: answer_def in_flight_def WriteError_def render_simps)

lemma answer_replay [simp]: "answer (replayCachedResponse st body) = (st, body)"
  by (simp add: answer_def replayCachedResponse_def render_simps)

lemma success_simps [simp]: "success (st, b) \<longleftrightarrow> 200 \<le> st \<and> st < 300"
  by (simp add: success_def is_2xx_def)

lemma serveExisting_success:
  assumes "find_idem tok key d = Some row" "success (answer (serveExistingIdempotent e c tok key hash d))"
  shows "stored_answer c tok key row = Some (answer (serveExistingIdempotent e c tok key hash d))"
  using assms
  by (auto simp: serveExistingIdempotent_def stored_answer_def split: if_splits option.splits)

subsection \<open>A key in use\<close>

text \<open>While the key has a row, a request with it does not run the handler and changes nothing.\<close>

lemma handle_existing:
  assumes "find_idem tok key (sv_db s) = Some row" "TokenIDFromContext cx = tok" "tok \<noteq> ''''"
  shows "\<exists>ops. (\<forall>next. handleIdempotentRequest sha e c nonce next key cx r s = (s, ops)) \<and>
     (success (answer ops) \<longrightarrow> stored_answer c tok key row = Some (answer ops))"
proof (cases "requestHashAndRestoreBody sha r")
  case (Inl en)
  with assms(2,3) show ?thesis
    by (cases en) (auto simp: handleIdempotentRequest_def)
next
  case (Inr hr)
  obtain hash r' where hr: "hr = (hash, r')" by (cases hr)
  have res: "sql_reserve now tok key hash (sv_db s) = Inr (sv_db s, 0)" for now
    using assms(1) by (simp add: sql_reserve_def)
  have ex: "pool_exec e IdReserve (\<lambda>_. s) s = (s, ok e IdReserve)"
    by (cases "e_out e IdReserve") (simp_all add: pool_exec_def)
  define ops where "ops = (if ok e IdReserve then serveExistingIdempotent e c tok key hash (sv_db s)
      else WriteError 500 ErrInternal ''idempotency reserve failed'')"
  have "handleIdempotentRequest sha e c nonce next key cx r s = (s, ops)" for "next"
    using assms(2,3) by (simp add: handleIdempotentRequest_def Inr hr res ex ops_def)
  moreover have "success (answer ops) \<Longrightarrow> stored_answer c tok key row = Some (answer ops)"
    using serveExisting_success [OF assms(1)] by (auto simp: ops_def split: if_splits)
  ultimately show ?thesis by blast
qed


subsection \<open>The contract of a handler under a reservation\<close>

text \<open>
  Such a handler runs while its key is reserved.  It either leaves the reservation as it is and has
  no effect that \<open>effect\<close> counts, or it completes the reservation in the transaction of its one
  effect, with the sealed text of the answer it gives if it succeeds.  A handler answers a whole
  response: no panic, no status 0.
\<close>

definition completed_with :: "codec \<Rightarrow> string \<Rightarrow> string \<Rightarrow> idem_row \<Rightarrow> idem_row \<Rightarrow> int \<times> string \<Rightarrow> bool" where
  "completed_with c tok key row row' a \<longleftrightarrow>
     (\<exists>now enc n. row' = row\<lparr>ik_status := Some (fst a), ik_body := Some enc, ik_completed := Some now\<rparr> \<and>
        codec_seal c n tok key (fst a) (snd a) = Some enc)"

locale reserved_handler =
  fixes c :: codec and inner :: handler and effect :: "db \<Rightarrow> nat"
  assumes reserved: "schema_ok (sv_db s) \<Longrightarrow> cx_reservation cx = Some \<lparr>rv_token = tok, rv_key = key\<rparr> \<Longrightarrow>
      find_idem tok key (sv_db s) = Some row \<Longrightarrow> ik_completed row = None \<Longrightarrow> inner cx r s = (s', ops) \<Longrightarrow>
      (find_idem tok key (sv_db s') = Some row \<and> effect (sv_db s') = effect (sv_db s)) \<or>
      (\<exists>row' a. find_idem tok key (sv_db s') = Some row' \<and> completed_with c tok key row row' a \<and>
         effect (sv_db s') \<le> effect (sv_db s) + 1 \<and> (success (answer ops) \<longrightarrow> answer ops = a))"
    and whole: "Panicked \<notin> set (snd (inner cx r s))" "no_zero_status (snd (inner cx r s))"
    and keeps_schema: "schema_ok (sv_db s) \<Longrightarrow> schema_ok (sv_db (fst (inner cx r s)))"
    and effect_idem: "db_tunnels d' = db_tunnels d \<Longrightarrow> effect d' = effect d"

text \<open>What the persisting of a response does to the key of the request.\<close>

lemma pool_exec_fst: "fst (pool_exec e k f d) = d \<or> fst (pool_exec e k f d) = f d"
  by (cases "e_out e k") (simp_all add: pool_exec_def)

lemma persist_cases:
  obtains (untouched) "persistCompletion e c nonce tok key rc d = d"
  | (released) "persistCompletion e c nonce tok key rc d = sql_release tok key d"
  | (completed) now st b where "200 \<le> st" "st < 300"
      "persistCompletion e c nonce tok key rc d = fst (sql_complete now tok key st b d)"
proof (cases "rc_status rc < 200 \<or> 300 \<le> rc_status rc")
  case True
  then show ?thesis
    using pool_exec_fst [of e IdRelease "sql_release tok key" d] untouched released
    by (auto simp: persistCompletion_def)
next
  case False
  then have st: "200 \<le> rc_status rc" "rc_status rc < 300" by auto
  have un: ?thesis if "persistCompletion e c nonce tok key rc d = markResponseUncacheable e tok key (rc_status rc) d"
    using pool_exec_fst [of e IdUncache "\<lambda>d. fst (sql_complete (e_time e IdUncache) tok key (rc_status rc) None d)" d]
      that untouched completed [OF st] by (auto simp: markResponseUncacheable_def)
  show ?thesis
  proof (cases "rc_too_large rc \<or> codec_seal c nonce tok key (rc_status rc) (rc_body rc) = None")
    case True
    with False show ?thesis by (intro un) (auto simp: persistCompletion_def)
  next
    case seal: False
    then obtain enc where "codec_seal c nonce tok key (rc_status rc) (rc_body rc) = Some enc" by auto
    with False seal have "persistCompletion e c nonce tok key rc d = fst (pool_exec e IdPersist
        (\<lambda>d. fst (sql_complete (e_time e IdPersist) tok key (rc_status rc) (Some enc) d)) d)"
      by (simp add: persistCompletion_def)
    then show ?thesis
      using pool_exec_fst [of e IdPersist "\<lambda>d. fst (sql_complete (e_time e IdPersist) tok key (rc_status rc) (Some enc) d)" d]
        untouched completed [OF st] by auto
  qed
qed

lemma persist_effects:
  shows "db_tunnels (persistCompletion e c nonce tok key rc d) = db_tunnels d"
    and "schema_ok d \<Longrightarrow> schema_ok (persistCompletion e c nonce tok key rc d)"
  by (cases rule: persist_cases [of e c nonce tok key rc d]; simp add: schema_release schema_complete)+

lemma persist_completed:
  assumes "schema_ok d" "find_idem tok key d = Some row" "ik_completed row \<noteq> None"
  shows "find_idem tok key (persistCompletion e c nonce tok key rc d) = Some row"
  using assms
  by (cases rule: persist_cases [of e c nonce tok key rc d])
     (auto simp: find_release find_complete pending_def)

lemma persist_pending:
  assumes "schema_ok d" "find_idem tok key d = Some row" "ik_completed row = None"
    and rc: "rc = captureResponse ops" "no_zero_status ops" and c: "aead_ok c"
  shows "(\<not> success (answer ops) \<and> find_idem tok key (persistCompletion e c nonce tok key rc d) = None) \<or>
     (\<exists>row'. find_idem tok key (persistCompletion e c nonce tok key rc d) = Some row' \<and>
        (success (answer ops) \<longrightarrow> stored_answer c tok key row' \<in> {None, Some (answer ops)}))"
proof -
  have st: "rc_status rc = rs_status (render ops)" using capture_renders(2) [OF rc(2)] rc(1) by simp
  have pend: "pending tok key row"
    using find_idem_SomeD [OF assms(2)] assms(3) by (simp add: pending_def)
  show ?thesis
  proof (cases "rc_status rc < 200 \<or> 300 \<le> rc_status rc")
    case True
    with st have "\<not> success (answer ops)" by (auto simp: answer_def)
    with True pend assms(1,2) show ?thesis
      by (cases "e_out e IdRelease") (auto simp: persistCompletion_def pool_exec_def find_release)
  next
    case False
    have un: "\<exists>row'. find_idem tok key (markResponseUncacheable e tok key (rc_status rc) d) = Some row' \<and>
        stored_answer c tok key row' = None"
      using pend assms(2,3)
      by (cases "e_out e IdUncache")
         (simp_all add: markResponseUncacheable_def pool_exec_def find_complete stored_answer_def split: option.split)
    show ?thesis
    proof (cases "rc_too_large rc \<or> codec_seal c nonce tok key (rc_status rc) (rc_body rc) = None")
      case True
      with False un show ?thesis by (auto simp: persistCompletion_def)
    next
      case seal: False
      then obtain enc rnd where enc: "codec_seal c (Some rnd) tok key (rc_status rc) (rc_body rc) = Some enc"
        "nonce = Some rnd"
        by (auto simp: codec_seal_def)
      have body: "rc_body rc = rs_body (render ops)"
        using captureResponse_body [of ops] seal rc(1) foldl_wr_body [of new_writer ops]
        by (auto simp: render_def finish_def new_writer_def)
      have "codec_open c tok key (rc_status rc) enc = Some (rc_body rc)"
        by (rule codec_roundtrip [OF c enc(1)])
      then show ?thesis
        using False seal enc pend assms(2,3) st body
        by (cases "e_out e IdPersist")
           (auto simp: persistCompletion_def pool_exec_def find_complete stored_answer_def answer_def)
    qed
  qed
qed


subsection \<open>One attempt, and many\<close>

context reserved_handler
begin

lemma reserved_outcome:
  assumes "schema_ok (sv_db s)" "find_idem tok key (sv_db s) = Some row" "ik_completed row = None" "aead_ok c"
    and run: "runReserved e c nonce inner tok key cx r s = (s', ops)"
  shows "(\<not> success (answer ops) \<and> find_idem tok key (sv_db s') = None \<and> effect (sv_db s') = effect (sv_db s)) \<or>
     (\<exists>row'. find_idem tok key (sv_db s') = Some row' \<and> effect (sv_db s') \<le> effect (sv_db s) + 1 \<and>
        (success (answer ops) \<longrightarrow> stored_answer c tok key row' \<in> {None, Some (answer ops)}))"
    and "schema_ok (sv_db s')"
proof -
  let ?cx = "cx\<lparr>cx_reservation := Some \<lparr>rv_token = tok, rv_key = key\<rparr>\<rparr>"
  obtain s1 w where n: "inner ?cx r s = (s1, w)" by (cases "inner ?cx r s")
  let ?d = "persistCompletion e c nonce tok key (captureResponse w) (sv_db s1)"
  have w: "Panicked \<notin> set w" "no_zero_status w" using whole [of ?cx r s] n by simp_all
  have s1: "schema_ok (sv_db s1)" using keeps_schema [OF assms(1), of ?cx r] n by simp
  have ops: "answer ops = answer w" and d: "sv_db s' = ?d"
    using run w capture_renders(1) [OF w(2)] by (auto simp: runReserved_def n Let_def answer_def)
  show "schema_ok (sv_db s')" unfolding d by (rule persist_effects(2) [OF s1])
  have eff: "effect ?d = effect (sv_db s1)" by (rule effect_idem) (rule persist_effects(1))
  have "cx_reservation ?cx = Some \<lparr>rv_token = tok, rv_key = key\<rparr>" by simp
  from reserved [OF assms(1) this assms(2,3) n]
  consider (left) "find_idem tok key (sv_db s1) = Some row" "effect (sv_db s1) = effect (sv_db s)"
    | (finished) row' a where "find_idem tok key (sv_db s1) = Some row'" "completed_with c tok key row row' a"
        "effect (sv_db s1) \<le> effect (sv_db s) + 1" "success (answer w) \<longrightarrow> answer w = a"
    by blast
  then show "(\<not> success (answer ops) \<and> find_idem tok key (sv_db s') = None \<and> effect (sv_db s') = effect (sv_db s)) \<or>
     (\<exists>row'. find_idem tok key (sv_db s') = Some row' \<and> effect (sv_db s') \<le> effect (sv_db s) + 1 \<and>
        (success (answer ops) \<longrightarrow> stored_answer c tok key row' \<in> {None, Some (answer ops)}))"
  proof cases
    case left
    from persist_pending [OF s1 left(1) assms(3) refl w(2) assms(4), of e nonce] left(2)
    show ?thesis unfolding d eff ops by auto
  next
    case finished
    from finished(2) obtain now enc n where row': "row' = row\<lparr>ik_status := Some (fst a), ik_body := Some enc, ik_completed := Some now\<rparr>"
      "codec_seal c n tok key (fst a) (snd a) = Some enc" unfolding completed_with_def by blast
    then obtain rnd where "codec_seal c (Some rnd) tok key (fst a) (snd a) = Some enc"
      by (auto simp: codec_seal_def)
    from codec_roundtrip [OF assms(4) this] have "stored_answer c tok key row' = Some a"
      by (simp add: stored_answer_def row')
    moreover have "find_idem tok key ?d = Some row'"
      by (rule persist_completed [OF s1 finished(1)]) (simp add: row')
    ultimately show ?thesis using finished(3,4) unfolding d eff ops by auto
  qed
qed

text \<open>One attempt with a free key.\<close>

lemma reserve_cases:
  assumes "find_idem tok key (sv_db s) = None" "TokenIDFromContext cx = tok" "tok \<noteq> ''''"
    and h: "requestHashAndRestoreBody sha r = Inr (hash, r')"
    and run: "handleIdempotentRequest sha e c nonce inner key cx r s = (s', ops)"
  defines "s1 \<equiv> s\<lparr>sv_db := (sv_db s)\<lparr>db_idem := db_idem (sv_db s) @ [reservation_row tok key hash (e_time e IdReserve)]\<rparr>\<rparr>"
  shows "(s' = s \<and> \<not> success (answer ops)) \<or>
     (tok \<in> at_id ` set (db_api_tokens (sv_db s)) \<and>
        ((s' = s1 \<and> \<not> success (answer ops)) \<or> runReserved e c nonce inner tok key cx r' s1 = (s', ops)))"
proof (cases "tok \<in> at_id ` set (db_api_tokens (sv_db s))")
  case False
  then have "sql_reserve (e_time e IdReserve) tok key hash (sv_db s) = Inl ForeignKeyViolation"
    using assms(1) by (simp add: sql_reserve_def)
  then show ?thesis using run assms(2,3) by (auto simp: handleIdempotentRequest_def h Let_def)
next
  case True
  then have q: "sql_reserve (e_time e IdReserve) tok key hash (sv_db s) = Inr (sv_db s1, 1)"
    using assms(1) by (simp add: sql_reserve_def s1_def)
  have s1: "s\<lparr>sv_db := sv_db s1\<rparr> = s1" by (simp add: s1_def)
  show ?thesis
    using run assms(2,3) True
    by (cases "e_out e IdReserve") (auto simp: handleIdempotentRequest_def h Let_def q pool_exec_def s1)
qed

lemma first_attempt:
  assumes "schema_ok (sv_db s)" "find_idem tok key (sv_db s) = None" "TokenIDFromContext cx = tok" "tok \<noteq> ''''"
    "aead_ok c" and run: "handleIdempotentRequest sha e c nonce inner key cx r s = (s', ops)"
  shows "(\<not> success (answer ops) \<and> find_idem tok key (sv_db s') = None \<and> effect (sv_db s') = effect (sv_db s)) \<or>
     (\<exists>row'. find_idem tok key (sv_db s') = Some row' \<and> effect (sv_db s') \<le> effect (sv_db s) + 1 \<and>
        (success (answer ops) \<longrightarrow> stored_answer c tok key row' \<in> {None, Some (answer ops)}))"
    and "schema_ok (sv_db s')"
proof -
  let ?now = "e_time e IdReserve"
  let ?goal = "(\<not> success (answer ops) \<and> find_idem tok key (sv_db s') = None \<and> effect (sv_db s') = effect (sv_db s)) \<or>
     (\<exists>row'. find_idem tok key (sv_db s') = Some row' \<and> effect (sv_db s') \<le> effect (sv_db s) + 1 \<and>
        (success (answer ops) \<longrightarrow> stored_answer c tok key row' \<in> {None, Some (answer ops)}))"
  have "?goal \<and> schema_ok (sv_db s')"
  proof (cases "requestHashAndRestoreBody sha r")
    case (Inl en)
    with run assms(1-4) show ?thesis by (cases en) (auto simp: handleIdempotentRequest_def)
  next
    case (Inr hr)
    obtain hash r' where hr: "hr = (hash, r')" by (cases hr)
    let ?row = "reservation_row tok key hash ?now"
    let ?s1 = "s\<lparr>sv_db := (sv_db s)\<lparr>db_idem := db_idem (sv_db s) @ [?row]\<rparr>\<rparr>"
    consider (refused) "s' = s" "\<not> success (answer ops)"
      | (reserved) "tok \<in> at_id ` set (db_api_tokens (sv_db s))"
          "(s' = ?s1 \<and> \<not> success (answer ops)) \<or> runReserved e c nonce inner tok key cx r' ?s1 = (s', ops)"
      using reserve_cases [OF assms(2-4) Inr [unfolded hr] run] by blast
    then show ?thesis
    proof cases
      case refused
      with assms(1,2) show ?thesis by simp
    next
      case reserved
      have d1: "schema_ok (sv_db ?s1)" using schema_reserve [OF assms(1,2) reserved(1)] by simp
      have row: "find_idem tok key (sv_db ?s1) = Some ?row" using find_reserve [OF assms(2)] by simp
      have eff: "effect (sv_db ?s1) = effect (sv_db s)" by (rule effect_idem) simp
      have "ik_completed ?row = None" by (simp add: reservation_row_def)
      note out = reserved_outcome [OF d1 row this assms(5), of e nonce cx r' s' ops]
      from reserved(2) show ?thesis
      proof
        assume "s' = ?s1 \<and> \<not> success (answer ops)"
        with d1 row eff show ?thesis by auto
      next
        assume "runReserved e c nonce inner tok key cx r' ?s1 = (s', ops)"
        from out [OF this] show ?thesis unfolding eff by simp
      qed
    qed
  qed
  then show ?goal "schema_ok (sv_db s')" by auto
qed

end


text \<open>
  A client that sends one request several times, each time under an environment of its own and with
  the handler as that run finds it: the final state, and what was answered.
\<close>

type_synonym attempt = "env \<times> nonce \<times> handler"

fun attempts ::
  "sha_fun \<Rightarrow> seal_fun \<Rightarrow> open_fun \<Rightarrow> string \<Rightarrow> ctx \<Rightarrow> request \<Rightarrow> attempt list \<Rightarrow> srv \<Rightarrow> srv \<times> wop list list" where
  "attempts sha seal opn secret cx r [] s = (s, [])"
| "attempts sha seal opn secret cx r ((e, nonce, inner) # as) s =
     (case IdempotencyMiddleware sha seal opn secret e nonce inner cx r s of
        (s1, ops) \<Rightarrow> (case attempts sha seal opn secret cx r as s1 of (s2, answers) \<Rightarrow> (s2, ops # answers)))"

definition keyed :: "ctx \<Rightarrow> request \<Rightarrow> bool" where
  "keyed cx r \<longleftrightarrow> methodNeedsIdempotency (rq_method r) \<and> TokenIDFromContext cx \<noteq> '''' \<and>
     header_get ''Idempotency-Key'' r \<noteq> ''''"

lemma middleware_keyed:
  assumes "keyed cx r" "length (header_get ''Idempotency-Key'' r) \<le> maxIdempotencyKeyLen"
  shows "IdempotencyMiddleware sha seal opn secret e nonce inner cx r s =
     handleIdempotentRequest sha e (newIdempotencyCodec seal opn sha secret) nonce inner
       (header_get ''Idempotency-Key'' r) cx r s"
  using assms by (simp add: IdempotencyMiddleware_def keyed_def Let_def)

text \<open>The answers agree: all that succeed are the same.\<close>

definition agree :: "(int \<times> string) option \<Rightarrow> wop list list \<Rightarrow> bool" where
  "agree known answers \<longleftrightarrow> (\<forall>ops \<in> set answers. success (answer ops) \<longrightarrow> known = Some (answer ops))"

lemma attempts_refused:
  assumes "keyed cx r" "maxIdempotencyKeyLen < length (header_get ''Idempotency-Key'' r)"
  shows "fst (attempts sha seal opn secret cx r as s) = s \<and> agree None (snd (attempts sha seal opn secret cx r as s))"
proof (induction as)
  case (Cons a as)
  then show ?case
    using assms by (cases a) (auto simp: IdempotencyMiddleware_def keyed_def agree_def Let_def split: prod.splits)
qed (simp add: agree_def)

lemma attempts_frozen:
  assumes "keyed cx r" "length (header_get ''Idempotency-Key'' r) \<le> maxIdempotencyKeyLen"
    and "find_idem (TokenIDFromContext cx) (header_get ''Idempotency-Key'' r) (sv_db s) = Some row"
  shows "fst (attempts sha seal opn secret cx r as s) = s \<and>
     agree (stored_answer (newIdempotencyCodec seal opn sha secret) (TokenIDFromContext cx)
              (header_get ''Idempotency-Key'' r) row) (snd (attempts sha seal opn secret cx r as s))"
proof (induction as)
  case (Cons a as)
  obtain e nonce inner where a: "a = (e, nonce, inner)" by (cases a)
  from handle_existing [OF assms(3) refl] assms(1) obtain ops where
    "handleIdempotentRequest sha e (newIdempotencyCodec seal opn sha secret) nonce inner
       (header_get ''Idempotency-Key'' r) cx r s = (s, ops)"
    "success (answer ops) \<longrightarrow> stored_answer (newIdempotencyCodec seal opn sha secret) (TokenIDFromContext cx)
       (header_get ''Idempotency-Key'' r) row = Some (answer ops)"
    unfolding keyed_def by blast
  with Cons.IH show ?case
    by (auto simp: a middleware_keyed [OF assms(1,2)] agree_def split: prod.split)
qed (simp add: agree_def)

lemma attempts_once:
  assumes k: "keyed cx r" and c: "aead_ok (newIdempotencyCodec seal opn sha secret)"
    and h: "\<And>a. a \<in> set as \<Longrightarrow> reserved_handler (newIdempotencyCodec seal opn sha secret) (snd (snd a)) effect"
    and s: "schema_ok (sv_db s)"
  shows "effect (sv_db (fst (attempts sha seal opn secret cx r as s))) \<le> effect (sv_db s) + 1 \<and>
     (\<exists>known. agree known (snd (attempts sha seal opn secret cx r as s)))"
proof (cases "length (header_get ''Idempotency-Key'' r) \<le> maxIdempotencyKeyLen")
  case False
  with attempts_refused [OF k, of sha seal opn secret as s] show ?thesis by auto
next
  case len: True
  let ?c = "newIdempotencyCodec seal opn sha secret"
  let ?tok = "TokenIDFromContext cx" and ?key = "header_get ''Idempotency-Key'' r"
  show ?thesis
    using h s
  proof (induction as arbitrary: s)
    case Nil
    then show ?case by (simp add: agree_def)
  next
    case (Cons a as)
    obtain e nonce inner where a: "a = (e, nonce, inner)" by (cases a)
    show ?case
    proof (cases "find_idem ?tok ?key (sv_db s)")
      case (Some row)
      from attempts_frozen [OF k len Some, of sha seal opn secret "a # as"] show ?thesis by auto
    next
      case None
      obtain s1 ops where run: "handleIdempotentRequest sha e ?c nonce inner ?key cx r s = (s1, ops)"
        by (cases "handleIdempotentRequest sha e ?c nonce inner ?key cx r s")
      have rh: "reserved_handler ?c inner effect" using Cons.prems(1) [of a] a by simp
      have rest: "\<And>b. b \<in> set as \<Longrightarrow> reserved_handler ?c (snd (snd b)) effect" using Cons.prems(1) by simp
      have tok: "?tok \<noteq> ''''" using k by (simp add: keyed_def)
      note first = reserved_handler.first_attempt [OF rh Cons.prems(2) None refl tok c run]
      have step: "attempts sha seal opn secret cx r (a # as) s =
          (fst (attempts sha seal opn secret cx r as s1), ops # snd (attempts sha seal opn secret cx r as s1))"
        by (simp add: a middleware_keyed [OF k len] run split: prod.split)
      from first(1) show ?thesis
      proof (elim disjE exE conjE)
        assume "\<not> success (answer ops)" "effect (sv_db s1) = effect (sv_db s)"
        with Cons.IH [OF rest first(2)] show ?thesis
          unfolding step by (auto simp: agree_def)
      next
        fix row'
        assume row: "find_idem ?tok ?key (sv_db s1) = Some row'" "effect (sv_db s1) \<le> effect (sv_db s) + 1"
          "success (answer ops) \<longrightarrow> stored_answer ?c ?tok ?key row' \<in> {None, Some (answer ops)}"
        let ?known = "if success (answer ops) then Some (answer ops) else stored_answer ?c ?tok ?key row'"
        from attempts_frozen [OF k len row(1), of sha seal opn secret as]
        have "fst (attempts sha seal opn secret cx r as s1) = s1"
          "agree ?known (ops # snd (attempts sha seal opn secret cx r as s1))"
          using row(3) by (auto simp: agree_def)
        with row(2) show ?thesis unfolding step by auto
      qed
    qed
  qed
qed


subsection \<open>The handlers of the program keep the contract\<close>

abbreviation tunnel_count :: "db \<Rightarrow> nat" where
  "tunnel_count d \<equiv> length (db_tunnels d)"

lemma create_body_reserved:
  assumes body: "create_body e c nonce zone cfg ids uuid cx uid q rt d = Inr (d', body)"
    and rv: "cx_reservation cx = Some \<lparr>rv_token = tok, rv_key = key\<rparr>"
    and row: "find_idem tok key d = Some row" "ik_completed row = None"
  shows "\<exists>row'. find_idem tok key d' = Some row' \<and> completed_with c tok key row row' (201, body) \<and>
     tunnel_count d' = tunnel_count d + 1"
proof -
  from body obtain tid expires b where
    cp: "CompleteIdempotentResponseInTransaction e c nonce (e_time e CtBegin) cx 201 body
       (tunnel_created uid q rt tid expires (e_time e CtBegin) uuid d) = Inr (d', b)"
    by (rule create_body_InrD)
  let ?d = "tunnel_created uid q rt tid expires (e_time e CtBegin) uuid d"
  from complete_InrD [OF cp] rv obtain enc where enc: "codec_seal c nonce tok key 201 body = Some enc"
    "d' = fst (sql_complete (e_time e CtBegin) tok key 201 (Some enc) ?d)" by auto
  have "find_idem tok key ?d = Some row" using row by (simp add: find_idem_def)
  moreover have "pending tok key row" using find_idem_SomeD [OF row(1)] row(2) by (simp add: pending_def)
  ultimately have "find_idem tok key d' = Some (row\<lparr>ik_status := Some 201, ik_body := Some enc,
      ik_completed := Some (e_time e CtBegin)\<rparr>)"
    by (simp add: enc(2) find_complete)
  with enc(1) show ?thesis
    using complete_frame(1) [OF cp] by (auto simp: completed_with_def)
qed

interpretation create_reserved: reserved_handler c "CreateTunnel sha e c nonce zone cfg draw ids uuid" tunnel_count
  for sha e c nonce zone cfg draw ids uuid
proof (rule reserved_handler.intro)
  let ?h = "CreateTunnel sha e c nonce zone cfg draw ids uuid"
  fix s :: srv and s' cx tok key row r ops
  assume rv: "cx_reservation cx = Some \<lparr>rv_token = tok, rv_key = key\<rparr>"
    and row: "find_idem tok key (sv_db s) = Some row" "ik_completed row = None" and run: "?h cx r s = (s', ops)"
  show "(find_idem tok key (sv_db s') = Some row \<and> tunnel_count (sv_db s') = tunnel_count (sv_db s)) \<or>
     (\<exists>row' a. find_idem tok key (sv_db s') = Some row' \<and> completed_with c tok key row row' a \<and>
        tunnel_count (sv_db s') \<le> tunnel_count (sv_db s) + 1 \<and> (success (answer ops) \<longrightarrow> answer ops = a))"
  proof (cases rule: CreateTunnel_cases [of sha e c nonce zone cfg draw ids uuid cx r s])
    case (refused w)
    with run row(1) show ?thesis by simp
  next
    case (committed q rt d' body)
    from create_body_reserved [OF committed(6) rv row] committed(7) run show ?thesis
      by (auto simp: answer_def)
  next
    case (in_doubt q rt d' body)
    from create_body_reserved [OF in_doubt(2) rv row] in_doubt(3) run show ?thesis
      by (auto simp: answer_def)
  qed
next
  fix cx r s
  show "schema_ok (sv_db s) \<Longrightarrow> schema_ok (sv_db (fst (CreateTunnel sha e c nonce zone cfg draw ids uuid cx r s)))"
    using tunnel_op.run_schema [OF create_handler.handler_op, of s sha e c nonce zone cfg draw ids uuid cx r] .
  show "Panicked \<notin> set (snd (CreateTunnel sha e c nonce zone cfg draw ids uuid cx r s))"
    and "no_zero_status (snd (CreateTunnel sha e c nonce zone cfg draw ids uuid cx r s))"
    using refusalD
    by (cases rule: CreateTunnel_cases [of sha e c nonce zone cfg draw ids uuid cx r s]; force simp: created_ops_def)+
qed simp_all


text \<open>A handler that creates nothing and never touches the keys keeps the contract with any codec.\<close>

locale bystander_handler = tunnel_handler inner for inner +
  assumes same_keys: "db_idem (sv_db (fst (inner cx r s))) = db_idem (sv_db s)"
    and same_count: "tunnel_count (sv_db (fst (inner cx r s))) = tunnel_count (sv_db s)"
    and whole_answer: "Panicked \<notin> set (snd (inner cx r s))" "no_zero_status (snd (inner cx r s))"

sublocale bystander_handler \<subseteq> reserved_handler c inner tunnel_count for c
proof
  fix s s' cx tok key row r ops
  assume "find_idem tok key (sv_db s) = Some row" "inner cx r s = (s', ops)"
  then show "(find_idem tok key (sv_db s') = Some row \<and> tunnel_count (sv_db s') = tunnel_count (sv_db s)) \<or>
     (\<exists>row' a. find_idem tok key (sv_db s') = Some row' \<and> completed_with c tok key row row' a \<and>
        tunnel_count (sv_db s') \<le> tunnel_count (sv_db s) + 1 \<and> (success (answer ops) \<longrightarrow> answer ops = a))"
    using same_keys [of cx r s] same_count [of cx r s] by (simp add: find_idem_def)
next
  show "schema_ok (sv_db s) \<Longrightarrow> schema_ok (sv_db (fst (inner cx r s)))" for cx r s
    by (rule tunnel_op.run_schema [OF handler_op])
qed (simp_all add: whole_answer)

lemma Revoke_frame:
  "db_idem (sv_db (fst (Revoke e tid owner s))) = db_idem (sv_db s) \<and>
   tunnel_count (sv_db (fst (Revoke e tid owner s))) = tunnel_count (sv_db s)"
  using Revoke_db [of e tid owner s]
  by (auto simp: revoke_effect_def revokeRuntimeTokens_def insertEvent_def set_status_where_def update_where_def)

lemma whole_revoke_answer [simp]: "Panicked \<notin> set (revoke_answer res)" "no_zero_status (revoke_answer res)"
  by (auto simp: revoke_answer_def server_error_def WriteError_def split: sum.split)

lemma whole_errors [simp]:
  "Panicked \<notin> set (server_error msg)" "no_zero_status (server_error msg)"
  "Panicked \<notin> set (bad_request msg)" "no_zero_status (bad_request msg)"
  "Panicked \<notin> set (writeJSON j)" "no_zero_status (writeJSON j)"
  by (auto simp: server_error_def bad_request_def WriteError_def writeJSON_def split: option.split)

interpretation list_bystander: bystander_handler "ListTunnels lenient collate e zone cfg" for lenient collate e zone cfg
  by unfold_locales
     (auto simp: ListTunnels_def Let_def split: option.split sum.split prod.split)

interpretation get_bystander: bystander_handler "GetTunnel e zone cfg tid" for e zone cfg tid
  by unfold_locales (auto simp: GetTunnel_def WriteError_def split: option.split)

interpretation delete_bystander: bystander_handler "DeleteTunnel e tid" for e tid
  by unfold_locales (simp_all add: DeleteTunnel_def split_def Revoke_frame)

interpretation admin_revoke_bystander: bystander_handler "AdminRevokeTunnel e tid" for e tid
  by unfold_locales (simp_all add: AdminRevokeTunnel_def split_def Revoke_frame)


subsection \<open>Properties of retries\<close>

text \<open>One attempt at a creation, as \<open>NewRouter\<close> puts it together: the secret of the codec is shared.\<close>

definition create_attempt ::
  "sha_fun \<Rightarrow> seal_fun \<Rightarrow> open_fun \<Rightarrow> string \<Rightarrow> (time \<Rightarrow> int) \<Rightarrow> config \<Rightarrow>
     env \<times> nonce \<times> nonce \<times> draws \<times> (nat \<Rightarrow> draws) \<times> string \<Rightarrow> attempt" where
  "create_attempt sha seal opn secret zone cfg =
     (\<lambda>(e, n1, n2, draw, ids, uuid).
        (e, n1, CreateTunnel sha e (newIdempotencyCodec seal opn sha secret) n2 zone cfg draw ids uuid))"

text \<open>
  C24: A creation sent any number of times with one idempotency key creates at most one tunnel, and
  all the attempts that succeed answer the same status and body, whatever fails in each of them: a
  reservation or a commit in doubt, a response that is lost after the commit, a random source that
  fails, or a release of the key that is not done.
\<close>

theorem create_at_most_once:
  assumes "keyed cx r" "aead_ok (newIdempotencyCodec seal opn sha secret)" "schema_ok (sv_db s)"
    and "attempts sha seal opn secret cx r (map (create_attempt sha seal opn secret zone cfg) runs) s = (s', answers)"
  shows "tunnel_count (sv_db s') \<le> tunnel_count (sv_db s) + 1 \<and>
     (\<forall>a \<in> set answers. \<forall>b \<in> set answers.
        success (answer a) \<and> success (answer b) \<longrightarrow> answer a = answer b)"
proof -
  let ?as = "map (create_attempt sha seal opn secret zone cfg) runs"
  have h: "reserved_handler (newIdempotencyCodec seal opn sha secret) (snd (snd x)) tunnel_count"
    if "x \<in> set ?as" for x
    using that create_reserved.reserved_handler_axioms by (auto simp: create_attempt_def)
  from attempts_once [OF assms(1,2) h assms(3)]
  have "tunnel_count (sv_db (fst (attempts sha seal opn secret cx r ?as s))) \<le> tunnel_count (sv_db s) + 1 \<and>
     (\<exists>known. agree known (snd (attempts sha seal opn secret cx r ?as s)))" .
  then show ?thesis unfolding assms(4) by (auto simp: agree_def)
qed

definition keyed_sample :: request where
  "keyed_sample = create_sample\<lparr>rq_headers := [(''Idempotency-Key'', ''a'')]\<rparr>"

text \<open>The clear text in place of AES-GCM opens to what was sealed.\<close>

abbreviation clear_codec :: "sha_fun \<Rightarrow> codec" where
  "clear_codec sha \<equiv> newIdempotencyCodec (\<lambda>_ _ p _. p) (\<lambda>_ _ x _. Some x) sha ''secret''"

lemma clear_codec_ok [simp]: "aead_ok (clear_codec sha)"
  by (simp add: aead_ok_def newIdempotencyCodec_def Let_def)

lemma keyed_sample_simps [simp]:
  "header_get ''Idempotency-Key'' keyed_sample = ''a''" "keyed sample_ctx keyed_sample"
  "TokenIDFromContext sample_ctx = ''k1''"
  by (simp_all add: keyed_def keyed_sample_def create_sample_def header_get_def methodNeedsIdempotency_def
      sample_ctx_def context_defs)

theorem create_at_most_once_witness:
  "\<exists>s' answers. attempts sample_sha (\<lambda>_ _ p _. p) (\<lambda>_ _ x _. Some x) ''secret'' sample_ctx keyed_sample
     (map (create_attempt sample_sha (\<lambda>_ _ p _. p) (\<lambda>_ _ x _. Some x) ''secret'' (\<lambda>_. 0) sample_config)
        [(calm 0, None, None, \<lambda>_. Some 2, \<lambda>_ _. Some 2, ''r8''), (calm 1, None, None, \<lambda>_. Some 3, \<lambda>_ _. Some 3, ''r9'')])
     (fresh_srv (sample_db Active 9)) = (s', answers) \<and> tunnel_count (sv_db s') \<le> 2"
proof -
  let ?run = "attempts sample_sha (\<lambda>_ _ p _. p) (\<lambda>_ _ x _. Some x) ''secret'' sample_ctx keyed_sample
     (map (create_attempt sample_sha (\<lambda>_ _ p _. p) (\<lambda>_ _ x _. Some x) ''secret'' (\<lambda>_. 0) sample_config)
        [(calm 0, None, None, \<lambda>_. Some 2, \<lambda>_ _. Some 2, ''r8''), (calm 1, None, None, \<lambda>_. Some 3, \<lambda>_ _. Some 3, ''r9'')])
     (fresh_srv (sample_db Active 9))"
  have two: "tunnel_count (sv_db (fresh_srv (sample_db Active 9))) + 1 = 2" by (simp add: sample_db_def)
  have "tunnel_count (sv_db (fst ?run)) \<le> tunnel_count (sv_db (fresh_srv (sample_db Active 9))) + 1"
    by (rule create_at_most_once [OF keyed_sample_simps(2) clear_codec_ok _ prod.collapse [symmetric], THEN conjunct1])
       simp
  then have "tunnel_count (sv_db (fst ?run)) \<le> 2" unfolding two .
  then show ?thesis by (intro exI [of _ "fst ?run"] exI [of _ "snd ?run"]) simp
qed


lemma existing_replay:
  assumes "find_idem (TokenIDFromContext cx) key (sv_db s) = Some row" "TokenIDFromContext cx \<noteq> ''''"
    and "requestHashAndRestoreBody sha r = Inr (ik_hash row, r')" "ok e IdReserve" "ok e IdSelect"
    and "stored_answer c (TokenIDFromContext cx) key row = Some (st, body)"
  shows "handleIdempotentRequest sha e c nonce next key cx r s = (s, replayCachedResponse st body)"
proof -
  have "sql_reserve now (TokenIDFromContext cx) key hash (sv_db s) = Inr (sv_db s, 0)" for now hash
    using assms(1) by (simp add: sql_reserve_def)
  moreover have "serveExistingIdempotent e c (TokenIDFromContext cx) key (ik_hash row) (sv_db s) =
      replayCachedResponse st body"
    using assms(1,5,6) by (auto simp: serveExistingIdempotent_def stored_answer_def split: option.splits)
  ultimately show ?thesis
    using assms(2-4) by (simp add: handleIdempotentRequest_def pool_exec_def)
qed

text \<open>A creation that succeeds under a fresh key leaves the key completed with its answer.\<close>

lemma create_completes_key:
  assumes s: "schema_ok (sv_db s)" and c: "aead_ok c" and tok: "TokenIDFromContext cx = tok" "tok \<noteq> ''''"
    and fresh: "find_idem tok key (sv_db s) = None"
    and run: "handleIdempotentRequest sha e c nonce (CreateTunnel sha e c n2 zone cfg draw ids uuid) key cx r s = (s1, ops)"
    and st: "rs_status (render ops) = 201"
  obtains row hash r' where "requestHashAndRestoreBody sha r = Inr (hash, r')" "ik_hash row = hash"
    "find_idem tok key (sv_db s1) = Some row" "stored_answer c tok key row = Some (201, rs_body (render ops))"
proof -
  let ?h = "CreateTunnel sha e c n2 zone cfg draw ids uuid"
  let ?now = "e_time e IdReserve"
  have not_replay: "rs_status (render (WriteError 413 ErrInvalidRequest m)) \<noteq> 201"
    "rs_status (render (WriteError 500 ErrInternal m)) \<noteq> 201" for m by simp_all
  from run st tok fresh obtain hash r' where hr: "requestHashAndRestoreBody sha r = Inr (hash, r')"
    and reg: "tok \<in> at_id ` set (db_api_tokens (sv_db s))"
    and res: "runReserved e c nonce ?h tok key cx r'
      (s\<lparr>sv_db := (sv_db s)\<lparr>db_idem := db_idem (sv_db s) @ [reservation_row tok key hash ?now]\<rparr>\<rparr>) = (s1, ops)"
    by (cases "e_out e IdReserve")
       (auto simp: handleIdempotentRequest_def sql_reserve_def pool_exec_def
         split: sum.splits body_end.splits if_splits)
  let ?row = "reservation_row tok key hash ?now"
  let ?s0 = "s\<lparr>sv_db := (sv_db s)\<lparr>db_idem := db_idem (sv_db s) @ [?row]\<rparr>\<rparr>"
  let ?cx = "cx\<lparr>cx_reservation := Some \<lparr>rv_token = tok, rv_key = key\<rparr>\<rparr>"
  have d0: "schema_ok (sv_db ?s0)" using schema_reserve [OF s fresh reg] by simp
  have row: "find_idem tok key (sv_db ?s0) = Some ?row" using find_reserve [OF fresh] by simp
  obtain s2 w where n: "?h ?cx r' ?s0 = (s2, w)" by (cases "?h ?cx r' ?s0")
  have w: "Panicked \<notin> set w" "no_zero_status w"
    using create_reserved.whole [of sha e c n2 zone cfg draw ids uuid ?cx r' ?s0] n by simp_all
  have ops: "render ops = render w"
    and d1: "sv_db s1 = persistCompletion e c nonce tok key (captureResponse w) (sv_db s2)"
    using res w capture_renders(1) [OF w(2)] by (auto simp: runReserved_def n Let_def)
  have s2: "schema_ok (sv_db s2)" using create_reserved.keeps_schema [OF d0] n by (metis fst_conv)
  show thesis
  proof (cases rule: CreateTunnel_cases [of sha e c n2 zone cfg draw ids uuid ?cx r' ?s0])
    case (refused v)
    with n ops st refusalD [of v] show thesis by auto
  next
    case (in_doubt q rt d' body)
    with n ops st show thesis by auto
  next
    case (committed q rt d' body)
    have "cx_reservation ?cx = Some \<lparr>rv_token = tok, rv_key = key\<rparr>" "ik_completed ?row = None"
      by (simp_all add: reservation_row_def)
    from create_body_reserved [OF committed(6) this(1) row this(2)] obtain row' where row':
      "find_idem tok key d' = Some row'" "completed_with c tok key ?row row' (201, body)" by blast
    from row'(2) obtain now enc m where eq: "row' = ?row\<lparr>ik_status := Some 201, ik_body := Some enc, ik_completed := Some now\<rparr>"
      "codec_seal c m tok key 201 body = Some enc" unfolding completed_with_def by auto
    then obtain rnd where "codec_seal c (Some rnd) tok key 201 body = Some enc" by (auto simp: codec_seal_def)
    from codec_roundtrip [OF c this] have "stored_answer c tok key row' = Some (201, rs_body (render ops))"
      using committed(7) n ops by (auto simp: stored_answer_def eq)
    moreover have "find_idem tok key (sv_db s1) = Some row'"
      unfolding d1 by (rule persist_completed [OF s2]) (use row' committed(7) n eq in auto)
    moreover have "ik_hash row' = hash" by (simp add: eq reservation_row_def)
    ultimately show thesis using that hr by blast
  qed
qed

text \<open>
  C26: After a creation that answered 201 under a fresh key, the same request with that key is answered
  the same status and body from the store, whatever handler stands behind the middleware, and
  changes nothing.
\<close>

theorem create_retry_replays:
  assumes "schema_ok (sv_db s)" "aead_ok (newIdempotencyCodec seal opn sha secret)" and k: "keyed cx r"
    and len: "length (header_get ''Idempotency-Key'' r) \<le> maxIdempotencyKeyLen"
    and "find_idem (TokenIDFromContext cx) (header_get ''Idempotency-Key'' r) (sv_db s) = None"
    and "IdempotencyMiddleware sha seal opn secret e n1
           (CreateTunnel sha e (newIdempotencyCodec seal opn sha secret) n2 zone cfg draw ids uuid) cx r s = (s1, ops)"
    and "rs_status (render ops) = 201" and "ok e' IdReserve" "ok e' IdSelect"
  shows "IdempotencyMiddleware sha seal opn secret e' n' next cx r s1 =
     (s1, replayCachedResponse 201 (rs_body (render ops)))"
proof -
  have tok: "TokenIDFromContext cx \<noteq> ''''" using k by (simp add: keyed_def)
  obtain row hash r' where "requestHashAndRestoreBody sha r = Inr (hash, r')" "ik_hash row = hash"
    "find_idem (TokenIDFromContext cx) (header_get ''Idempotency-Key'' r) (sv_db s1) = Some row"
    "stored_answer (newIdempotencyCodec seal opn sha secret) (TokenIDFromContext cx)
       (header_get ''Idempotency-Key'' r) row = Some (201, rs_body (render ops))"
    by (rule create_completes_key [OF assms(1,2) refl tok assms(5) assms(6) [unfolded middleware_keyed [OF k len]]
          assms(7)])
  with assms(8,9) tok existing_replay show ?thesis unfolding middleware_keyed [OF k len] by blast
qed


text \<open>A creation with a key that succeeds, evaluated.\<close>

abbreviation zero_nonce :: nonce where
  "zero_nonce \<equiv> Some (\<lambda>_. CHR ''0'')"

lemma sample_body_fits:
  assumes "tunnel_json (\<lambda>_. 0) (create_response sample_config sample_create (sample_minted sha) ''t-cccccccccccccccc'' expires) = Some j"
  shows "length (json_text j @ ''\<newline>'') \<le> maxCachedBodySize"
proof (rule created_body_fits [OF Validate_sample decode_create_sample mint_sample _ _ _ assms])
  show "GenerateTunnelID (\<lambda>_. Some 2) = Some ''t-cccccccccccccccc''" by code_simp
qed simp_all

lemma create_body_keyed_sample:
  assumes "seal = newIdempotencyCodec sl opn sha' secret"
  shows "\<exists>d' body. create_body (calm 0) seal zero_nonce (\<lambda>_. 0) sample_config (\<lambda>_ _. Some 2) ''r9''
     (sample_ctx\<lparr>cx_reservation := Some \<lparr>rv_token = ''k1'', rv_key = ''a''\<rparr>\<rparr>) ''u1'' sample_create (sample_minted sha)
     ((sample_db Active 9)\<lparr>db_idem := [reservation_row ''k1'' ''a'' hash 0]\<rparr>) = Inr (d', body)"
proof -
  have gen: "GenerateTunnelID (\<lambda>_. Some 2) = Some ''t-cccccccccccccccc''" by code_simp
  have mc: "MaxConcurrent sample_config = 5" by (simp add: sample_config_def)
  let ?d = "(sample_db Active 9)\<lparr>db_idem := [reservation_row ''k1'' ''a'' hash 0]\<rparr>"
  have cnt: "CountNonTerminalTunnels ''u1'' ?d = 1" by (simp add: CountNonTerminalTunnels_def sample_db_def)
  have ft: "find_tunnel ''t-cccccccccccccccc'' ?d = None" by (simp add: find_tunnel_def sample_db_def)
  have users: "us_id ` set (db_users (sample_db Active 9)) = {''u1''}"
    and toks: "rt_id ` set (db_rt_tokens (sample_db Active 9)) = {''r1''}" by (simp_all add: sample_db_def)
  obtain j where j: "tunnel_json (\<lambda>_. 0) (create_response sample_config sample_create (sample_minted sha)
      ''t-cccccccccccccccc'' 3600000000) = Some j"
    by (simp add: tunnel_json_def create_response_def time_json_def rfc3339_epoch)
  have fits: "\<not> maxCachedBodySize < length (json_text j @ ''\<newline>'')" using sample_body_fits [OF j] by simp
  have pend: "pending ''k1'' ''a'' (reservation_row ''k1'' ''a'' hash 0)"
    by (simp add: pending_def reservation_row_def)
  then have one: "count_where (pending ''k1'' ''a'') [reservation_row ''k1'' ''a'' hash 0] = 1"
    by (simp add: count_where_def)
  show ?thesis
    using j fits
    by (simp add: create_body_def Let_def mc cnt insert_tunnel_def gen sql_insert_tunnel_def ft
        sample_create_def users sql_insert_rt_def toks insertEvent_def
        CompleteIdempotentResponseInTransaction_def codec_seal_def sql_complete_def one pend)
qed

lemma keyed_sample_201:
  "rs_status (render (snd (IdempotencyMiddleware sha sl opn secret (calm 0) nonce
     (CreateTunnel sha (calm 0) (newIdempotencyCodec sl opn sha secret) zero_nonce (\<lambda>_. 0) sample_config (\<lambda>_. Some 2)
        (\<lambda>_ _. Some 2) ''r9'') sample_ctx keyed_sample (fresh_srv (sample_db Active 9))))) = 201"
proof -
  let ?c = "newIdempotencyCodec sl opn sha secret"
  let ?h = "CreateTunnel sha (calm 0) ?c zero_nonce (\<lambda>_. 0) sample_config (\<lambda>_. Some 2) (\<lambda>_ _. Some 2) ''r9''"
  let ?r = "keyed_sample\<lparr>rq_broken_at := None, rq_limit := None\<rparr>"
  let ?hash = "hex_encode (sha (request_preimage keyed_sample (rq_body keyed_sample)))"
  let ?cx = "sample_ctx\<lparr>cx_reservation := Some \<lparr>rv_token = ''k1'', rv_key = ''a''\<rparr>\<rparr>"
  let ?d = "(sample_db Active 9)\<lparr>db_idem := [reservation_row ''k1'' ''a'' ?hash 0]\<rparr>"
  have len: "length (header_get ''Idempotency-Key'' keyed_sample) \<le> maxIdempotencyKeyLen"
    by (simp add: maxIdempotencyKeyLen_def)
  have "read_body keyed_sample = (rq_body keyed_sample, BodyEOF)" by code_simp
  then have hash: "requestHashAndRestoreBody sha keyed_sample = Inr (?hash, ?r)"
    by (simp add: requestHashAndRestoreBody_def)
  have res: "sql_reserve 0 ''k1'' ''a'' ?hash (sample_db Active 9) = Inr (?d, 1)"
    by (simp add: sql_reserve_def find_idem_def sample_db_def)
  have uid: "UserIDFromContext ?cx = ''u1''" by (simp add: sample_ctx_def context_defs)
  have dec: "decode_create sample_config ?r = Inr sample_create" by code_simp
  obtain d' body where b: "create_body (calm 0) ?c zero_nonce (\<lambda>_. 0) sample_config (\<lambda>_ _. Some 2) ''r9'' ?cx ''u1''
      sample_create (sample_minted sha) ?d = Inr (d', body)"
    using create_body_keyed_sample [OF refl] by blast
  have h: "?h ?cx ?r (fresh_srv ?d) = ((fresh_srv ?d)\<lparr>sv_db := d'\<rparr>, created_ops body)"
    unfolding CreateTunnel_def Let_def uid created_ops_def [symmetric]
    by (simp add: dec mint_sample b commit_simps)
  have srv: "(fresh_srv (sample_db Active 9))\<lparr>sv_db := ?d\<rparr> = fresh_srv ?d" by (simp add: fresh_srv_def)
  have "handleIdempotentRequest sha (calm 0) ?c nonce ?h ''a'' sample_ctx keyed_sample (fresh_srv (sample_db Active 9)) =
      runReserved (calm 0) ?c nonce ?h ''k1'' ''a'' sample_ctx ?r (fresh_srv ?d)"
    by (simp add: handleIdempotentRequest_def Let_def hash res pool_exec_def srv)
  moreover have "render (snd (runReserved (calm 0) ?c nonce ?h ''k1'' ''a'' sample_ctx ?r (fresh_srv ?d))) =
      render (created_ops body)"
    using capture_renders(1) [of "created_ops body"] by (simp add: runReserved_def h Let_def created_ops_def)
  ultimately show ?thesis
    unfolding middleware_keyed [OF keyed_sample_simps(2) len] keyed_sample_simps(1) by simp
qed

theorem create_retry_replays_witness:
  "\<exists>s1 body. \<forall>next. IdempotencyMiddleware id (\<lambda>_ _ p _. p) (\<lambda>_ _ x _. Some x) ''secret'' (calm 7) None next
     sample_ctx keyed_sample s1 = (s1, replayCachedResponse 201 body)"
proof -
  have none: "find_idem ''k1'' ''a'' (sample_db Active 9) = None" by (simp add: find_idem_def sample_db_def)
  have len: "length ''a'' \<le> maxIdempotencyKeyLen" by (simp add: maxIdempotencyKeyLen_def)
  show ?thesis
    by (intro exI allI, rule create_retry_replays [OF _ clear_codec_ok keyed_sample_simps(2) _ _ prod.collapse [symmetric]
          keyed_sample_201]) (simp_all add: none len del: length_Cons list.size)
qed

lemma request_preimage_inject:
  assumes "CHR 0x00 \<notin> set (rq_method r @ rq_escaped_path r @ rq_raw_query r)"
    and "CHR 0x00 \<notin> set (rq_method r' @ rq_escaped_path r' @ rq_raw_query r')"
  shows "request_preimage r b = request_preimage r' b' \<longleftrightarrow>
     rq_method r = rq_method r' \<and> rq_escaped_path r = rq_escaped_path r' \<and> rq_raw_query r = rq_raw_query r' \<and> b = b'"
  using assms by (simp add: request_preimage_def append_sep_inject)

text \<open>
  C27: A key that is in use for one request is refused with 409, and nothing changes, when it comes with
  a request of another method, path, query or body.  NUL bytes do not occur in the first three,
  and the digest does not collide on the two requests.
\<close>

theorem reused_key_refused:
  assumes k: "keyed cx r" and len: "length (header_get ''Idempotency-Key'' r) \<le> maxIdempotencyKeyLen"
    and row: "find_idem (TokenIDFromContext cx) (header_get ''Idempotency-Key'' r) (sv_db s) = Some row"
    and hash: "ik_hash row = hex_encode (sha (request_preimage r0 b0))"
    and body: "read_body r = (b, BodyEOF)"
    and differ: "(rq_method r, rq_escaped_path r, rq_raw_query r, b) \<noteq>
       (rq_method r0, rq_escaped_path r0, rq_raw_query r0, b0)"
    and nul: "CHR 0x00 \<notin> set (rq_method r @ rq_escaped_path r @ rq_raw_query r)"
      "CHR 0x00 \<notin> set (rq_method r0 @ rq_escaped_path r0 @ rq_raw_query r0)"
    and sha: "sha (request_preimage r b) = sha (request_preimage r0 b0) \<Longrightarrow>
       request_preimage r b = request_preimage r0 b0"
    and calls: "ok e IdReserve" "ok e IdSelect"
  shows "IdempotencyMiddleware sha seal opn secret e nonce next cx r s =
     (s, WriteError 409 ErrInvalidRequest ''idempotency key already used with a different request body'')"
proof -
  have "request_preimage r b \<noteq> request_preimage r0 b0"
    using differ by (simp add: request_preimage_inject [OF nul])
  then have "hex_encode (sha (request_preimage r b)) \<noteq> ik_hash row"
    using sha hash hex_decode_encode by (metis option.inject)
  moreover have "requestHashAndRestoreBody sha r = Inr (hex_encode (sha (request_preimage r b)),
      r\<lparr>rq_body := b, rq_broken_at := None, rq_limit := None\<rparr>)"
    by (simp add: requestHashAndRestoreBody_def body)
  ultimately show ?thesis
    using k row calls unfolding middleware_keyed [OF k len]
    by (simp add: keyed_def handleIdempotentRequest_def sql_reserve_def pool_exec_def serveExistingIdempotent_def)
qed

theorem reused_key_refused_witness:
  "\<forall>next. IdempotencyMiddleware (\<lambda>x. x) (\<lambda>_ _ p _. p) (\<lambda>_ _ x _. Some x) ''secret'' (calm 0) None next sample_ctx keyed_sample
     (fresh_srv ((sample_db Active 9)\<lparr>db_idem := [reservation_row ''k1'' ''a'' (hex_encode (request_preimage keyed_sample ''{}'')) 0]\<rparr>)) =
   (fresh_srv ((sample_db Active 9)\<lparr>db_idem := [reservation_row ''k1'' ''a'' (hex_encode (request_preimage keyed_sample ''{}'')) 0]\<rparr>),
    WriteError 409 ErrInvalidRequest ''idempotency key already used with a different request body'')"
proof (rule allI, rule reused_key_refused [where row = "reservation_row ''k1'' ''a'' (hex_encode (request_preimage keyed_sample ''{}'')) 0"])
  have ne: "rq_body keyed_sample \<noteq> ''{}''" by code_simp
  show "read_body keyed_sample = (rq_body keyed_sample, BodyEOF)" by code_simp
  show "(rq_method keyed_sample, rq_escaped_path keyed_sample, rq_raw_query keyed_sample, rq_body keyed_sample) \<noteq>
      (rq_method keyed_sample, rq_escaped_path keyed_sample, rq_raw_query keyed_sample, ''{}'')" using ne by simp
  show "CHR 0x00 \<notin> set (rq_method keyed_sample @ rq_escaped_path keyed_sample @ rq_raw_query keyed_sample)"
    by (simp add: keyed_sample_def create_sample_def)
  then show "CHR 0x00 \<notin> set (rq_method keyed_sample @ rq_escaped_path keyed_sample @ rq_raw_query keyed_sample)" .
qed (simp_all add: find_idem_def maxIdempotencyKeyLen_def reservation_row_def)


subsection \<open>A cached answer belongs to its key\<close>

text \<open>
  What authenticated encryption adds: a sealed text does not open under other additional data.  The
  sample seal of the witness writes the data, with its length, in front of the text.
\<close>

definition aead_bound :: "codec \<Rightarrow> bool" where
  "aead_bound c \<longleftrightarrow> (\<forall>n p a a'. a \<noteq> a' \<longrightarrow> cd_open c n (cd_seal c n p a) a' = None)"

lemma show_int_no_nul: "CHR 0x00 \<notin> set (show_int i)"
proof -
  have "\<not> is_digit CHR 0x00" by code_simp
  then have "CHR 0x00 \<notin> set (show_nat n)" for n using show_nat_digits [of n] by (auto simp: list_all_iff)
  then show ?thesis by (simp add: show_int_def)
qed

lemma AAD_inject:
  assumes "CHR 0x00 \<notin> set tok" "CHR 0x00 \<notin> set tok'" "idempotencyAAD tok key st = idempotencyAAD tok' key' st'"
  shows "tok = tok' \<and> key = key' \<and> st = st'"
proof -
  have eq: "tok = tok'" "key @ CHR 0x00 # show_int st = key' @ CHR 0x00 # show_int st'"
    using assms by (simp_all add: idempotencyAAD_def append_sep_inject)
  from arg_cong [OF eq(2), of rev]
  have "rev (show_int st) @ CHR 0x00 # rev key = rev (show_int st') @ CHR 0x00 # rev key'" by simp
  then have "rev (show_int st) = rev (show_int st') \<and> rev key = rev key'"
    by (subst (asm) append_sep_inject) (simp_all add: show_int_no_nul)
  then show ?thesis using eq(1) show_int_inject by simp
qed

text \<open>
  C28: A cached answer opens only for the token, the key and the status it was sealed for, and then to
  the body that was sealed: a row copied to another key, or given another status, is never
  replayed.
\<close>

theorem cached_answer_bound:
  assumes "aead_ok c" "aead_bound c" "CHR 0x00 \<notin> set tok" "CHR 0x00 \<notin> set tok'"
    and "codec_seal c nonce tok key st body = Some enc"
  shows "codec_open c tok' key' st' enc = (if tok' = tok \<and> key' = key \<and> st' = st then Some body else None)"
proof -
  from assms(5) obtain rnd where rnd: "codec_seal c (Some rnd) tok key st body = Some enc"
    by (auto simp: codec_seal_def)
  let ?n = "map rnd [0..<nonceSize]"
  have enc: "enc = encryptedResponsePrefix @ ?n @ cd_seal c ?n body (idempotencyAAD tok key st)"
    using rnd by (simp add: codec_seal_def Let_def)
  have "take nonceSize (?n @ x) = ?n" "drop nonceSize (?n @ x) = x" for x
    using length_nonce [of rnd] by (metis append_eq_conv_conj)+
  then have opened: "codec_open c tok' key' st' enc =
      cd_open c ?n (cd_seal c ?n body (idempotencyAAD tok key st)) (idempotencyAAD tok' key' st')"
    by (simp add: codec_open_def enc)
  show ?thesis
  proof (cases "tok' = tok \<and> key' = key \<and> st' = st")
    case True
    with codec_roundtrip [OF assms(1) rnd] show ?thesis by simp
  next
    case False
    with AAD_inject [OF assms(3,4)] have "idempotencyAAD tok key st \<noteq> idempotencyAAD tok' key' st'" by metis
    with assms(2) False show ?thesis unfolding opened aead_bound_def by auto
  qed
qed

definition framed :: "string \<Rightarrow> string" where
  "framed a = replicate (length a) CHR ''1'' @ CHR ''0'' # a"

definition framing_codec :: codec where
  "framing_codec =
     \<lparr>cd_seal = (\<lambda>n p a. framed a @ p),
      cd_open = (\<lambda>n x a. if prefix (framed a) x then Some (drop (length (framed a)) x) else None)\<rparr>"

lemma framed_prefix: "prefix (framed a') (framed a @ p) \<Longrightarrow> a' = a"
proof -
  assume "prefix (framed a') (framed a @ p)"
  then obtain q where q: "framed a @ p = framed a' @ q" by (auto elim: prefixE)
  then have "replicate (length a) CHR ''1'' @ CHR ''0'' # (a @ p) = replicate (length a') CHR ''1'' @ CHR ''0'' # (a' @ q)"
    by (simp add: framed_def)
  then have "replicate (length a) CHR ''1'' = replicate (length a') CHR ''1''" "a @ p = a' @ q"
    by (simp_all add: append_sep_inject)
  then show ?thesis by (metis append_eq_append_conv length_replicate)
qed

theorem cached_answer_bound_witness:
  "codec_open framing_codec ''k1'' ''b'' 201 (the (codec_seal framing_codec (Some (\<lambda>_. CHR ''n'')) ''k1'' ''a'' 201 ''{}'')) = None"
proof -
  have ok: "aead_ok framing_codec" by (simp add: aead_ok_def framing_codec_def)
  have bound: "aead_bound framing_codec"
    using framed_prefix by (auto simp: aead_bound_def framing_codec_def)
  have "codec_seal framing_codec (Some (\<lambda>_. CHR ''n'')) ''k1'' ''a'' 201 ''{}'' =
      Some (the (codec_seal framing_codec (Some (\<lambda>_. CHR ''n'')) ''k1'' ''a'' 201 ''{}''))"
    by (simp add: codec_seal_def Let_def)
  from cached_answer_bound [OF ok bound _ _ this, of "''k1''" "''b''" 201] show ?thesis by simp
qed

end
