(* ===== verification/Database.thy ===== *)
theory Database
  imports GoStrings Store
begin

text \<open>
  \<open>internal/db\<close>: the check of the schema that a server starts and reports ready on, the
  connection pool, transactions (\<open>InTx\<close>), the URL of the migration driver and the runs of the migrations.
  PostgreSQL, its driver and golang-migrate are inputs: what the two queries return, and how each call ends.
\<close>

subsection \<open>The schema (db.go)\<close>

definition CurrentSchemaVersion :: int where "CurrentSchemaVersion = 6"

text \<open>
  The database as the queries see it: the names of the tables of the current schema, None when
  the query fails, and the row of \<open>schema_migrations\<close>, None when it cannot be read.
\<close>

record schema_view =
  sc_tables :: "string list option"
  sc_migration :: "(int \<times> bool) option"

datatype schema_error = TablesQueryFailed | SchemaIncomplete nat | VersionQueryFailed
  | SchemaDirty int | SchemaNotCurrent int

definition required_tables :: "string list" where
  "required_tables =
     [''users'', ''api_tokens'', ''tunnels'', ''tunnel_runtime_tokens'', ''tunnel_events'', ''idempotency_keys'']"

definition CheckSchema :: "schema_view \<Rightarrow> schema_error + unit" where
  "CheckSchema v =
     (case sc_tables v of
        None \<Rightarrow> Inl TablesQueryFailed
      | Some ts \<Rightarrow>
          (let tableCount = length (filter (\<lambda>t. t \<in> set required_tables) ts)
           in if tableCount \<noteq> length required_tables then Inl (SchemaIncomplete tableCount)
              else (case sc_migration v of
                      None \<Rightarrow> Inl VersionQueryFailed
                    | Some (version, dirty) \<Rightarrow>
                        if dirty then Inl (SchemaDirty version)
                        else if version \<noteq> CurrentSchemaVersion then Inl (SchemaNotCurrent version)
                        else Inr ())))"

text \<open>The names of the tables of a schema are distinct: then the count stands for the presence of all.\<close>

lemma CheckSchema_ok:
  assumes "sc_tables v = Some ts" "distinct ts"
  shows "CheckSchema v = Inr () \<longleftrightarrow>
     set required_tables \<subseteq> set ts \<and> sc_migration v = Some (CurrentSchemaVersion, False)"
proof -
  have d: "distinct (filter (\<lambda>t. t \<in> set required_tables) ts)" using assms(2) by simp
  have "length (filter (\<lambda>t. t \<in> set required_tables) ts) = card (set ts \<inter> set required_tables)"
    using distinct_card [OF d] by (simp add: Int_def conj_commute)
  moreover have "length required_tables = card (set required_tables)"
    by (simp add: required_tables_def)
  moreover have "card (set ts \<inter> set required_tables) = card (set required_tables) \<longleftrightarrow>
      set required_tables \<subseteq> set ts"
    using card_subset_eq [of "set required_tables" "set ts \<inter> set required_tables"] by (auto simp: Int_absorb1)
  ultimately show ?thesis
    by (auto simp: CheckSchema_def assms(1) Let_def split: option.splits if_splits)
qed

subsection \<open>The connection pool (db.go)\<close>

text \<open>
  What the driver answers: whether the URL parses, whether a pool can be made for it, and whether the
  database answers a ping.  The state is the number of pools that are open.
\<close>

record pool_lib =
  pl_parse :: "string \<Rightarrow> bool"
  pl_make :: "string \<Rightarrow> bool"
  pl_ping :: bool

datatype pool_error = PoolParse | PoolMake | PoolPing

definition Close :: "nat \<Rightarrow> nat" where "Close opened = opened - 1"

definition Ping :: "pool_lib \<Rightarrow> bool" where "Ping p = pl_ping p"

definition New :: "pool_lib \<Rightarrow> string \<Rightarrow> nat \<Rightarrow> nat \<times> (pool_error + unit)" where
  "New p databaseURL opened =
     (if \<not> pl_parse p databaseURL then (opened, Inl PoolParse)
      else if \<not> pl_make p databaseURL then (opened, Inl PoolMake)
      else (let opened' = Suc opened
            in if \<not> Ping p then (Close opened', Inl PoolPing) else (opened', Inr ())))"

text \<open>A pool stays open exactly when the caller is given it, and closing it then leaves none behind.\<close>

lemma New_no_leak:
  assumes "New p url opened = (opened', res)"
  shows "res = Inl err \<Longrightarrow> opened' = opened" "res = Inr () \<Longrightarrow> Close opened' = opened"
    "res = Inr () \<longleftrightarrow> pl_parse p url \<and> pl_make p url \<and> pl_ping p"
  using assms by (auto simp: New_def Close_def Ping_def Let_def split: if_splits)

subsection \<open>Transactions (db.go)\<close>

datatype 'e tx_error = TxBegin | TxBody 'e | TxCommit

definition InTx :: "outcome \<Rightarrow> outcome \<Rightarrow> ('s \<Rightarrow> 'e + 's) \<Rightarrow> 's \<Rightarrow> 's \<times> ('e tx_error + unit)" where
  "InTx begins commits fn s =
     (if begins \<noteq> Ok then (s, Inl TxBegin)
      else (case fn s of
              Inl err \<Rightarrow> (s, Inl (TxBody err))
            | Inr s' \<Rightarrow>
                (case commits of
                   Ok \<Rightarrow> (s', Inr ())
                 | Fail \<Rightarrow> (s, Inl TxCommit)
                 | InDoubt \<Rightarrow> (s', Inl TxCommit))))"

lemma InTx_atomic:
  "InTx b c fn s = (s', res) \<Longrightarrow> s' = s \<or> fn s = Inr s'"
  by (auto simp: InTx_def split: if_splits sum.splits outcome.splits)

subsection \<open>Migrations (migrate.go)\<close>

definition cut_prefix :: "string \<Rightarrow> string \<Rightarrow> string option" where
  "cut_prefix s p = (if prefix p s then Some (drop (length p) s) else None)"

definition toMigrateURL :: "string \<Rightarrow> string" where
  "toMigrateURL databaseURL =
     (case cut_prefix databaseURL ''postgresql://'' of
        Some rest \<Rightarrow> ''pgx5://'' @ rest
      | None \<Rightarrow>
          (case cut_prefix databaseURL ''postgres://'' of
             Some rest \<Rightarrow> ''pgx5://'' @ rest
           | None \<Rightarrow> databaseURL))"

text \<open>How the calls of the library end.\<close>

datatype migrate_end = MigrateDone | MigrateNoChange | MigrateFailed

record migrate_lib =
  ml_source :: bool
  ml_open :: "string \<Rightarrow> bool"
  ml_up :: migrate_end
  ml_down :: migrate_end
  ml_close_source :: bool
  ml_close_database :: bool

datatype migrate_error = MgSource | MgCreate | MgUp | MgDown | MgCloseSource | MgCloseDatabase

definition newMigrator :: "migrate_lib \<Rightarrow> string \<Rightarrow> migrate_error + unit" where
  "newMigrator m databaseURL =
     (if \<not> ml_source m then Inl MgSource
      else if \<not> ml_open m (toMigrateURL databaseURL) then Inl MgCreate
      else Inr ())"

text \<open>The errors are joined: the list holds each of them, none when it is empty.\<close>

definition closeMigrator :: "migrate_lib \<Rightarrow> migrate_error list" where
  "closeMigrator m =
     (if ml_close_source m then [] else [MgCloseSource]) @ (if ml_close_database m then [] else [MgCloseDatabase])"

definition RunMigrations :: "migrate_lib \<Rightarrow> string \<Rightarrow> migrate_error list" where
  "RunMigrations m databaseURL =
     (case newMigrator m databaseURL of
        Inl err \<Rightarrow> [err]
      | Inr _ \<Rightarrow> (if ml_up m = MigrateFailed then [MgUp] else []) @ closeMigrator m)"

definition RunMigrationsDown :: "migrate_lib \<Rightarrow> string \<Rightarrow> migrate_error list" where
  "RunMigrationsDown m databaseURL =
     (case newMigrator m databaseURL of
        Inl err \<Rightarrow> [err]
      | Inr _ \<Rightarrow> (if ml_down m = MigrateFailed then [MgDown] else []) @ closeMigrator m)"

lemma RunMigrations_ok:
  "RunMigrations m url = [] \<longleftrightarrow>
     ml_source m \<and> ml_open m (toMigrateURL url) \<and> ml_up m \<noteq> MigrateFailed \<and> ml_close_source m \<and> ml_close_database m"
  by (auto simp: RunMigrations_def newMigrator_def closeMigrator_def)

lemma toMigrateURL_driver:
  "toMigrateURL (''postgres://'' @ rest) = ''pgx5://'' @ rest" "toMigrateURL (''postgresql://'' @ rest) = ''pgx5://'' @ rest"
  by (simp_all add: toMigrateURL_def cut_prefix_def)

end
