(* ===== verification/Router.thy ===== *)
theory Router
  imports Replay Database
begin

text \<open>
  The public API as a whole: \<open>internal/server/api/router.go\<close>, \<open>health.go\<close>, the middleware of
  \<open>ratelimit.go\<close> and \<open>RegisterRoutes\<close> of \<open>internal/server/tunnels/handlers.go\<close>.  The matcher of chi
  is the parameter \<open>chi\<close> that finds a route of a table; everything a request meets besides its own
  content and the server's state (clock, random sources, outcomes of the calls) is its \<open>world\<close>.
\<close>

subsection \<open>Parameters\<close>

datatype endpoint = EpHealthz | EpReadyz | EpV1 | EpCreate | EpList | EpGet | EpDelete | EpAdminRevoke | EpMe

type_synonym route = "string \<times> string \<times> endpoint"

text \<open>The route that matches, with the value of its \<open>{id}\<close>.\<close>

datatype chi_match = Matched endpoint string | NotFound | MethodNotAllowed

type_synonym chi_fun = "route list \<Rightarrow> request \<Rightarrow> chi_match"

record platform =
  pf_sha :: sha_fun
  pf_argon :: argon_fun
  pf_seal :: seal_fun
  pf_open :: open_fun
  pf_lenient :: "string \<Rightarrow> int option"
  pf_collate :: "string \<Rightarrow> string"
  pf_zone :: "time \<Rightarrow> int"
  pf_chi :: chi_fun

record world =
  wd_env :: env
  wd_now :: int
  wd_nonce :: nonce
  wd_create_nonce :: nonce
  wd_draw :: draws
  wd_ids :: "nat \<Rightarrow> draws"
  wd_uuid :: string
  wd_slots :: "string \<Rightarrow> slot_event"
  wd_request_id :: string
  wd_ping :: bool
  wd_schema :: schema_view

subsection \<open>Health (health.go)\<close>

definition HealthzHandler :: "wop list" where
  "HealthzHandler =
     [SetHeader ''Content-Type'' ''text/plain; charset=utf-8'', WriteHeader 200, WriteBody ''ok'']"

definition ReadyzHandler :: "bool \<Rightarrow> wop list" where
  "ReadyzHandler ping_ok =
     (if \<not> ping_ok then WriteError 503 ErrInternal ''service not ready''
      else [SetHeader ''Content-Type'' ''text/plain; charset=utf-8'', WriteHeader 200, WriteBody ''ok''])"

text \<open>The recorder of the request log: the status it logs, and what it passes on.\<close>

record status_recorder =
  sr_status :: int
  sr_out :: "wop list"

fun statusRecorder_step :: "status_recorder \<Rightarrow> wop \<Rightarrow> status_recorder" where
  "statusRecorder_step rc (WriteHeader code) =
     (if sr_status rc \<noteq> 0 then rc
      else rc\<lparr>sr_status := code, sr_out := sr_out rc @ [WriteHeader code]\<rparr>)"
| "statusRecorder_step rc (WriteBody b) =
     (let rc' = (if sr_status rc = 0 then rc\<lparr>sr_status := 200\<rparr> else rc)
      in rc'\<lparr>sr_out := sr_out rc' @ [WriteBody b]\<rparr>)"
| "statusRecorder_step rc (SetHeader k v) = rc\<lparr>sr_out := sr_out rc @ [SetHeader k v]\<rparr>"
| "statusRecorder_step rc Panicked = rc\<lparr>sr_out := sr_out rc @ [Panicked]\<rparr>"

definition record_status :: "wop list \<Rightarrow> status_recorder" where
  "record_status ops = foldl statusRecorder_step \<lparr>sr_status = 0, sr_out = []\<rparr> ops"

definition logged_status :: "wop list \<Rightarrow> int" where
  "logged_status ops = (let st = sr_status (record_status ops) in if st = 0 then 200 else st)"

definition RequestLogMiddleware :: "string \<Rightarrow> handler \<Rightarrow> handler" where
  "RequestLogMiddleware request_id next cx r s =
     (case next cx r s of
        (s', ops) \<Rightarrow>
          (s', (if request_id \<noteq> '''' then [SetHeader ''X-Request-ID'' request_id] else []) @ sr_out (record_status ops)))"

subsection \<open>Rate limiting (ratelimit.go)\<close>

definition requestNeedsRateLimit :: "request \<Rightarrow> bool" where
  "requestNeedsRateLimit r \<longleftrightarrow> rq_method r = ''POST'' \<and> rq_path r = ''/v1/tunnels''"

definition RateLimitMiddleware :: "int \<Rightarrow> handler \<Rightarrow> handler" where
  "RateLimitMiddleware now next cx r s =
     (if \<not> requestNeedsRateLimit r then next cx r s
      else (let tokenID = TokenIDFromContext cx
            in if tokenID = '''' then next cx r s
               else (case Allow now tokenID (sv_limiter s) of
                       (rl, allowed) \<Rightarrow>
                         (let s1 = s\<lparr>sv_limiter := rl\<rparr>
                          in if \<not> allowed
                             then (s1\<lparr>sv_metrics := IncrRateLimitReject (sv_metrics s1)\<rparr>,
                                   WriteError 429 ErrRateLimited ''rate limit exceeded'')
                             else next cx r s1))))"

subsection \<open>The routes\<close>

definition MaxBodySize :: "int \<Rightarrow> handler \<Rightarrow> handler" where
  "MaxBodySize maxBytes next cx r s =
     next cx (if 0 < maxBytes then r\<lparr>rq_limit := Some (nat maxBytes)\<rparr> else r) s"

definition me_handler :: handler where
  "me_handler cx r s =
     (s, SetHeader ''Content-Type'' ''application/json'' #
         writeJSON (Some (JObj [(''is_admin'', JBool (IsAdminFromContext cx)), (''user_id'', JStr (UserIDFromContext cx))])))"

definition RegisterRoutes :: "route list" where
  "RegisterRoutes =
     [(''POST'', ''/v1/tunnels'', EpCreate), (''GET'', ''/v1/tunnels'', EpList),
      (''GET'', ''/v1/tunnels/{id}'', EpGet), (''DELETE'', ''/v1/tunnels/{id}'', EpDelete),
      (''POST'', ''/v1/admin/tunnels/{id}/revoke'', EpAdminRevoke)]"

definition v1_routes :: "route list" where
  "v1_routes = RegisterRoutes @ [(''GET'', ''/v1/me'', EpMe)]"

definition root_routes :: "route list" where
  "root_routes = [(''GET'', ''/healthz'', EpHealthz), (''GET'', ''/readyz'', EpReadyz), ('''', ''/v1/*'', EpV1)]"

definition route_not_found :: handler where
  "route_not_found cx r s = (s, WriteError 404 ErrNotFound ''route not found'')"

definition method_not_allowed :: handler where
  "method_not_allowed cx r s = (s, WriteError 405 ErrInvalidRequest ''method not allowed'')"

text \<open>The codec that \<open>IdempotencyMiddleware\<close> makes from the plugin secret.\<close>

definition api_codec :: "platform \<Rightarrow> config \<Rightarrow> codec" where
  "api_codec p cfg = newIdempotencyCodec (pf_seal p) (pf_open p) (pf_sha p) (PluginSecret cfg)"

definition tunnel_endpoint :: "platform \<Rightarrow> config \<Rightarrow> world \<Rightarrow> endpoint \<Rightarrow> string \<Rightarrow> handler" where
  "tunnel_endpoint p cfg w ep tid =
     (case ep of
        EpCreate \<Rightarrow> CreateTunnel (pf_sha p) (wd_env w) (api_codec p cfg) (wd_create_nonce w) (pf_zone p) cfg
                      (wd_draw w) (wd_ids w) (wd_uuid w)
      | EpList \<Rightarrow> ListTunnels (pf_lenient p) (pf_collate p) (wd_env w) (pf_zone p) cfg
      | EpGet \<Rightarrow> GetTunnel (wd_env w) (pf_zone p) cfg tid
      | EpDelete \<Rightarrow> DeleteTunnel (wd_env w) tid
      | EpAdminRevoke \<Rightarrow> AdminOnly (AdminRevokeTunnel (wd_env w) tid)
      | EpMe \<Rightarrow> me_handler
      | _ \<Rightarrow> route_not_found)"

definition v1_dispatch :: "platform \<Rightarrow> config \<Rightarrow> world \<Rightarrow> handler" where
  "v1_dispatch p cfg w cx r s =
     (case pf_chi p v1_routes r of
        Matched ep tid \<Rightarrow> tunnel_endpoint p cfg w ep tid cx r s
      | NotFound \<Rightarrow> route_not_found cx r s
      | MethodNotAllowed \<Rightarrow> method_not_allowed cx r s)"

text \<open>The middlewares of \<open>/v1\<close>, outermost first; they run for paths that no route matches, too.\<close>

definition v1_authorized :: "platform \<Rightarrow> config \<Rightarrow> world \<Rightarrow> handler" where
  "v1_authorized p cfg w =
     RateLimitMiddleware (wd_now w)
       (IdempotencyMiddleware (pf_sha p) (pf_seal p) (pf_open p) (PluginSecret cfg) (wd_env w) (wd_nonce w)
          (v1_dispatch p cfg w))"

definition v1_handler :: "platform \<Rightarrow> config \<Rightarrow> world \<Rightarrow> handler" where
  "v1_handler p cfg w =
     MaxBodySize (MaxRequestBytes cfg)
       (AuthMiddleware (pf_sha p) (pf_argon p) (wd_slots w) (TokenLookupFromDB (wd_env w)) (v1_authorized p cfg w))"

definition root_dispatch :: "platform \<Rightarrow> config \<Rightarrow> world \<Rightarrow> handler" where
  "root_dispatch p cfg w cx r s =
     (case pf_chi p root_routes r of
        Matched EpHealthz _ \<Rightarrow> (s, HealthzHandler)
      | Matched EpReadyz _ \<Rightarrow> (s, ReadyzHandler (wd_ping w \<and> CheckSchema (wd_schema w) = Inr ()))
      | Matched EpV1 _ \<Rightarrow> v1_handler p cfg w cx r s
      | MethodNotAllowed \<Rightarrow> method_not_allowed cx r s
      | _ \<Rightarrow> route_not_found cx r s)"

definition NewRouter :: "platform \<Rightarrow> config \<Rightarrow> world \<Rightarrow> request \<Rightarrow> srv \<Rightarrow> srv \<times> wop list" where
  "NewRouter p cfg w = RequestLogMiddleware (wd_request_id w) (root_dispatch p cfg w) background"


subsection \<open>The router as an operation on tunnels\<close>

lemma tunnel_op_outside:
  "(\<And>s. sv_db (f s) = sv_db s) \<Longrightarrow> tunnel_op f"
  by unfold_locales simp_all

context tunnel_handler
begin

lemma rate_limit_op: "tunnel_op (\<lambda>s. fst (RateLimitMiddleware now inner cx r s))"
proof (rule tunnel_op_choice)
  fix s
  let ?run = "fst (RateLimitMiddleware now inner cx r s)"
  let ?rl = "\<lambda>s :: srv. s\<lparr>sv_limiter := fst (Allow now (TokenIDFromContext cx) (sv_limiter s))\<rparr>"
  let ?count = "\<lambda>s :: srv. s\<lparr>sv_metrics := IncrRateLimitReject (sv_metrics s)\<rparr>"
  have op: "tunnel_op ?rl" "tunnel_op (\<lambda>s. ?count (?rl s))" "tunnel_op (\<lambda>s. fst (inner cx r (?rl s)))"
    "tunnel_op (\<lambda>s. fst (inner cx r s))"
    by (simp_all add: tunnel_op_outside tunnel_op_comp [OF tunnel_op_outside handler_op] handler_op)
  have "?run = fst (inner cx r s) \<or> ?run = ?count (?rl s) \<or> ?run = fst (inner cx r (?rl s))"
    by (auto simp: RateLimitMiddleware_def Let_def split: prod.splits)
  with op show "?run = s \<or> (\<exists>f. tunnel_op f \<and> ?run = f s)" by blast
qed

lemma max_body_op: "tunnel_op (\<lambda>s. fst (MaxBodySize n inner cx r s))"
  by (simp add: MaxBodySize_def handler_op)

lemma request_log_op: "tunnel_op (\<lambda>s. fst (RequestLogMiddleware rid inner cx r s))"
  by (simp add: RequestLogMiddleware_def split_def handler_op)

end

lemma tunnel_endpoint_handler: "tunnel_handler (tunnel_endpoint p cfg w ep tid)"
proof (cases ep)
  case EpAdminRevoke
  show ?thesis
    unfolding EpAdminRevoke by (rule tunnel_handler.intro) (simp add: tunnel_endpoint_def admin_revoke_handler.admin_op)
qed (auto simp: tunnel_endpoint_def route_not_found_def me_handler_def tunnel_op_id
  intro: tunnel_handler.intro create_handler.tunnel_handler_axioms list_handler.tunnel_handler_axioms
    get_handler.tunnel_handler_axioms delete_handler.tunnel_handler_axioms)

interpretation dispatch_handler: tunnel_handler "v1_dispatch p cfg w" for p cfg w
proof (rule tunnel_handler.intro)
  fix cx r
  show "tunnel_op (\<lambda>s. fst (v1_dispatch p cfg w cx r s))"
    by (cases "pf_chi p v1_routes r")
       (simp_all add: v1_dispatch_def route_not_found_def method_not_allowed_def tunnel_op_id
         tunnel_handler.handler_op [OF tunnel_endpoint_handler])
qed

interpretation idempotent_handler: tunnel_handler
  "IdempotencyMiddleware sha seal opn secret e nonce (v1_dispatch p cfg w)" for sha seal opn secret e nonce p cfg w
  by (rule tunnel_handler.intro) (rule dispatch_handler.idem_op)

interpretation authorized_handler: tunnel_handler "v1_authorized p cfg w" for p cfg w
  by (rule tunnel_handler.intro) (simp add: v1_authorized_def idempotent_handler.rate_limit_op)

interpretation authenticated_handler: tunnel_handler
  "AuthMiddleware sha argon slots lookup (v1_authorized p cfg w)" for sha argon slots lookup p cfg w
  by (rule tunnel_handler.intro) (rule authorized_handler.auth_op)

interpretation v1_handler: tunnel_handler "v1_handler p cfg w" for p cfg w
  by (rule tunnel_handler.intro) (simp add: v1_handler_def authenticated_handler.max_body_op)

interpretation root_handler: tunnel_handler "root_dispatch p cfg w" for p cfg w
proof (rule tunnel_handler.intro)
  fix cx r
  show "tunnel_op (\<lambda>s. fst (root_dispatch p cfg w cx r s))"
    by (cases "pf_chi p root_routes r" rule: chi_match.exhaust; cases "case pf_chi p root_routes r of Matched ep _ \<Rightarrow> ep | _ \<Rightarrow> EpMe")
       (simp_all add: root_dispatch_def route_not_found_def method_not_allowed_def tunnel_op_id v1_handler.handler_op)
qed

interpretation router_op: tunnel_op "\<lambda>s. fst (NewRouter p cfg w r s)" for p cfg w r
  unfolding NewRouter_def by (rule root_handler.request_log_op)


subsection \<open>Tenants\<close>

text \<open>Everything the database holds of a tunnel.\<close>

definition tunnel_view :: "string \<Rightarrow> db \<Rightarrow> tunnel_row option \<times> rt_row list \<times> event_row list" where
  "tunnel_view tid d =
     (find_tunnel tid d, filter (\<lambda>t. rt_tunnel t = tid) (db_rt_tokens d), filter (\<lambda>v. ev_tunnel v = tid) (db_events d))"

lemma tunnel_view_cong:
  "db_tunnels d' = db_tunnels d \<Longrightarrow> db_rt_tokens d' = db_rt_tokens d \<Longrightarrow> db_events d' = db_events d \<Longrightarrow>
     tunnel_view tid d' = tunnel_view tid d"
  by (simp add: tunnel_view_def find_tunnel_def)

lemma persist_frame:
  "db_tunnels (persistCompletion e c nonce tok key rc d) = db_tunnels d"
  "db_rt_tokens (persistCompletion e c nonce tok key rc d) = db_rt_tokens d"
  "db_events (persistCompletion e c nonce tok key rc d) = db_events d"
  by (cases rule: persist_cases [of e c nonce tok key rc d]; simp)+

lemma runReserved_view:
  "tunnel_view tid (sv_db (fst (runReserved e c nonce inner tok key cx r s))) =
     tunnel_view tid (sv_db (fst (inner (cx\<lparr>cx_reservation := Some \<lparr>rv_token = tok, rv_key = key\<rparr>\<rparr>) r s)))"
proof -
  obtain s1 w where n: "inner (cx\<lparr>cx_reservation := Some \<lparr>rv_token = tok, rv_key = key\<rparr>\<rparr>) r s = (s1, w)"
    by fastforce
  have "tunnel_view tid (fst (pool_exec e IdPanicRelease (sql_release tok key) (sv_db s1))) = tunnel_view tid (sv_db s1)"
    by (rule tunnel_view_cong; cases "e_out e IdPanicRelease"; simp add: pool_exec_def)
  moreover have "tunnel_view tid (persistCompletion e c nonce tok key rc (sv_db s1)) = tunnel_view tid (sv_db s1)" for rc
    by (rule tunnel_view_cong) (rule persist_frame)+
  ultimately show ?thesis by (simp add: runReserved_def n Let_def)
qed

text \<open>
  The contract: a handler leaves alone everything of a tunnel whose owner is not the identity of
  the request, unless that identity is an administrator.
\<close>

definition foreign :: "ctx \<Rightarrow> string \<Rightarrow> bool" where
  "foreign cx owner \<longleftrightarrow> UserIDFromContext cx \<noteq> '''' \<and> UserIDFromContext cx \<noteq> owner \<and> \<not> IsAdminFromContext cx"

locale isolated_handler =
  fixes inner :: handler
  assumes isolated: "find_tunnel tid (sv_db s) = Some t \<Longrightarrow> foreign cx (tn_user t) \<Longrightarrow>
      tunnel_view tid (sv_db (fst (inner cx r s))) = tunnel_view tid (sv_db s)"
begin

lemma isolated_admin:
  "find_tunnel tid (sv_db s) = Some t \<Longrightarrow> foreign cx (tn_user t) \<Longrightarrow>
     tunnel_view tid (sv_db (fst (AdminOnly other cx r s))) = tunnel_view tid (sv_db s)"
  by (simp add: AdminOnly_def foreign_def)

lemma isolated_rate:
  "find_tunnel tid (sv_db s) = Some t \<Longrightarrow> foreign cx (tn_user t) \<Longrightarrow>
     tunnel_view tid (sv_db (fst (RateLimitMiddleware now inner cx r s))) = tunnel_view tid (sv_db s)"
  using isolated [of tid "s\<lparr>sv_limiter := rl\<rparr>" t cx r for rl] isolated [of tid s t cx r]
  by (auto simp: RateLimitMiddleware_def Let_def split: prod.split)

lemma isolated_reserved:
  assumes "find_tunnel tid (sv_db s) = Some t" "foreign cx (tn_user t)"
  shows "tunnel_view tid (sv_db (fst (runReserved e c nonce inner tok key cx r s))) = tunnel_view tid (sv_db s)"
proof -
  let ?cx = "cx\<lparr>cx_reservation := Some \<lparr>rv_token = tok, rv_key = key\<rparr>\<rparr>"
  have "foreign ?cx (tn_user t)" using assms(2) by (simp add: foreign_def UserIDFromContext_def IsAdminFromContext_def)
  from isolated [OF assms(1) this, of r] show ?thesis by (simp add: runReserved_view)
qed

lemma isolated_idem:
  assumes "find_tunnel tid (sv_db s) = Some t" "foreign cx (tn_user t)"
  shows "tunnel_view tid (sv_db (fst (IdempotencyMiddleware sha seal opn secret e nonce inner cx r s))) =
     tunnel_view tid (sv_db s)"
proof -
  have "tunnel_view tid (sv_db (fst (handleIdempotentRequest sha e c nonce inner key cx r s))) = tunnel_view tid (sv_db s)"
    for c key
  proof (cases "requestHashAndRestoreBody sha r")
    case (Inl en)
    then show ?thesis using isolated [OF assms, of r] by (cases en) (simp_all add: handleIdempotentRequest_def Let_def)
  next
    case (Inr hr)
    obtain hash r' where hr: "hr = (hash, r')" by (cases hr)
    let ?tok = "TokenIDFromContext cx"
    show ?thesis
    proof (cases "sql_reserve (e_time e IdReserve) ?tok key hash (sv_db s)")
      case (Inl err)
      with Inr hr show ?thesis using isolated [OF assms, of r] by (simp add: handleIdempotentRequest_def Let_def)
    next
      case res: (Inr dn)
      obtain d' n where dn: "dn = (d', n)" by (cases dn)
      let ?s1 = "s\<lparr>sv_db := d'\<rparr>"
      have same: "db_tunnels d' = db_tunnels (sv_db s)" "db_rt_tokens d' = db_rt_tokens (sv_db s)"
        "db_events d' = db_events (sv_db s)"
        using sql_reserve_InrD [OF res [unfolded dn]] by auto
      then have view: "tunnel_view tid d' = tunnel_view tid (sv_db s)" by (rule tunnel_view_cong)
      have "find_tunnel tid (sv_db ?s1) = Some t" using same(1) assms(1) by (simp add: find_tunnel_def)
      from isolated_reserved [OF this assms(2)] have
        "tunnel_view tid (sv_db (fst (runReserved e c nonce inner ?tok key cx r' ?s1))) = tunnel_view tid (sv_db s)"
        using view by simp
      then show ?thesis
        using isolated [OF assms, of r] view Inr hr res dn
        by (cases "e_out e IdReserve") (simp_all add: handleIdempotentRequest_def Let_def pool_exec_def)
    qed
  qed
  then show ?thesis using isolated [OF assms, of r] by (simp add: IdempotencyMiddleware_def Let_def)
qed

end


lemma filter_update_where:
  "(\<And>x. P x \<Longrightarrow> \<not> Q x \<and> \<not> Q (f x)) \<Longrightarrow> filter Q (update_where P f xs) = filter Q xs"
  by (induction xs) (auto simp: update_where_def)

lemma find_by_unaffected:
  "(\<And>x. P x \<Longrightarrow> g x \<noteq> k \<and> g (f x) \<noteq> k) \<Longrightarrow>
     find_by g k (update_where P f xs) = find_by g k xs"
  by (induction xs) (auto simp: update_where_def)

lemma revoke_other_tunnel:
  assumes "tid' \<noteq> tid"
  shows "tunnel_view tid (revoke_effect now tid' moved d) = tunnel_view tid d"
proof -
  have "filter (\<lambda>t. rt_tunnel t = tid) (db_rt_tokens (revokeRuntimeTokens now tid' d')) =
      filter (\<lambda>t. rt_tunnel t = tid) (db_rt_tokens d')" for d'
    unfolding revokeRuntimeTokens_def using assms by (simp, intro filter_update_where) auto
  then show ?thesis
    using assms
    by (simp add: tunnel_view_def revoke_effect_def find_tunnel_def insertEvent_def set_status_where_def find_by_unaffected)
qed

lemma Revoke_view:
  assumes "find_tunnel tid (sv_db s) = Some t" "owner \<noteq> ''''" "owner \<noteq> tn_user t"
  shows "tunnel_view tid (sv_db (fst (Revoke e tid' owner s))) = tunnel_view tid (sv_db s)"
proof (cases "sv_db (fst (Revoke e tid' owner s)) = sv_db s")
  case False
  with Revoke_db [of e tid' owner s] obtain r where r: "revoke_lookup tid' owner (sv_db s) = Some r"
    "sv_db (fst (Revoke e tid' owner s)) = revoke_effect (e_time e RvBegin) tid' (non_terminal (tn_status r)) (sv_db s)"
    by blast
  from revoke_lookup_SomeD [OF r(1)] assms have "tid' \<noteq> tid" by auto
  then show ?thesis unfolding r(2) by (rule revoke_other_tunnel)
qed simp

lemma created_view:
  assumes "find_tunnel tid d = Some t" "find_tunnel tid' d = None"
  shows "tunnel_view tid (tunnel_created uid q rt tid' expires now uuid d) = tunnel_view tid d"
proof -
  have "tid' \<noteq> tid" using assms by auto
  then show ?thesis
    using assms(1) by (simp add: tunnel_view_def tunnel_created_def insertEvent_def find_tunnel_def find_by_append)
qed

interpretation create_isolated: isolated_handler "CreateTunnel sha e c nonce zone cfg draw ids uuid"
  for sha e c nonce zone cfg draw ids uuid
proof
  fix tid t cx r and s :: srv
  assume t: "find_tunnel tid (sv_db s) = Some t"
  have body: "tunnel_view tid d' = tunnel_view tid (sv_db s)"
    if b: "create_body e c nonce zone cfg ids uuid cx uid q rt (sv_db s) = Inr (d', body)" for uid q rt d' body
  proof -
    from b obtain tid' expires b where none: "find_tunnel tid' (sv_db s) = None"
      and cp: "CompleteIdempotentResponseInTransaction e c nonce (e_time e CtBegin) cx 201 body
         (tunnel_created uid q rt tid' expires (e_time e CtBegin) uuid (sv_db s)) = Inr (d', b)"
      by (rule create_body_InrD)
    from complete_frame(1-3) [OF cp] created_view [OF t none] show ?thesis
      using tunnel_view_cong by metis
  qed
  show "tunnel_view tid (sv_db (fst (CreateTunnel sha e c nonce zone cfg draw ids uuid cx r s))) = tunnel_view tid (sv_db s)"
    by (cases rule: CreateTunnel_cases [of sha e c nonce zone cfg draw ids uuid cx r s]) (simp_all add: body)
qed

interpretation delete_isolated: isolated_handler "DeleteTunnel e tid" for e tid
  by unfold_locales (simp add: DeleteTunnel_def split_def foreign_def Revoke_view)

interpretation list_isolated: isolated_handler "ListTunnels lenient collate e zone cfg" for lenient collate e zone cfg
  by unfold_locales (simp add: ListTunnels_def)

interpretation get_isolated: isolated_handler "GetTunnel e zone cfg tid" for e zone cfg tid
  by unfold_locales (simp add: GetTunnel_def)

lemma endpoint_isolated: "isolated_handler (tunnel_endpoint p cfg w ep tid)"
  by (cases ep)
     (auto simp: tunnel_endpoint_def route_not_found_def me_handler_def AdminOnly_def foreign_def
       intro: isolated_handler.intro create_isolated.isolated_handler_axioms list_isolated.isolated_handler_axioms
         get_isolated.isolated_handler_axioms delete_isolated.isolated_handler_axioms)

interpretation dispatch_isolated: isolated_handler "v1_dispatch p cfg w" for p cfg w
proof
  fix tid t cx r and s :: srv
  assume "find_tunnel tid (sv_db s) = Some t" "foreign cx (tn_user t)"
  then show "tunnel_view tid (sv_db (fst (v1_dispatch p cfg w cx r s))) = tunnel_view tid (sv_db s)"
    by (cases "pf_chi p v1_routes r")
       (simp_all add: v1_dispatch_def route_not_found_def method_not_allowed_def
         isolated_handler.isolated [OF endpoint_isolated])
qed

interpretation idempotent_isolated: isolated_handler
  "IdempotencyMiddleware sha seal opn secret e nonce (v1_dispatch p cfg w)" for sha seal opn secret e nonce p cfg w
  by (rule isolated_handler.intro) (rule dispatch_isolated.isolated_idem)

interpretation authorized_isolated: isolated_handler "v1_authorized p cfg w" for p cfg w
  by (rule isolated_handler.intro) (simp add: v1_authorized_def idempotent_isolated.isolated_rate)


subsection \<open>A sample deployment\<close>

text \<open>A matcher that is enough for the samples: exact paths, and \<open>DELETE\<close> of one tunnel.\<close>

definition sample_chi :: chi_fun where
  "sample_chi routes r =
     (if routes = root_routes then Matched EpV1 ''''
      else if rq_method r = ''DELETE'' then Matched EpDelete (drop (length ''/v1/tunnels/'') (rq_path r))
      else (case List.find (\<lambda>(m, pat, _). m = rq_method r \<and> pat = rq_path r) routes of
              None \<Rightarrow> NotFound
            | Some (_, _, ep) \<Rightarrow> Matched ep ''''))"

definition sample_platform :: platform where
  "sample_platform =
     \<lparr>pf_sha = sample_sha, pf_argon = (\<lambda>_ _ _ _ _ _. []), pf_seal = (\<lambda>_ _ p _. p), pf_open = (\<lambda>_ _ x _. Some x),
      pf_lenient = (\<lambda>_. None), pf_collate = (\<lambda>s. s), pf_zone = (\<lambda>_. 0), pf_chi = sample_chi\<rparr>"

definition sample_world :: world where
  "sample_world =
     \<lparr>wd_env = calm 0, wd_now = 0, wd_nonce = zero_nonce, wd_create_nonce = zero_nonce, wd_draw = (\<lambda>_. Some 2),
      wd_ids = (\<lambda>_ _. Some 2), wd_uuid = ''r9'', wd_slots = (\<lambda>_. SlotWaitExpired), wd_request_id = ''q1'',
      wd_ping = True, wd_schema = \<lparr>sc_tables = None, sc_migration = None\<rparr>\<rparr>"

definition sample_limits :: config where
  "sample_limits = sample_config\<lparr>MaxRequestBytes := 200\<rparr>"

definition sample_delete :: request where
  "sample_delete = (sample_request ''Bearer sk_live_AAAABBBB'')
     \<lparr>rq_method := ''DELETE'', rq_path := ''/v1/tunnels/t1'', rq_escaped_path := ''/v1/tunnels/t1''\<rparr>"

subsection \<open>Properties\<close>

lemma log_db: "fst (RequestLogMiddleware rid inner cx r s) = fst (inner cx r s)"
  by (simp add: RequestLogMiddleware_def split_def)

lemma header_get_limit [simp]: "header_get k (r\<lparr>rq_limit := l\<rparr>) = header_get k r"
  by (simp add: header_get_def)

text \<open>The state after a request on \<open>/v1\<close>: that of the handlers, when it is authenticated.\<close>

lemma router_cases:
  obtains (unchanged) "fst (NewRouter p cfg w r s) = s"
  | (authorized) cx' r' where "header_get ''Authorization'' r' = header_get ''Authorization'' r"
      "authenticateRequest (pf_sha p) (pf_argon p) (wd_slots w) (TokenLookupFromDB (wd_env w)) background r' s = Inr cx'"
      "fst (NewRouter p cfg w r s) = fst (v1_authorized p cfg w cx' r' s)"
proof (cases "\<exists>x. pf_chi p root_routes r = Matched EpV1 x")
  case True
  let ?r = "if 0 < MaxRequestBytes cfg then r\<lparr>rq_limit := Some (nat (MaxRequestBytes cfg))\<rparr> else r"
  have h: "header_get ''Authorization'' ?r = header_get ''Authorization'' r" by simp
  from True have run: "fst (NewRouter p cfg w r s) = fst (AuthMiddleware (pf_sha p) (pf_argon p) (wd_slots w)
      (TokenLookupFromDB (wd_env w)) (v1_authorized p cfg w) background ?r s)"
    by (auto simp: NewRouter_def log_db root_dispatch_def v1_handler_def MaxBodySize_def)
  show thesis
  proof (cases "authenticateRequest (pf_sha p) (pf_argon p) (wd_slots w) (TokenLookupFromDB (wd_env w)) background ?r s")
    case (Inl err)
    then have "fst (NewRouter p cfg w r s) = s"
      unfolding run by (simp add: AuthMiddleware_def split: auth_error.split)
    then show thesis by (rule unchanged)
  next
    case (Inr cx')
    from authorized [OF h Inr] run Inr show thesis by (simp add: AuthMiddleware_def)
  qed
next
  case False
  then have "fst (NewRouter p cfg w r s) = s"
    by (auto simp: NewRouter_def log_db root_dispatch_def route_not_found_def method_not_allowed_def
        split: chi_match.split endpoint.split)
  then show thesis by (rule unchanged)
qed

text \<open>
  C29: Tenants are separate: when a request changes anything the database holds of a tunnel (its row, its
  credentials or its events), its bearer secret verifies against a live API key whose user owns
  the tunnel or is an administrator.  The identifiers of users are not empty.
\<close>

theorem tenant_isolation:
  assumes "find_tunnel tid (sv_db s) = Some t" "'''' \<notin> us_id ` set (db_users (sv_db s))"
    and "tunnel_view tid (sv_db (fst (NewRouter p cfg w r s))) \<noteq> tunnel_view tid (sv_db s)"
  shows "\<exists>raw k u slot. extractBearerToken (header_get ''Authorization'' r) = Inr raw \<and>
     k \<in> set (db_api_tokens (sv_db s)) \<and> at_revoked k = None \<and>
     VerifyTokenContext (pf_sha p) (pf_argon p) slot raw (at_hash k) = Inr True \<and>
     u \<in> set (db_users (sv_db s)) \<and> us_id u = at_user k \<and> (us_id u = tn_user t \<or> us_is_admin u)"
proof (cases rule: router_cases [of p cfg w r s])
  case unchanged
  with assms(3) show ?thesis by simp
next
  case (authorized cx' r')
  from authenticated_principal [OF authorized(2)] obtain raw k u slot where
    raw: "extractBearerToken (header_get ''Authorization'' r') = Inr raw" and
    k: "k \<in> set (db_api_tokens (sv_db s))" "at_revoked k = None"
      "VerifyTokenContext (pf_sha p) (pf_argon p) slot raw (at_hash k) = Inr True" and
    u: "u \<in> set (db_users (sv_db s))" "us_id u = at_user k" "UserIDFromContext cx' = us_id u"
      "IsAdminFromContext cx' = us_is_admin u"
    by blast
  have "\<not> foreign cx' (tn_user t)"
    using authorized_isolated.isolated [OF assms(1), of cx' p cfg w r'] assms(3) authorized(3) by auto
  moreover have "UserIDFromContext cx' \<noteq> ''''" using assms(2) u(1,3) by force
  ultimately have "us_id u = tn_user t \<or> us_is_admin u" using u by (auto simp: foreign_def)
  with raw k u authorized(1) show ?thesis by metis
qed

theorem tenant_isolation_witness:
  "\<exists>raw. extractBearerToken (header_get ''Authorization'' sample_delete) = Inr raw \<and>
     (\<exists>k \<in> set (db_api_tokens (sv_db (auth_sample sample_sha ''sk_live_AAAABBBB''))). at_revoked k = None \<and>
        (\<exists>slot. VerifyTokenContext sample_sha (\<lambda>_ _ _ _ _ _. []) slot raw (at_hash k) = Inr True))"
proof -
  let ?s = "auth_sample sample_sha ''sk_live_AAAABBBB''"
  let ?t = "hd (db_tunnels (sv_db ?s))"
  have "tunnel_view ''t1'' (sv_db (fst (NewRouter sample_platform sample_limits sample_world sample_delete ?s))) \<noteq>
      tunnel_view ''t1'' (sv_db ?s)" by code_simp
  from tenant_isolation [OF _ _ this, of ?t] show ?thesis
    by (auto simp: auth_sample_def Let_def sample_db_def find_tunnel_def sample_platform_def)
qed


lemma logged_error:
  "st \<noteq> 0 \<Longrightarrow> rs_status (render ((if rid \<noteq> '''' then [SetHeader ''X-Request-ID'' rid] else []) @
     sr_out (record_status (WriteError st code msg)))) = st"
  by (simp add: record_status_def WriteError_def render_simps)

text \<open>
  C30: A request for \<open>/v1\<close> without the secret of a live API key is refused with 401, or with 503 when the
  lookup fails, whatever its path and method, and changes nothing: neither the database, nor the
  counters, nor the buckets of the rate limiter.
\<close>

theorem unauthenticated_refused:
  assumes "pf_chi p root_routes r = Matched EpV1 x"
    and no_key: "\<And>raw k slot. extractBearerToken (header_get ''Authorization'' r) = Inr raw \<Longrightarrow>
       k \<in> set (db_api_tokens (sv_db s)) \<Longrightarrow> at_revoked k = None \<Longrightarrow>
       VerifyTokenContext (pf_sha p) (pf_argon p) slot raw (at_hash k) \<noteq> Inr True"
  shows "fst (NewRouter p cfg w r s) = s \<and> rs_status (render (snd (NewRouter p cfg w r s))) \<in> {401, 503}"
proof -
  let ?r = "if 0 < MaxRequestBytes cfg then r\<lparr>rq_limit := Some (nat (MaxRequestBytes cfg))\<rparr> else r"
  let ?auth = "authenticateRequest (pf_sha p) (pf_argon p) (wd_slots w) (TokenLookupFromDB (wd_env w)) background ?r s"
  have h: "header_get ''Authorization'' ?r = header_get ''Authorization'' r" by simp
  have "?auth \<noteq> Inr cx'" for cx'
    using authenticated_principal [of "pf_sha p" "pf_argon p" "wd_slots w" "wd_env w" background ?r s cx'] no_key h
    by metis
  then obtain err where err: "?auth = Inl err" by (cases ?auth) auto
  have run: "NewRouter p cfg w r s = RequestLogMiddleware (wd_request_id w)
      (AuthMiddleware (pf_sha p) (pf_argon p) (wd_slots w) (TokenLookupFromDB (wd_env w)) (v1_authorized p cfg w))
      background ?r s"
    by (simp add: NewRouter_def RequestLogMiddleware_def root_dispatch_def assms(1) v1_handler_def MaxBodySize_def)
  obtain st code msg where "AuthMiddleware (pf_sha p) (pf_argon p) (wd_slots w) (TokenLookupFromDB (wd_env w))
      (v1_authorized p cfg w) background ?r s = (s, WriteError st code msg)" "st \<in> {401, 503}"
    using err by (cases err) (auto simp: AuthMiddleware_def)
  then have "fst (NewRouter p cfg w r s) = s" and "st \<noteq> 0" and "snd (NewRouter p cfg w r s) =
      (if wd_request_id w \<noteq> '''' then [SetHeader ''X-Request-ID'' (wd_request_id w)] else []) @
      sr_out (record_status (WriteError st code msg))"
    unfolding run RequestLogMiddleware_def by auto
  then show ?thesis using \<open>st \<in> {401, 503}\<close> by (simp only: logged_error [OF \<open>st \<noteq> 0\<close>] simp_thms)
qed

theorem unauthenticated_refused_witness:
  "fst (NewRouter sample_platform sample_limits sample_world (sample_request '''') (fresh_srv (sample_db Active 9))) =
     fresh_srv (sample_db Active 9)"
proof -
  have "extractBearerToken (header_get ''Authorization'' (sample_request '''')) \<noteq> Inr raw" for raw
    by (simp add: header_get_def sample_request_def extractBearerToken_def)
  then show ?thesis
    using unauthenticated_refused [of sample_platform "sample_request ''''" "''''" "fresh_srv (sample_db Active 9)"
        sample_limits sample_world]
    by (simp add: sample_platform_def sample_chi_def)
qed

end
