(* ===== verification/ServerCommands.thy ===== *)
theory ServerCommands
  imports Router
begin

text \<open>
  The administrative commands of \<open>internal/cli/commands/server.go\<close>: initialisation, users, API keys,
  the listings, the health check, and the checks and supervision of \<open>server run\<close>.  A command reads
  its configuration from the environment, opens the database and does its statements; what it
  prints on success is its result, as data: the layout of tables and JSON is left to the library.
\<close>

datatype cmd_error =
    BadConfig "string list" | NoDatabaseURL | MigrationFailed "migrate_error list" | CannotConnect
  | CountFailed | UsersExist | Aborted | MintFailed | BeginFailed | CreateUserFailed | StoreTokenFailed
  | CommitFailed | MissingFlags | LookupUserFailed | ScanFailed | IterateFailed | UserNotFound
  | AmbiguousUser | QueryError | ExecFailed | TokenNotLive

text \<open>What a command runs in.  A UUID argument is compared in the form \<open>cw_parse_uuid\<close> gives, None when it is none.\<close>

record cli_world =
  cw_frac :: frac_fun
  cw_getenv :: environment
  cw_migrate :: migrate_lib
  cw_connect :: bool
  cw_env :: env
  cw_sha :: sha_fun
  cw_draw :: draws
  cw_uuid :: string
  cw_token_uuid :: string
  cw_parse_uuid :: "string \<Rightarrow> string option"

definition load_config :: "cli_world \<Rightarrow> cmd_error + config" where
  "load_config w =
     (case Load (cw_frac w) (cw_getenv w) of
        (cfg, bad) \<Rightarrow>
          if bad \<noteq> [] then Inl (BadConfig bad)
          else if DatabaseURL cfg = '''' then Inl NoDatabaseURL
          else Inr cfg)"

text \<open>The common beginning: configuration and connection.\<close>

definition with_database :: "cli_world \<Rightarrow> (db \<Rightarrow> db \<times> (cmd_error + 'a)) \<Rightarrow> db \<Rightarrow> db \<times> (cmd_error + 'a)" where
  "with_database w body d =
     (case load_config w of
        Inl err \<Rightarrow> (d, Inl err)
      | Inr _ \<Rightarrow> if \<not> cw_connect w then (d, Inl CannotConnect) else body d)"

subsection \<open>Statements\<close>

definition sql_insert_user :: "time \<Rightarrow> string \<Rightarrow> string \<Rightarrow> string \<Rightarrow> bool \<Rightarrow> db \<Rightarrow> sql_error + db" where
  "sql_insert_user now uid email name adm d =
     (if uid \<in> us_id ` set (db_users d) \<or> Some email \<in> us_email ` set (db_users d) then Inl UniqueViolation
      else Inr (d\<lparr>db_users := db_users d @
             [\<lparr>us_id = uid, us_email = Some email, us_name = Some name, us_is_admin = adm, us_created = now\<rparr>]\<rparr>))"

definition new_api_row :: "time \<Rightarrow> string \<Rightarrow> string \<Rightarrow> string \<Rightarrow> token \<Rightarrow> api_token_row" where
  "new_api_row now kid uid name tok =
     \<lparr>at_id = kid, at_user = uid, at_name = name, at_prefix = tk_prefix tok, at_hash = tk_hash tok,
      at_revoked = None, at_created = now\<rparr>"

definition sql_insert_api_token :: "time \<Rightarrow> string \<Rightarrow> string \<Rightarrow> string \<Rightarrow> token \<Rightarrow> db \<Rightarrow> sql_error + db" where
  "sql_insert_api_token now kid uid name tok d =
     (if kid \<in> at_id ` set (db_api_tokens d) then Inl UniqueViolation
      else if uid \<notin> us_id ` set (db_users d) then Inl ForeignKeyViolation
      else Inr (d\<lparr>db_api_tokens := db_api_tokens d @ [new_api_row now kid uid name tok]\<rparr>))"

definition live_key :: "string \<Rightarrow> api_token_row \<Rightarrow> bool" where
  "live_key kid t \<longleftrightarrow> at_id t = kid \<and> at_revoked t = None"

definition sql_revoke_api_token :: "time \<Rightarrow> string \<Rightarrow> db \<Rightarrow> db" where
  "sql_revoke_api_token now kid d =
     d\<lparr>db_api_tokens := update_where (live_key kid) (\<lambda>t. t\<lparr>at_revoked := Some now\<rparr>) (db_api_tokens d)\<rparr>"

text \<open>\<open>WHERE id::text = $1 OR email = $1 OR name = $1 ORDER BY id LIMIT 2\<close>\<close>

definition sql_select_users :: "string \<Rightarrow> db \<Rightarrow> string list" where
  "sql_select_users sel d =
     take 2 (sort (map us_id (filter (\<lambda>u. us_id u = sel \<or> us_email u = Some sel \<or> us_name u = Some sel) (db_users d))))"

subsection \<open>server init\<close>

text \<open>The statements between \<open>Begin\<close> and \<open>Commit\<close>.\<close>

definition init_body :: "cli_world \<Rightarrow> string \<Rightarrow> string \<Rightarrow> token \<Rightarrow> db \<Rightarrow> cmd_error + db" where
  "init_body w email name tok d =
     (let now = e_time (cw_env w) CmBegin
      in if \<not> ok (cw_env w) CmUser then Inl CreateUserFailed
         else (case sql_insert_user now (cw_uuid w) email name True d of
                 Inl _ \<Rightarrow> Inl CreateUserFailed
               | Inr d1 \<Rightarrow>
                   if \<not> ok (cw_env w) CmToken then Inl StoreTokenFailed
                   else (case sql_insert_api_token now (cw_token_uuid w) (cw_uuid w) ''init-token'' tok d1 of
                           Inl _ \<Rightarrow> Inl StoreTokenFailed
                         | Inr d2 \<Rightarrow> Inr d2)))"

text \<open>\<open>typed\<close> is the line typed at the prompt; its case is folded as ASCII.\<close>

definition serverInit ::
  "cli_world \<Rightarrow> bool \<Rightarrow> bool \<Rightarrow> string \<Rightarrow> string \<Rightarrow> string \<Rightarrow> db \<Rightarrow> db \<times> (cmd_error + string)" where
  "serverInit w force yes typed email name d =
     (case load_config w of
        Inl err \<Rightarrow> (d, Inl err)
      | Inr cfg \<Rightarrow>
          (let bad = RunMigrations (cw_migrate w) (DatabaseURL cfg); userCount = length (db_users d)
           in if bad \<noteq> [] then (d, Inl (MigrationFailed bad))
              else if \<not> cw_connect w then (d, Inl CannotConnect)
              else if \<not> ok (cw_env w) CmCount then (d, Inl CountFailed)
              else if 0 < userCount \<and> \<not> force then (d, Inl UsersExist)
              else if 0 < userCount \<and> force \<and> \<not> yes \<and> trim_space (map lower_char typed) \<noteq> ''yes''
              then (d, Inl Aborted)
              else (case MintAPIToken (cw_sha w) (cw_draw w) of
                      None \<Rightarrow> (d, Inl MintFailed)
                    | Some tok \<Rightarrow>
                        if \<not> ok (cw_env w) CmBegin then (d, Inl BeginFailed)
                        else (case init_body w email name tok d of
                                Inl err \<Rightarrow> (d, Inl err)
                              | Inr d' \<Rightarrow>
                                  (case commit (cw_env w) CmCommit d d' of
                                     (d'', False) \<Rightarrow> (d'', Inl CommitFailed)
                                   | (d'', True) \<Rightarrow> (d'', Inr (tk_raw tok)))))))"

subsection \<open>server user\<close>

definition serverUserCreate :: "cli_world \<Rightarrow> string \<Rightarrow> string \<Rightarrow> bool \<Rightarrow> db \<Rightarrow> db \<times> (cmd_error + string)" where
  "serverUserCreate w email name adm d =
     (if email = '''' then (d, Inl MissingFlags)
      else with_database w
        (\<lambda>d. case sql_insert_user (e_time (cw_env w) CmExec) (cw_uuid w) email name adm d of
               Inl _ \<Rightarrow> (d, Inl CreateUserFailed)
             | Inr d1 \<Rightarrow>
                 (case pool_exec (cw_env w) CmExec (\<lambda>_. d1) d of
                    (d', False) \<Rightarrow> (d', Inl CreateUserFailed)
                  | (d', True) \<Rightarrow> (d', Inr (cw_uuid w)))) d)"

text \<open>The rows of a query, read one by one.\<close>

definition read_rows :: "cli_world \<Rightarrow> 'r list \<Rightarrow> cmd_error + 'r list" where
  "read_rows w rows =
     (if \<not> ok (cw_env w) CmQuery then Inl QueryError
      else if rows \<noteq> [] \<and> \<not> ok (cw_env w) CmScan then Inl ScanFailed
      else if \<not> ok (cw_env w) CmIter then Inl IterateFailed
      else Inr rows)"

definition serverUserList :: "cli_world \<Rightarrow> db \<Rightarrow> db \<times> (cmd_error + user_row list)" where
  "serverUserList w = with_database w (\<lambda>d. (d, read_rows w (sort_key us_created (db_users d))))"

subsection \<open>server token\<close>

definition serverTokenCreate :: "cli_world \<Rightarrow> string \<Rightarrow> string \<Rightarrow> db \<Rightarrow> db \<times> (cmd_error + string)" where
  "serverTokenCreate w user name d =
     (if user = '''' \<or> name = '''' then (d, Inl MissingFlags)
      else with_database w
        (\<lambda>d. case read_rows w (sql_select_users user d) of
               Inl err \<Rightarrow> (d, Inl (if err = QueryError then LookupUserFailed else err))
             | Inr userIDs \<Rightarrow>
                 if length userIDs = 0 then (d, Inl UserNotFound)
                 else if 1 < length userIDs then (d, Inl AmbiguousUser)
                 else (case MintAPIToken (cw_sha w) (cw_draw w) of
                         None \<Rightarrow> (d, Inl MintFailed)
                       | Some tok \<Rightarrow>
                           (case sql_insert_api_token (e_time (cw_env w) CmExec) (cw_token_uuid w) (hd userIDs) name tok d of
                              Inl _ \<Rightarrow> (d, Inl StoreTokenFailed)
                            | Inr d1 \<Rightarrow>
                                (case pool_exec (cw_env w) CmExec (\<lambda>_. d1) d of
                                   (d', False) \<Rightarrow> (d', Inl StoreTokenFailed)
                                 | (d', True) \<Rightarrow> (d', Inr (tk_raw tok)))))) d)"

text \<open>The metadata of the keys, with their users: never the stored digests.\<close>

record token_metadata =
  tm_id :: string
  tm_user :: string
  tm_email :: "string option"
  tm_name :: string
  tm_prefix :: string
  tm_revoked :: "time option"
  tm_created :: time

definition token_metadata_of :: "db \<Rightarrow> api_token_row \<Rightarrow> token_metadata option" where
  "token_metadata_of d t =
     map_option (\<lambda>u. \<lparr>tm_id = at_id t, tm_user = us_id u, tm_email = us_email u, tm_name = at_name t,
                      tm_prefix = at_prefix t, tm_revoked = at_revoked t, tm_created = at_created t\<rparr>)
       (find_by us_id (at_user t) (db_users d))"

definition serverTokenList :: "cli_world \<Rightarrow> string \<Rightarrow> db \<Rightarrow> db \<times> (cmd_error + token_metadata list)" where
  "serverTokenList w user =
     with_database w
       (\<lambda>d. (d, read_rows w
               (rev (sort_key tm_created
                 (filter (\<lambda>m. user = '''' \<or> tm_user m = user \<or> tm_email m = Some user)
                   (List.map_filter (token_metadata_of d) (db_api_tokens d)))))))"

definition serverTokenRevoke :: "cli_world \<Rightarrow> string \<Rightarrow> db \<Rightarrow> db \<times> (cmd_error + unit)" where
  "serverTokenRevoke w arg =
     with_database w
       (\<lambda>d. case cw_parse_uuid w arg of
              None \<Rightarrow> (d, Inl ExecFailed)
            | Some kid \<Rightarrow>
                (case pool_exec (cw_env w) CmExec (sql_revoke_api_token (e_time (cw_env w) CmExec) kid) d of
                   (d', False) \<Rightarrow> (d', Inl ExecFailed)
                 | (d', True) \<Rightarrow>
                     (d', if count_where (live_key kid) (db_api_tokens d) = 0 then Inl TokenNotLive else Inr ())))"

subsection \<open>server tunnels\<close>

definition serverTunnels :: "cli_world \<Rightarrow> db \<Rightarrow> db \<times> (cmd_error + tunnel_row list)" where
  "serverTunnels w = with_database w (\<lambda>d. (d, read_rows w (rev (sort_key tn_created (db_tunnels d)))))"


subsection \<open>server healthcheck\<close>

datatype http_failure = HttpDeadline | HttpCanceled | HttpOther

text \<open>How the request ended: a failure, or a response with its status and how its body was read and closed.\<close>

datatype http_end = HttpFailed http_failure | HttpResponse int bool bool

datatype health_error = TimeoutNotPositive | InvalidURL | TimedOut | HealthCanceled | RequestFailed
  | HealthStatus int | ReadFailed | CloseFailed

text \<open>\<open>url\<close> is the scheme and host of the target, None when it does not parse.  The errors are joined.\<close>

definition runServerHealthcheck :: "(string \<times> string) option \<Rightarrow> http_end \<Rightarrow> health_error list" where
  "runServerHealthcheck url res =
     (case url of
        None \<Rightarrow> [InvalidURL]
      | Some (scheme, host) \<Rightarrow>
          if host = '''' \<or> (scheme \<noteq> ''http'' \<and> scheme \<noteq> ''https'') then [InvalidURL]
          else (case res of
                  HttpFailed HttpDeadline \<Rightarrow> [TimedOut]
                | HttpFailed HttpCanceled \<Rightarrow> [HealthCanceled]
                | HttpFailed HttpOther \<Rightarrow> [RequestFailed]
                | HttpResponse status read_ok close_ok \<Rightarrow>
                    (if status \<noteq> 200 then [HealthStatus status] else if \<not> read_ok then [ReadFailed] else []) @
                    (if close_ok then [] else [CloseFailed])))"

definition serverHealthcheck :: "int \<Rightarrow> (string \<times> string) option \<Rightarrow> http_end \<Rightarrow> health_error list" where
  "serverHealthcheck timeout url res =
     (if timeout \<le> 0 then [TimeoutNotPositive] else runServerHealthcheck url res)"

subsection \<open>server run\<close>

datatype run_error = RunConfig cmd_error | RunInvalid config_error | RunMigrate "migrate_error list"
  | RunConnect | RunSchema schema_error

text \<open>The checks before the server listens: the configuration it then runs with.\<close>

definition serverRunChecks :: "cli_world \<Rightarrow> schema_view \<Rightarrow> bool \<Rightarrow> run_error + config" where
  "serverRunChecks w schema dev =
     (case load_config w of
        Inl err \<Rightarrow> Inl (RunConfig err)
      | Inr cfg0 \<Rightarrow>
          (let cfg = (if dev then cfg0\<lparr>FRPSMode := ''subprocess''\<rparr> else cfg0)
           in case Validate cfg of
                Inl err \<Rightarrow> Inl (RunInvalid err)
              | Inr _ \<Rightarrow>
                  (let bad = RunMigrations (cw_migrate w) (DatabaseURL cfg)
                   in if bad \<noteq> [] then Inl (RunMigrate bad)
                      else if \<not> cw_connect w then Inl RunConnect
                      else (case CheckSchema schema of
                              Inl err \<Rightarrow> Inl (RunSchema err)
                            | Inr _ \<Rightarrow> Inr cfg))))"

text \<open>
  The supervision of \<open>frps\<close> as a subprocess: which of the three channels is ready first, and the
  result of the command.  \<open>server_result\<close> is what the server's goroutine sends in the end.
\<close>

datatype 'e supervised = ServerStopped "'e option" | FrpsExited "string option" | SignalReceived

datatype 'e supervise_error = ServerError 'e | FrpsUnexpected "string option"

definition supervise :: "bool \<Rightarrow> 'e option \<Rightarrow> 'e supervised \<Rightarrow> 'e supervise_error option" where
  "supervise ctx_done server_result ready =
     (case ready of
        ServerStopped res \<Rightarrow> map_option ServerError res
      | FrpsExited err \<Rightarrow>
          if ctx_done then map_option ServerError server_result else Some (FrpsUnexpected err)
      | SignalReceived \<Rightarrow> map_option ServerError server_result)"

subsection \<open>The commands as operations on tunnels\<close>

lemma with_database_fst:
  "fst (with_database w body d) = d \<or> fst (with_database w body d) = fst (body d)"
  by (auto simp: with_database_def split: sum.split)

lemma schema_insert_user:
  assumes "schema_ok d" "sql_insert_user now uid email name adm d = Inr d'"
  shows "schema_ok d'"
proof -
  from assms(2) have new: "uid \<notin> us_id ` set (db_users d)" "Some email \<notin> us_email ` set (db_users d)"
    and d': "d' = d\<lparr>db_users := db_users d @
      [\<lparr>us_id = uid, us_email = Some email, us_name = Some name, us_is_admin = adm, us_created = now\<rparr>]\<rparr>"
    by (simp_all add: sql_insert_user_def split: if_split_asm)
  have "Some email \<notin> set (map us_email (db_users d))" using new(2) by (metis list.set_map)
  then show ?thesis using assms(1) new(1) unfolding schema_ok_def d' by simp
qed

lemma schema_insert_api_token:
  assumes "schema_ok d" "sql_insert_api_token now kid uid name tok d = Inr d'"
  shows "schema_ok d'"
proof -
  from assms(2) have new: "kid \<notin> at_id ` set (db_api_tokens d)" "uid \<in> us_id ` set (db_users d)"
    and d': "d' = d\<lparr>db_api_tokens := db_api_tokens d @ [new_api_row now kid uid name tok]\<rparr>"
    by (simp_all add: sql_insert_api_token_def split: if_split_asm)
  have "at_id (new_api_row now kid uid name tok) = kid" "at_user (new_api_row now kid uid name tok) = uid"
    by (simp_all add: new_api_row_def)
  then show ?thesis using assms(1) new unfolding schema_ok_def d' by simp
qed

interpretation api_upd: keyed_update at_id "\<lambda>t. t\<lparr>at_revoked := Some now\<rparr>" for now
  by unfold_locales simp

lemma schema_revoke_api_token: "schema_ok d \<Longrightarrow> schema_ok (sql_revoke_api_token now kid d)"
proof -
  assume d: "schema_ok d"
  let ?rs = "update_where (live_key kid) (\<lambda>t. t\<lparr>at_revoked := Some now\<rparr>) (db_api_tokens d)"
  have ids: "map at_id ?rs = map at_id (db_api_tokens d)" by (rule api_upd.keys_update)
  then have "at_id ` set ?rs = at_id ` set (db_api_tokens d)" by (metis list.set_map)
  moreover have "at_user t \<in> us_id ` set (db_users d)" if t: "t \<in> set ?rs" for t
  proof -
    obtain t0 where "t0 \<in> set (db_api_tokens d)" "t = (if live_key kid t0 then t0\<lparr>at_revoked := Some now\<rparr> else t0)"
      using t unfolding in_set_update_where by blast
    then show ?thesis using d by (auto simp: schema_ok_def)
  qed
  ultimately show ?thesis
    using d ids by (simp add: schema_ok_def sql_revoke_api_token_def)
qed

text \<open>A command leaves the database, or does what its statements do to users and keys.\<close>

definition admin_change :: "db \<Rightarrow> db \<Rightarrow> bool" where
  "admin_change d d' \<longleftrightarrow> (schema_ok d \<longrightarrow> schema_ok d') \<and> db_tunnels d' = db_tunnels d \<and>
     db_rt_tokens d' = db_rt_tokens d \<and> db_events d' = db_events d \<and> db_idem d' = db_idem d"

lemma admin_change_refl [simp]: "admin_change d d"
  by (simp add: admin_change_def)

lemma admin_insert_user: "sql_insert_user now uid email name adm d = Inr d' \<Longrightarrow> admin_change d d'"
  using schema_insert_user [of d] by (auto simp: admin_change_def sql_insert_user_def split: if_splits)

lemma admin_insert_api_token: "sql_insert_api_token now kid uid name tok d = Inr d' \<Longrightarrow> admin_change d d'"
  using schema_insert_api_token [of d] by (auto simp: admin_change_def sql_insert_api_token_def split: if_splits)

lemma admin_revoke: "admin_change d (sql_revoke_api_token now kid d)"
  by (simp add: admin_change_def schema_revoke_api_token, simp add: sql_revoke_api_token_def)

lemma admin_change_trans: "admin_change a b \<Longrightarrow> admin_change b c \<Longrightarrow> admin_change a c"
  by (auto simp: admin_change_def)

lemma admin_pool_exec: "admin_change d (f d) \<Longrightarrow> admin_change d (fst (pool_exec e k f d))"
  using pool_exec_fst [of e k f d] by auto

lemma init_body_change: "init_body w email name tok d = Inr d' \<Longrightarrow> admin_change d d'"
  unfolding init_body_def Let_def
  by (auto split: if_splits sum.splits intro: admin_change_trans admin_insert_user admin_insert_api_token)

lemma admin_commands:
  "admin_change d (fst (serverInit w force yes typed email name d))"
  "admin_change d (fst (serverUserCreate w email name adm d))"
  "admin_change d (fst (serverTokenCreate w user name d))"
  "admin_change d (fst (serverTokenRevoke w arg d))"
proof -
  show "admin_change d (fst (serverInit w force yes typed email name d))"
    using init_body_change [of w email name _ d]
    by (auto simp: serverInit_def Let_def commit_def pool_exec_def split: sum.split option.split outcome.split)
  have "admin_change d (fst (body d)) \<Longrightarrow> admin_change d (fst (with_database w body d))" for body :: "db \<Rightarrow> db \<times> (cmd_error + 'z)"
    using with_database_fst [of w body d] by auto
  note wd = this
  show "admin_change d (fst (serverUserCreate w email name adm d))"
    unfolding serverUserCreate_def
    by (auto intro!: wd split: sum.split prod.split dest: admin_insert_user
        admin_pool_exec [of d "\<lambda>_. _" "cw_env w" CmExec] simp: pool_exec_def split: outcome.split)
  show "admin_change d (fst (serverTokenCreate w user name d))"
    unfolding serverTokenCreate_def
    by (auto intro!: wd split: sum.split prod.split option.split dest: admin_insert_api_token
        simp: pool_exec_def split: outcome.split)
  show "admin_change d (fst (serverTokenRevoke w arg d))"
    unfolding serverTokenRevoke_def
    by (auto intro!: wd admin_revoke split: option.split prod.split outcome.split simp: pool_exec_def)
qed

text \<open>The lists change nothing.\<close>

lemma lists_read_only [simp]:
  "fst (serverUserList w d) = d" "fst (serverTokenList w user d) = d" "fst (serverTunnels w d) = d"
  by (auto simp: serverUserList_def serverTokenList_def serverTunnels_def with_database_def split: sum.split)


subsection \<open>Properties\<close>

lemma minted_api_token:
  assumes "MintAPIToken sha draw = Some t" and "\<And>i n. draw i = Some n \<Longrightarrow> n < 62" and "length (sha (tk_raw t)) = 32"
  shows "KindOf (tk_raw t) = KindAPI" "ParsePrefix (tk_raw t) = Some (tk_prefix t)"
    "tk_hash t = HashToken sha (tk_raw t)"
proof -
  obtain body where body: "random_base62 draw apiTokenBytes = Some body"
    and t: "tk_raw t = apiTokenPrefix @ body" "tk_prefix t = take tokenPrefixLen (tk_raw t)"
      "tk_hash t = HashToken sha (tk_raw t)"
    using assms(1) by (auto simp: MintAPIToken_def Let_def split: option.splits)
  have "length body = 24" using random_base62_SomeD [OF body assms(2)] by (simp add: apiTokenBytes_def)
  then show "KindOf (tk_raw t) = KindAPI" "ParsePrefix (tk_raw t) = Some (tk_prefix t)"
    by (simp_all add: t KindOf_def ParsePrefix_def token_consts)
  show "tk_hash t = HashToken sha (tk_raw t)" by (rule t(3))
qed

lemma bearer_header:
  "extractBearerToken (''Bearer '' @ raw) = Inr raw"
proof -
  have "equal_fold ''Bearer'' ''bearer''" by code_simp
  then show ?thesis by (simp add: extractBearerToken_def)
qed

lemma serverInit_InrD:
  assumes "serverInit w force yes typed email name d = (d', Inr raw)"
  obtains tok where "MintAPIToken (cw_sha w) (cw_draw w) = Some tok" "raw = tk_raw tok"
    "d' = d\<lparr>db_users := db_users d @ [\<lparr>us_id = cw_uuid w, us_email = Some email, us_name = Some name,
              us_is_admin = True, us_created = e_time (cw_env w) CmBegin\<rparr>],
            db_api_tokens := db_api_tokens d @
              [new_api_row (e_time (cw_env w) CmBegin) (cw_token_uuid w) (cw_uuid w) ''init-token'' tok]\<rparr>"
    "d = empty_db \<or> force \<or> db_users d = []"
proof -
  from assms obtain tok d1 where tok: "MintAPIToken (cw_sha w) (cw_draw w) = Some tok"
    and body: "init_body w email name tok d = Inr d1" and c: "commit (cw_env w) CmCommit d d1 = (d', True)"
    and raw: "raw = tk_raw tok" and force: "\<not> (0 < length (db_users d) \<and> \<not> force)"
    by (auto simp: serverInit_def Let_def split: sum.splits if_splits option.splits prod.splits bool.splits)
  from commit_True [OF c] have "d' = d1" by simp
  moreover have "d1 = d\<lparr>db_users := db_users d @ [\<lparr>us_id = cw_uuid w, us_email = Some email, us_name = Some name,
              us_is_admin = True, us_created = e_time (cw_env w) CmBegin\<rparr>],
            db_api_tokens := db_api_tokens d @
              [new_api_row (e_time (cw_env w) CmBegin) (cw_token_uuid w) (cw_uuid w) ''init-token'' tok]\<rparr>"
    using body
    by (auto simp: init_body_def Let_def sql_insert_user_def sql_insert_api_token_def split: if_splits sum.splits)
  ultimately show thesis using that [OF tok raw] force by auto
qed

lemma current_key_principal:
  assumes "schema_ok (sv_db s)" and "\<And>c. ok e c"
    and "extractBearerToken (header_get ''Authorization'' r) = Inr raw" "KindOf raw = KindAPI"
    and "t \<in> set (db_api_tokens (sv_db s))" "at_revoked t = None" "ParsePrefix raw = Some (at_prefix t)"
    and "UsesCurrentHash (at_hash t)" "verifySHA256 sha raw (at_hash t)"
  shows "\<exists>t' u. t' \<in> set (db_api_tokens (sv_db s)) \<and> UsesCurrentHash (at_hash t') \<and> verifySHA256 sha raw (at_hash t') \<and>
     u \<in> set (db_users (sv_db s)) \<and> us_id u = at_user t' \<and>
     authenticateRequest sha argon slots (TokenLookupFromDB e) cx r s =
       Inr (ContextWithAdmin cx (at_id t') (us_id u) (us_is_admin u))"
proof -
  let ?v = "\<lambda>h. VerifyTokenContext sha argon (slots h) raw h"
  obtain c where c: "api_candidate (sv_db s) t = Some c" using api_candidate_exists [OF assms(1,5)] by blast
  have in_cs: "c \<in> set (sql_api_candidates (at_prefix t) (sv_db s))"
    using assms(5,6) c unfolding sql_api_candidates_set by blast
  have h: "tc_hash c = at_hash t" using api_candidate_simps [OF c] by auto
  have "?v (tc_hash c) = Inr True" using assms(8,9) by (simp add: h VerifyTokenContext_current)
  with api_scan.scan_finds_current [OF in_cs, of sha argon slots raw] h assms(8)
  obtain c' where c': "scan_candidates tc_hash ?v (sql_api_candidates (at_prefix t) (sv_db s)) = Inr (Some c')"
    "c' \<in> set (sql_api_candidates (at_prefix t) (sv_db s))" "UsesCurrentHash (tc_hash c')" "?v (tc_hash c') = Inr True"
    by auto
  from c'(2) obtain t' where t': "t' \<in> set (db_api_tokens (sv_db s))" "api_candidate (sv_db s) t' = Some c'"
    unfolding sql_api_candidates_set by blast
  from api_candidate_simps [OF t'(2)] obtain u where u: "u \<in> set (db_users (sv_db s))" "us_id u = at_user t'"
    "c' = \<lparr>tc_token_id = at_id t', tc_user_id = at_user t', tc_hash = at_hash t', tc_is_admin = us_is_admin u\<rparr>"
    by blast
  have "lookupCandidates (TokenLookupFromDB e) (at_prefix t) s = Inr (sql_api_candidates (at_prefix t) (sv_db s))"
    using in_cs assms(2) by (auto simp: lookupCandidates_def TokenLookupFromDB_def)
  with assms(3,4,7) c'(1) u have "authenticateRequest sha argon slots (TokenLookupFromDB e) cx r s =
      Inr (ContextWithAdmin cx (at_id t') (us_id u) (us_is_admin u))"
    by (simp add: authenticateRequest_def)
  moreover have "verifySHA256 sha raw (at_hash t')" "UsesCurrentHash (at_hash t')"
    using c'(3,4) u(3) by (simp_all add: VerifyTokenContext_current)
  ultimately show ?thesis using t'(1) u(1,2) by blast
qed

text \<open>
  C31: The key that \<open>server init\<close> prints works: when the command succeeds, a request that presents the key
  as bearer secret is authenticated as the new user, with administrator rights.  The database
  answers the lookup, and no older key stores the same digest.
\<close>

theorem init_key_authenticates:
  assumes "schema_ok d" and init: "serverInit w force yes typed email name d = (d', Inr raw)"
    and draw: "\<And>i n. cw_draw w i = Some n \<Longrightarrow> n < 62" and sha: "\<And>x. length (cw_sha w x) = 32"
    and new: "\<And>t. t \<in> set (db_api_tokens d) \<Longrightarrow> \<not> verifySHA256 (cw_sha w) raw (at_hash t)"
    and calls: "\<And>c. ok e c" and r: "header_get ''Authorization'' r = ''Bearer '' @ raw" and s: "sv_db s = d'"
  shows "authenticateRequest (cw_sha w) argon slots (TokenLookupFromDB e) cx r s =
     Inr (ContextWithAdmin cx (cw_token_uuid w) (cw_uuid w) True)"
proof -
  obtain tok where tok: "MintAPIToken (cw_sha w) (cw_draw w) = Some tok" "raw = tk_raw tok"
    and d': "d' = d\<lparr>db_users := db_users d @ [\<lparr>us_id = cw_uuid w, us_email = Some email, us_name = Some name,
              us_is_admin = True, us_created = e_time (cw_env w) CmBegin\<rparr>],
            db_api_tokens := db_api_tokens d @
              [new_api_row (e_time (cw_env w) CmBegin) (cw_token_uuid w) (cw_uuid w) ''init-token'' tok]\<rparr>"
    by (rule serverInit_InrD [OF init])
  let ?t = "new_api_row (e_time (cw_env w) CmBegin) (cw_token_uuid w) (cw_uuid w) ''init-token'' tok"
  note m = minted_api_token [OF tok(1) draw sha]
  have ok': "schema_ok (sv_db s)"
    using admin_commands(1) [of d w force yes typed email name] assms(1) by (simp add: init s admin_change_def)
  have h: "UsesCurrentHash (at_hash ?t)" "verifySHA256 (cw_sha w) raw (at_hash ?t)"
    using m(3) sha by (simp_all add: new_api_row_def tok(2) verifySHA256_HashToken)
  have b: "extractBearerToken (header_get ''Authorization'' r) = Inr raw" unfolding r by (rule bearer_header)
  have "?t \<in> set (db_api_tokens (sv_db s))" "at_revoked ?t = None" "ParsePrefix raw = Some (at_prefix ?t)" "KindOf raw = KindAPI"
    using m(1,2) by (simp_all add: s d' tok(2) new_api_row_def)
  from current_key_principal [OF ok' calls b this(4,1,2,3) h] obtain t' u where
    t': "t' \<in> set (db_api_tokens (sv_db s))" "verifySHA256 (cw_sha w) raw (at_hash t')"
      "u \<in> set (db_users (sv_db s))" "us_id u = at_user t'"
    and auth: "authenticateRequest (cw_sha w) argon slots (TokenLookupFromDB e) cx r s =
       Inr (ContextWithAdmin cx (at_id t') (us_id u) (us_is_admin u))"
    by blast
  have "t' = ?t" using t'(1,2) new by (auto simp: s d')
  moreover have "cw_uuid w \<notin> us_id ` set (db_users d)" using schema_okD(5) [OF ok'] by (simp add: s d')
  then have "us_is_admin u"
    using t'(3,4) \<open>t' = ?t\<close> by (force simp: s d' new_api_row_def)
  ultimately show ?thesis using auth t'(4) by (simp add: new_api_row_def)
qed

text \<open>
  C32: A revoked key is out: after \<open>server token revoke\<close> succeeds, or when its statement took effect without
  an answer, no request is authenticated with that key, and every other key is as before.
\<close>

theorem revoked_key_refused:
  assumes "schema_ok d" and run: "serverTokenRevoke w arg d = (d', res)" and kid: "cw_parse_uuid w arg = Some kid"
    and took: "res = Inr () \<or> d' \<noteq> d" and s: "sv_db s = d'"
  shows "(\<forall>cx'. authenticateRequest sha argon slots (TokenLookupFromDB e) cx r s = Inr cx' \<longrightarrow>
            TokenIDFromContext cx' \<noteq> kid) \<and>
     filter (\<lambda>t. at_id t \<noteq> kid) (db_api_tokens d') = filter (\<lambda>t. at_id t \<noteq> kid) (db_api_tokens d)"
proof -
  let ?upd = "sql_revoke_api_token (e_time (cw_env w) CmExec) kid d"
  have d': "d' = ?upd"
  proof (cases "load_config w")
    case (Inl err)
    then show ?thesis using run took by (simp add: serverTokenRevoke_def with_database_def)
  next
    case (Inr cfg)
    show ?thesis
    proof (cases "cw_connect w \<and> e_out (cw_env w) CmExec \<noteq> Fail")
      case True
      with Inr run kid show ?thesis
        by (cases "e_out (cw_env w) CmExec")
           (simp_all add: serverTokenRevoke_def with_database_def pool_exec_def)
    next
      case False
      with Inr run took kid show ?thesis
        by (cases "cw_connect w") (simp_all add: serverTokenRevoke_def with_database_def pool_exec_def)
    qed
  qed
  have "at_id t \<noteq> kid" if "t \<in> set (db_api_tokens d')" "at_revoked t = None" for t
  proof -
    obtain t0 where "t = (if live_key kid t0 then t0\<lparr>at_revoked := Some (e_time (cw_env w) CmExec)\<rparr> else t0)"
      using \<open>t \<in> set (db_api_tokens d')\<close> unfolding d' sql_revoke_api_token_def
      by (auto simp: in_set_update_where simp del: split_paired_Ex)
    with \<open>at_revoked t = None\<close> show ?thesis by (auto simp: live_key_def split: if_splits)
  qed
  then have "TokenIDFromContext cx' \<noteq> kid"
    if "authenticateRequest sha argon slots (TokenLookupFromDB e) cx r s = Inr cx'" for cx'
    using authenticated_principal [OF that] s by metis
  moreover have "filter (\<lambda>t. at_id t \<noteq> kid) (db_api_tokens ?upd) = filter (\<lambda>t. at_id t \<noteq> kid) (db_api_tokens d)"
    unfolding sql_revoke_api_token_def by (simp, rule filter_update_where) (simp add: live_key_def)
  ultimately show ?thesis using d' by blast
qed


text \<open>A sample world: only the URL of the database is set, everything works.\<close>

definition sample_cli :: cli_world where
  "sample_cli =
     \<lparr>cw_frac = (\<lambda>_ _ _. 0), cw_getenv = (\<lambda>k. if k = ''DATABASE_URL'' then ''postgres://db'' else ''''),
      cw_migrate = \<lparr>ml_source = True, ml_open = (\<lambda>_. True), ml_up = MigrateNoChange, ml_down = MigrateDone,
                    ml_close_source = True, ml_close_database = True\<rparr>,
      cw_connect = True, cw_env = calm 0, cw_sha = sample_sha, cw_draw = (\<lambda>_. Some 2), cw_uuid = ''u9'',
      cw_token_uuid = ''k9'', cw_parse_uuid = Some\<rparr>"

theorem init_key_authenticates_witness:
  "\<exists>d' raw. authenticateRequest sample_sha (\<lambda>_ _ _ _ _ _. []) (\<lambda>_. SlotWaitExpired) (TokenLookupFromDB (calm 1)) background
     (sample_request (''Bearer '' @ raw)) (fresh_srv d') = Inr (ContextWithAdmin background ''k9'' ''u9'' True)"
proof -
  let ?run = "serverInit sample_cli False False '''' ''admin@hatchway.local'' ''admin'' empty_db"
  have "case snd ?run of Inr _ \<Rightarrow> True | Inl _ \<Rightarrow> False" by code_simp
  then obtain raw where run: "?run = (fst ?run, Inr raw)" by (cases ?run) (auto split: sum.splits)
  have hd: "header_get ''Authorization'' (sample_request (''Bearer '' @ raw)) = ''Bearer '' @ raw"
    by (simp add: header_get_def sample_request_def)
  have "authenticateRequest (cw_sha sample_cli) (\<lambda>_ _ _ _ _ _. []) (\<lambda>_. SlotWaitExpired) (TokenLookupFromDB (calm 1)) background
     (sample_request (''Bearer '' @ raw)) (fresh_srv (fst ?run)) =
     Inr (ContextWithAdmin background (cw_token_uuid sample_cli) (cw_uuid sample_cli) True)"
    by (rule init_key_authenticates [OF schema_ok_empty run _ _ _ _ hd])
       (simp_all add: sample_cli_def empty_db_def)
  then show ?thesis by (auto simp: sample_cli_def)
qed

theorem revoked_key_refused_witness:
  "\<not> (\<exists>slots r cx'. authenticateRequest sample_sha (\<lambda>_ _ _ _ _ _. []) slots (TokenLookupFromDB (calm 1)) background r
     (fresh_srv (fst (serverTokenRevoke sample_cli ''k1'' (sample_db Active 9)))) = Inr cx' \<and> TokenIDFromContext cx' = ''k1'')"
proof -
  let ?run = "serverTokenRevoke sample_cli ''k1'' (sample_db Active 9)"
  have res: "snd ?run = Inr ()" by code_simp
  have k: "cw_parse_uuid sample_cli ''k1'' = Some ''k1''" by (simp add: sample_cli_def)
  show ?thesis
    using revoked_key_refused [OF schema_ok_sample prod.collapse [symmetric] k disjI1 [OF res],
        of "fresh_srv (fst ?run)"] by auto
qed

end
