(* ===== verification/Authorize.thy ===== *)
theory Authorize
  imports Config ServerState
begin

text \<open>
  The gate that the reverse proxy asks before it forwards a request to a tunnel
  (\<open>internal/server/plugin/authorize.go\<close>): the tunnel named by a \<open>Host\<close> header and the check of
  its row against the database clock.  \<open>ul\<close> is \<open>strings.ToLower\<close> outside ASCII; the path value
  \<open>{secret}\<close>, which \<open>http.ServeMux\<close> extracts, is an argument.
\<close>

subsection \<open>Hosts\<close>

definition canonicalRequestHost :: "(string \<Rightarrow> string) \<Rightarrow> string \<Rightarrow> string option" where
  "canonicalRequestHost ul rawHost =
     (let finish = (\<lambda>host. let h = to_lower ul (trim_suffix ''.'' host)
                           in if h = '''' \<or> contains_any h [CHR ''/'', CHR ''@'', CHR '' '', CHR 0x09, CHR 0x0D, CHR 0x0A]
                              then None else Some h)
      in if rawHost = '''' \<or> trim_space rawHost \<noteq> rawHost then None
         else if CHR '':'' \<in> set rawHost then
           (case split_host_port rawHost of
              None \<Rightarrow> None
            | Some (host, port) \<Rightarrow>
                (case parse_uint 16 port of
                   None \<Rightarrow> None
                 | Some n \<Rightarrow> if n = 0 then None else finish host))
         else finish rawHost)"

definition tunnel_label_char :: "nat \<Rightarrow> nat \<Rightarrow> char \<Rightarrow> bool" where
  "tunnel_label_char len i c \<longleftrightarrow> is_lower c \<or> is_digit c \<or> (c = CHR ''-'' \<and> 0 < i \<and> i < len - 1)"

definition tunnelIDFromHost :: "(string \<Rightarrow> string) \<Rightarrow> string \<Rightarrow> string \<Rightarrow> string option" where
  "tunnelIDFromHost ul rawHost rawDomain =
     (case canonicalRequestHost ul rawHost of
        None \<Rightarrow> None
      | Some host \<Rightarrow>
          (let domain = to_lower ul (trim_suffix ''.'' rawDomain)
           in if domain = '''' \<or> contains_any domain [CHR ''/'', CHR '':'', CHR ''@'', CHR '' '', CHR 0x09, CHR 0x0D, CHR 0x0A]
              then None
              else (let sfx = ''.'' @ domain
                    in if \<not> suffix sfx host then None
                       else (let tid = trim_suffix sfx host
                             in if length tid < 3 \<or> 63 < length tid \<or> \<not> prefix ''t-'' tid then None
                                else if list_all (\<lambda>(i, c). tunnel_label_char (length tid) i c) (zip [0..<length tid] tid)
                                then Some tid else None))))"

subsection \<open>The check\<close>

definition constantTimeEqual :: "string \<Rightarrow> string \<Rightarrow> bool" where
  "constantTimeEqual left right = (if length left \<noteq> length right then False else left = right)"

text \<open>\<open>COALESCE(status IN ('active','closed') AND expires_at > now(), false)\<close>\<close>

definition accepts :: "time \<Rightarrow> tunnel_row \<Rightarrow> bool" where
  "accepts now r \<longleftrightarrow> tn_status r \<in> {Active, Closed} \<and> null_gt (tn_expires r) now"

datatype 'a query = QueryFailed | QueryNoRows | QueryRow 'a

definition tunnelAcceptsTraffic :: "env \<Rightarrow> string \<Rightarrow> db \<Rightarrow> bool query" where
  "tunnelAcceptsTraffic e tid d =
     (if \<not> ok e PlGate then QueryFailed
      else (case find_tunnel tid d of
              None \<Rightarrow> QueryNoRows
            | Some r \<Rightarrow> QueryRow (accepts (e_time e PlGate) r)))"

definition TunnelHostHeader :: string where "TunnelHostHeader = ''X-Hatchway-Tunnel-Host''"

definition TunnelAuthorizationHandler ::
  "(string \<Rightarrow> string) \<Rightarrow> env \<Rightarrow> db option \<Rightarrow> config \<Rightarrow> string \<Rightarrow> request \<Rightarrow> wop list" where
  "TunnelAuthorizationHandler ul e pool cfg secret r =
     SetHeader ''Cache-Control'' ''no-store'' #
     (if rq_method r \<noteq> ''GET'' then [WriteHeader 405]
      else if PluginSecret cfg = '''' \<or> \<not> constantTimeEqual secret (PluginSecret cfg) then [WriteHeader 403]
      else if length (header_values TunnelHostHeader r) \<noteq> 1 then [WriteHeader 403]
      else (case tunnelIDFromHost ul (hd (header_values TunnelHostHeader r)) (TunnelDomain cfg) of
              None \<Rightarrow> [WriteHeader 403]
            | Some tid \<Rightarrow>
                (case pool of
                   None \<Rightarrow> [WriteHeader 503]
                 | Some d \<Rightarrow>
                     (case tunnelAcceptsTraffic e tid d of
                        QueryNoRows \<Rightarrow> [WriteHeader 403]
                      | QueryFailed \<Rightarrow> [WriteHeader 503]
                      | QueryRow allowed \<Rightarrow> if \<not> allowed then [WriteHeader 403] else [WriteHeader 204]))))"

subsection \<open>Lemmas\<close>

lemma constantTimeEqual_iff [simp]: "constantTimeEqual a b \<longleftrightarrow> a = b"
  by (auto simp: constantTimeEqual_def)

lemma gate_status:
  "rs_status (render (TunnelAuthorizationHandler ul e pool cfg secret r)) =
     (if rq_method r \<noteq> ''GET'' then 405
      else if PluginSecret cfg = '''' \<or> secret \<noteq> PluginSecret cfg then 403
      else if length (header_values TunnelHostHeader r) \<noteq> 1 then 403
      else (case tunnelIDFromHost ul (hd (header_values TunnelHostHeader r)) (TunnelDomain cfg) of
              None \<Rightarrow> 403
            | Some tid \<Rightarrow>
                (case pool of None \<Rightarrow> 503
                 | Some d \<Rightarrow> (case tunnelAcceptsTraffic e tid d of
                       QueryNoRows \<Rightarrow> 403 | QueryFailed \<Rightarrow> 503
                     | QueryRow allowed \<Rightarrow> if allowed then 204 else 403))))"
  by (simp add: TunnelAuthorizationHandler_def render_simps split: option.split query.split)

text \<open>What a label accepted as a tunnel identifier looks like.\<close>

lemma tunnelIDFromHost_label:
  assumes "tunnelIDFromHost ul h dm = Some tid"
  shows "3 \<le> length tid \<and> length tid \<le> 63 \<and> prefix ''t-'' tid \<and>
     (\<forall>c \<in> set tid. is_lower c \<or> is_digit c \<or> c = CHR ''-'') \<and> last tid \<noteq> CHR ''-''"
proof -
  have l: "3 \<le> length tid" "length tid \<le> 63" "prefix ''t-'' tid"
    and a: "list_all (\<lambda>(i, c). tunnel_label_char (length tid) i c) (zip [0..<length tid] tid)"
    using assms
    by (auto simp: tunnelIDFromHost_def Let_def not_less split: option.splits if_splits)
  have each: "tunnel_label_char (length tid) i (tid ! i)" if "i < length tid" for i
    using a that by (auto simp: list_all_length)
  have "\<forall>c \<in> set tid. is_lower c \<or> is_digit c \<or> c = CHR ''-''"
    using each by (fastforce simp: in_set_conv_nth tunnel_label_char_def)
  moreover have "last tid \<noteq> CHR ''-''"
  proof
    assume "last tid = CHR ''-''"
    with l(1) have "tid ! (length tid - 1) = CHR ''-''" by (metis last_conv_nth list.size(3) not_numeral_le_zero)
    moreover have "length tid - 1 < length tid" using l(1) by linarith
    ultimately show False
      using each [of "length tid - 1"] by (simp add: tunnel_label_char_def is_lower_def is_digit_def in_range_def)
  qed
  ultimately show ?thesis using l by blast
qed

lemma is_lower_lower_char: "is_upper c \<Longrightarrow> is_lower (lower_char c)"
  unfolding is_lower_def in_range_def byte_lower_char by (simp add: is_upper_def in_range_def)

lemma plain_ascii:
  assumes "\<forall>c \<in> set s. is_lower c \<or> is_upper c \<or> is_digit c \<or> c = CHR ''-'' \<or> c = CHR ''.''"
  shows "list_all is_ascii s" "\<not> contains_any s [CHR ''/'', CHR '':'', CHR ''@'', CHR '' '', CHR 0x09, CHR 0x0D, CHR 0x0A]"
    "list_all (\<lambda>c. \<not> is_space_ascii c) s" "CHR '':'' \<notin> set s" "CHR ''['' \<notin> set s" "CHR '']'' \<notin> set s"
proof -
  let ?bad = "{CHR ''/'', CHR '':'', CHR ''@'', CHR '' '', CHR 0x09, CHR 0x0D, CHR 0x0A, CHR ''['', CHR '']''}"
  have all: "is_ascii c \<and> \<not> is_space_ascii c \<and> c \<notin> ?bad" if "c \<in> set s" for c
    using that assms by (auto simp: char_class_defs is_ascii_def is_space_ascii_def)
  then show "list_all is_ascii s" "list_all (\<lambda>c. \<not> is_space_ascii c) s" by (simp_all add: list_all_iff)
  have no: "x \<notin> set s" if "x \<in> ?bad" for x
  proof
    assume "x \<in> set s"
    from all [OF this] have "x \<notin> ?bad" by (elim conjE)
    with that show False by (rule notE [rotated])
  qed
  show "CHR '':'' \<notin> set s" "CHR ''['' \<notin> set s" "CHR '']'' \<notin> set s" by (rule no, simp)+
  have "list_all (\<lambda>x. x \<notin> set s) [CHR ''/'', CHR '':'', CHR ''@'', CHR '' '', CHR 0x09, CHR 0x0D, CHR 0x0A]"
    by (simp add: no)
  then show "\<not> contains_any s [CHR ''/'', CHR '':'', CHR ''@'', CHR '' '', CHR 0x09, CHR 0x0D, CHR 0x0A]"
    unfolding contains_any_def list_ex_iff list_all_iff by blast
qed

text \<open>The shape of a host that resolves to a tunnel: any case, an optional final dot and port.\<close>

definition host_text :: "string \<Rightarrow> bool \<Rightarrow> string option \<Rightarrow> string" where
  "host_text h dot port = h @ (if dot then ''.'' else '''') @ (case port of None \<Rightarrow> '''' | Some p \<Rightarrow> '':'' @ p)"

definition port_ok :: "string option \<Rightarrow> bool" where
  "port_ok port = (case port of None \<Rightarrow> True
     | Some p \<Rightarrow> (case parse_uint 16 p of None \<Rightarrow> False | Some n \<Rightarrow> n \<noteq> 0))"

abbreviation host_char :: "char \<Rightarrow> bool" where
  "host_char c \<equiv> is_lower c \<or> is_upper c \<or> is_digit c \<or> c = CHR ''-'' \<or> c = CHR ''.''"

lemma port_digits: "parse_uint 16 p = Some n \<Longrightarrow> p \<noteq> [] \<and> (\<forall>c \<in> set p. is_digit c)"
  by (auto simp: parse_uint_def list_all_iff split: if_splits)

lemma canonical_host_text:
  assumes h: "\<forall>c \<in> set h. host_char c" "h \<noteq> []" "last h \<noteq> CHR ''.''" and p: "port_ok port"
  shows "canonicalRequestHost ul (host_text h dot port) = Some (map lower_char h)"
proof -
  let ?h = "h @ (if dot then ''.'' else '''')"
  have hc: "\<forall>c \<in> set ?h. host_char c" using h(1) by auto
  have trim: "trim_suffix ''.'' ?h = h"
    using h(3) trim_suffix_append [of "''.''" h] by (cases dot) (auto simp: trim_suffix_def suffix_def)
  note pl = plain_ascii [OF h(1)] plain_ascii [OF hc]
  have lh: "to_lower ul h = map lower_char h" by (rule to_lower_ascii) (rule pl(1))
  have plain: "\<not> contains_any (map lower_char h) [CHR ''/'', CHR ''@'', CHR '' '', CHR 0x09, CHR 0x0D, CHR 0x0A]"
  proof -
    have "\<forall>c \<in> set (map lower_char h). host_char c"
      using h(1) lower_char_lower is_digit_not_upper
      by (auto simp: is_lower_def is_upper_def is_digit_def in_range_def byte_lower_char)
    from plain_ascii(2) [OF this] show ?thesis by (auto simp: contains_any_def list_ex_iff)
  qed
  have trimmed: "trim_space (host_text h dot port) = host_text h dot port"
  proof (rule trim_space_id)
    have ends: "hd (host_text h dot port) \<in> set h" using h(2) by (cases h) (auto simp: host_text_def)
    have lst: "last (host_text h dot port) \<in> set ?h \<or> is_digit (last (host_text h dot port))"
    proof (cases port)
      case (Some p')
      with p obtain n where "parse_uint 16 p' = Some n" by (auto simp: port_ok_def split: option.splits)
      from port_digits [OF this] Some show ?thesis by (simp add: host_text_def)
    next
      case None
      then show ?thesis using h(2) last_in_set [of ?h] by (simp add: host_text_def)
    qed
    show "host_text h dot port \<noteq> []" using h(2) by (simp add: host_text_def)
    show "is_ascii (hd (host_text h dot port))" "\<not> is_space_ascii (hd (host_text h dot port))"
      using ends pl(1,3) by (auto simp: list_all_iff)
    show "is_ascii (last (host_text h dot port))" "\<not> is_space_ascii (last (host_text h dot port))"
      using lst pl(7,9) by (auto simp: list_all_iff char_class_defs is_ascii_def is_space_ascii_def)
  qed
  show ?thesis
  proof (cases port)
    case None
    then have "CHR '':'' \<notin> set (host_text h dot port)" using pl(10) by (simp add: host_text_def)
    then show ?thesis
      using trimmed trim lh plain h(2) None by (auto simp: canonicalRequestHost_def Let_def host_text_def)
  next
    case (Some p')
    with p obtain n where n: "parse_uint 16 p' = Some n" "n \<noteq> 0" by (auto simp: port_ok_def split: option.splits)
    have np: "CHR '':'' \<notin> set p'" "CHR ''['' \<notin> set p'" "CHR '']'' \<notin> set p'"
      using port_digits [OF n(1)] by (auto simp: is_digit_def in_range_def)
    have "split_host_port (?h @ CHR '':'' # p') = Some (?h, p')"
      by (rule split_host_port_plain) (use pl(10-12) np in simp_all)
    then have "split_host_port (host_text h dot port) = Some (?h, p')" by (simp add: host_text_def Some)
    moreover have "CHR '':'' \<in> set (host_text h dot port)" by (simp add: host_text_def Some)
    ultimately show ?thesis
      using trimmed trim lh plain h(2) n by (auto simp: canonicalRequestHost_def Let_def)
  qed
qed

lemma hostname_chars:
  assumes "validHostname d"
  shows "\<forall>c \<in> set d. host_char c" "d \<noteq> []" "last d \<noteq> CHR ''.''"
proof -
  have labels: "\<forall>w \<in> set (split_char CHR ''.'' d). valid_label w" and ne: "d \<noteq> []"
    using assms by (auto simp: validHostname_def list_all_iff)
  have chars: "ws \<noteq> [] \<Longrightarrow> \<forall>w \<in> set ws. valid_label w \<Longrightarrow>
      (\<forall>c \<in> set (join_with ''.'' ws). host_char c) \<and> last (join_with ''.'' ws) \<noteq> CHR ''.'' \<and> join_with ''.'' ws \<noteq> []" for ws
  proof (induction ws)
    case (Cons w ws)
    have w: "w \<noteq> []" "\<forall>c \<in> set w. label_char c" using Cons.prems(2) by (auto simp: valid_label_def list_all_iff)
    then have "label_char (last w)" by simp
    then have "last w \<noteq> CHR ''.''" by (auto simp: label_char_def char_class_defs)
    with w Cons show ?case
      by (cases "ws = []") (auto simp: join_with_Cons label_char_def)
  qed simp
  from chars [OF split_char_nonempty labels] show "\<forall>c \<in> set d. host_char c" "last d \<noteq> CHR ''.''"
    by (simp_all add: join_split)
  show "d \<noteq> []" by (rule ne)
qed

subsection \<open>Properties\<close>

text \<open>
  C7: The gate lets a request through exactly when it should: a GET with the configured secret and a
  single tunnel host header that names a tunnel whose row exists, is active or closed, and has
  not elapsed by the database clock, the query having succeeded.
\<close>

theorem gate_exact:
  "rs_status (render (TunnelAuthorizationHandler ul e (Some d) cfg secret r)) = 204 \<longleftrightarrow>
     rq_method r = ''GET'' \<and> PluginSecret cfg \<noteq> '''' \<and> secret = PluginSecret cfg \<and>
     (\<exists>h tid row. header_values TunnelHostHeader r = [h] \<and>
        tunnelIDFromHost ul h (TunnelDomain cfg) = Some tid \<and> ok e PlGate \<and>
        find_tunnel tid d = Some row \<and> (tn_status row = Active \<or> tn_status row = Closed) \<and>
        (\<exists>x. tn_expires row = Some x \<and> e_time e PlGate < x))"
proof -
  have one: "length hs = Suc 0 \<longleftrightarrow> (\<exists>h. hs = [h])" for hs :: "string list" by (cases hs) auto
  show ?thesis
    unfolding gate_status
    by (auto simp: tunnelAcceptsTraffic_def accepts_def null_gt_iff one split: option.splits query.splits if_splits)
qed

lemma tunnel_id_label_chars:
  assumes "tunnel_id_shape t"
  shows "list_all (\<lambda>(i, c). tunnel_label_char (length t) i c) (zip [0..<length t] t)"
proof -
  obtain body where b: "t = ''t-'' @ body" "length body = 16" "set body \<subseteq> set crockfordAlphabet"
    using assms unfolding tunnel_id_shape_def by blast
  have "tunnel_label_char (length t) i (t ! i)" if i: "i < length t" for i
  proof (cases "i < 2")
    case True
    then have "i = 0 \<or> i = 1" by auto
    then show ?thesis using b(1,2) by (auto simp: tunnel_label_char_def is_lower_def in_range_def)
  next
    case False
    then have "t ! i \<in> set body" using i b(1) by (simp add: nth_append)
    then show ?thesis using b(3) crockford_chars by (auto simp: tunnel_label_char_def)
  qed
  then show ?thesis by (auto simp: list_all_length)
qed

text \<open>The characters of a host name are kept by, and recovered from, its lower-case form.\<close>

lemma host_char_lower: "host_char (lower_char c) \<longleftrightarrow> host_char c"
  by (cases "is_upper c") (auto simp: lower_char_lower is_lower_lower_char)

lemma lower_host_last:
  assumes "host_char c" "c \<noteq> CHR ''.''"
  shows "lower_char c \<noteq> CHR ''.''"
  using assms is_lower_lower_char [of c]
  by (cases "is_upper c") (auto simp: lower_char_lower is_lower_def in_range_def)

lemma public_host_chars:
  assumes "validHostname dm" and "tunnel_id_shape t" and "map lower_char h = t @ ''.'' @ map lower_char dm"
  shows "\<forall>c \<in> set h. host_char c" and "h \<noteq> []" and "last h \<noteq> CHR ''.''"
proof -
  note d = hostname_chars [OF assms(1)]
  show "\<forall>c \<in> set h. host_char c"
  proof
    fix c assume "c \<in> set h"
    then have "lower_char c \<in> set (t @ ''.'' @ map lower_char dm)" unfolding assms(3) [symmetric] by simp
    then have "lower_char c \<in> set t \<or> lower_char c = CHR ''.'' \<or> lower_char c \<in> lower_char ` set dm" by (simp add: disj_ac)
    then have "host_char (lower_char c)"
    proof (elim disjE imageE)
      show "host_char (lower_char c)" if "lower_char c \<in> set t" using tunnel_id_chars [OF assms(2) that] by blast
      show "host_char (lower_char c)" if "lower_char c = lower_char x" "x \<in> set dm" for x
        using d(1) that by (simp add: host_char_lower)
    qed simp
    then show "host_char c" by (simp add: host_char_lower)
  qed
  show ne: "h \<noteq> []" using assms(3) by auto
  have "last (map lower_char h) = lower_char (last dm)" unfolding assms(3) using d(2) by (simp add: last_map)
  then have "lower_char (last h) = lower_char (last dm)" using ne by (simp add: last_map)
  moreover have "lower_char (last dm) \<noteq> CHR ''.''"
    by (rule lower_host_last) (use d last_in_set [OF d(2)] in blast)+
  moreover have "lower_char CHR ''.'' = CHR ''.''" by code_simp
  ultimately show "last h \<noteq> CHR ''.''" by auto
qed

text \<open>
  C8: The gate recognises every announced host: for a generated tunnel identifier and a validated
  tunnel domain, the host of the public URL in any mixture of cases, with or without a final dot
  and with or without a valid port, resolves to that identifier.
\<close>

theorem public_host_resolves:
  assumes "validHostname dm" and "tunnel_id_shape t"
    and "map lower_char h = t @ ''.'' @ map lower_char dm" and "port_ok port"
  shows "tunnelIDFromHost ul (host_text h dot port) dm = Some t"
proof -
  note d = hostname_chars [OF assms(1)]
  note canon = canonical_host_text [OF public_host_chars [OF assms(1-3)] assms(4)]
  have md: "\<forall>c \<in> set (map lower_char dm). host_char c" using d(1) by (simp add: host_char_lower)
  have tr: "trim_suffix ''.'' dm = dm" by (rule trim_suffix_other) (use d(2,3) in \<open>auto simp: suffix_def\<close>)
  have low: "to_lower ul dm = map lower_char dm" by (rule to_lower_ascii) (rule plain_ascii(1) [OF d(1)])
  have sfx: "suffix (''.'' @ map lower_char dm) (map lower_char h)" unfolding assms(3) by (simp add: suffix_def)
  have cut: "trim_suffix (''.'' @ map lower_char dm) (map lower_char h) = t" unfolding assms(3) by (rule trim_suffix_append)
  have "prefix ''t-'' t" "length t = 18"
    using assms(2) tunnel_id_length [OF assms(2)] by (auto simp: tunnel_id_shape_def)
  then show ?thesis
    unfolding tunnelIDFromHost_def canon option.case Let_def tr low
    using plain_ascii(2) [OF md] sfx cut tunnel_id_label_chars [OF assms(2)] d(2) by simp
qed

theorem public_host_resolves_witness:
  "tunnelIDFromHost id ''T-aaaabbbbccccdddd.Tunnel.example.com.:443'' ''tunnel.example.com'' = Some ''t-aaaabbbbccccdddd''"
proof -
  have "tunnelIDFromHost id (host_text ''T-aaaabbbbccccdddd.Tunnel.example.com'' True (Some ''443'')) ''tunnel.example.com'' =
      Some ''t-aaaabbbbccccdddd''"
  proof (rule public_host_resolves)
    show "validHostname ''tunnel.example.com''" by (rule sample_hosts)
    show "tunnel_id_shape ''t-aaaabbbbccccdddd''"
      unfolding tunnel_id_shape_def by (intro exI [of _ "''aaaabbbbccccdddd''"]) (simp add: crockfordAlphabet_def)
    show "map lower_char ''T-aaaabbbbccccdddd.Tunnel.example.com'' =
        ''t-aaaabbbbccccdddd'' @ ''.'' @ map lower_char ''tunnel.example.com''" by code_simp
    show "port_ok (Some ''443'')" by (simp add: port_ok_def parse_uint_def dec_value_def is_digit_def in_range_def)
  qed
  then show ?thesis by (simp add: host_text_def)
qed

end
