(* ===== verification/Plugin.thy ===== *)
theory Plugin
  imports Lifecycle Auth Authorize JsonParse GoUrl
begin

text \<open>
  The callbacks of the frps HTTP plugin (\<open>internal/server/plugin/handler.go\<close>): the envelope, the
  operations and the runtime-token lookup.  \<open>transitionFn\<close>, the callback through which the handler
  reaches the tunnel lifecycle, is an argument, as in the code; the locale \<open>transition_provider\<close>
  states what the handler needs of it and is interpreted with \<open>Lifecycle.Transition\<close>.  \<open>late\<close>
  tells of a failed query whether it failed with \<open>context.DeadlineExceeded\<close>, \<open>expired\<close> whether the
  deadline has passed when the handler is done.
\<close>

subsection \<open>Envelopes\<close>

definition plugin_request_fields :: gostruct where
  "plugin_request_fields = [(''version'', FStr ''''), (''op'', FStr ''''), (''content'', FRaw None)]"

record plugin_response =
  pr_reject :: bool
  pr_reason :: string
  pr_unchange :: bool

definition reject :: "string \<Rightarrow> plugin_response" where
  "reject reason = \<lparr>pr_reject = True, pr_reason = reason, pr_unchange = False\<rparr>"

definition allowUnchange :: plugin_response where
  "allowUnchange = \<lparr>pr_reject = False, pr_reason = '''', pr_unchange = True\<rparr>"

definition plugin_json :: "plugin_response \<Rightarrow> json" where
  "plugin_json p =
     JObj ([(''reject'', JBool (pr_reject p))] @
           (if pr_reason p = '''' then [] else [(''reject_reason'', JStr (pr_reason p))]) @
           (if pr_unchange p then [(''unchange'', JBool True)] else []))"

definition writePluginResponse :: "plugin_response \<Rightarrow> wop list" where
  "writePluginResponse p =
     [SetHeader ''Content-Type'' ''application/json'', WriteBody (json_text (plugin_json p) @ ''\<newline>'')]"

definition login_fields :: gostruct where
  "login_fields =
     [(''version'', FStr ''''), (''hostname'', FStr ''''), (''os'', FStr ''''), (''arch'', FStr ''''),
      (''user'', FStr ''''), (''timestamp'', FInt 0), (''privilege_key'', FStr ''''), (''run_id'', FStr ''''),
      (''pool_count'', FInt 0), (''metas'', FMap []), (''client_address'', FStr '''')]"

definition new_proxy_user_fields :: gostruct where
  "new_proxy_user_fields = [(''user'', FStr ''''), (''metas'', FMap []), (''run_id'', FStr '''')]"

definition new_proxy_fields :: gostruct where
  "new_proxy_fields =
     [(''user'', FStruct new_proxy_user_fields), (''proxy_name'', FStr ''''), (''proxy_type'', FStr ''''),
      (''use_encryption'', FBool False), (''use_compression'', FBool False), (''bandwidth_limit'', FStr ''''),
      (''bandwidth_limit_mode'', FStr ''''), (''group'', FStr ''''), (''group_key'', FStr ''''),
      (''remote_port'', FInt 0), (''custom_domains'', FList []), (''subdomain'', FStr ''''),
      (''locations'', FList []), (''http_user'', FStr ''''), (''http_pwd'', FStr ''''),
      (''host_header_rewrite'', FStr ''''), (''headers'', FMap []), (''sk'', FStr ''''),
      (''multiplexer'', FStr ''''), (''metas'', FMap [])]"

definition close_proxy_fields :: gostruct where
  "close_proxy_fields = [(''user'', FStruct new_proxy_user_fields), (''proxy_name'', FStr '''')]"

definition new_user_conn_fields :: gostruct where
  "new_user_conn_fields =
     [(''user'', FStruct new_proxy_user_fields), (''proxy_name'', FStr ''''), (''proxy_type'', FStr ''''),
      (''remote_addr'', FStr '''')]"

subsection \<open>The runtime-token lookup\<close>

record token_info =
  ti_token_id :: string
  ti_tunnel_id :: string

record rt_candidate =
  rc_token_id :: string
  rc_tunnel_id :: string
  rc_hash :: string

datatype rt_error = RtTooShort | RtQuery bool | RtVerify verify_err | RtNoMatch

definition rt_usable :: "time \<Rightarrow> db \<Rightarrow> rt_row \<Rightarrow> bool" where
  "rt_usable now d t \<longleftrightarrow>
     rt_revoked t = None \<and> now < rt_expires t \<and>
     (case find_tunnel (rt_tunnel t) d of
        None \<Rightarrow> False
      | Some r \<Rightarrow> null_gt (tn_expires r) now \<and> non_terminal (tn_status r))"

definition sql_rt_candidates :: "time \<Rightarrow> string \<Rightarrow> db \<Rightarrow> rt_candidate list" where
  "sql_rt_candidates now pre d =
     map (\<lambda>t. \<lparr>rc_token_id = rt_id t, rc_tunnel_id = rt_tunnel t, rc_hash = rt_hash t\<rparr>)
       (sort_key (\<lambda>t. (\<not> prefix ''sha256:'' (rt_hash t), - rt_created t, rt_id t))
         (filter (\<lambda>t. rt_prefix t = pre \<and> rt_usable now d t) (db_rt_tokens d)))"

definition lookupRuntimeToken ::
  "sha_fun \<Rightarrow> argon_fun \<Rightarrow> (string \<Rightarrow> slot_event) \<Rightarrow> env \<Rightarrow> (call \<Rightarrow> bool) \<Rightarrow> string \<Rightarrow> db \<Rightarrow> rt_error + token_info" where
  "lookupRuntimeToken sha argon slots e late raw d =
     (case ParsePrefix raw of
        None \<Rightarrow> Inl RtTooShort
      | Some pre \<Rightarrow>
          (let cs = sql_rt_candidates (e_time e PlQuery) pre d
           in if \<not> ok e PlQuery then Inl (RtQuery (late PlQuery))
              else if cs \<noteq> [] \<and> \<not> ok e PlScan then Inl (RtQuery (late PlScan))
              else if \<not> ok e PlIter then Inl (RtQuery (late PlIter))
              else (case scan_candidates rc_hash (\<lambda>h. VerifyTokenContext sha argon (slots h) raw h) cs of
                      Inl err \<Rightarrow> Inl (RtVerify err)
                    | Inr (Some c) \<Rightarrow> Inr \<lparr>ti_token_id = rc_token_id c, ti_tunnel_id = rc_tunnel_id c\<rparr>
                    | Inr None \<Rightarrow> Inl RtNoMatch)))"

fun runtimeTokenRejectReason :: "rt_error \<Rightarrow> string" where
  "runtimeTokenRejectReason (RtVerify LegacyVerificationBusy) = ''authentication temporarily unavailable''"
| "runtimeTokenRejectReason (RtVerify (VerifyCtx DeadlineExceeded)) = ''authentication temporarily unavailable''"
| "runtimeTokenRejectReason (RtQuery True) = ''authentication temporarily unavailable''"
| "runtimeTokenRejectReason _ = ''invalid credentials''"

subsection \<open>The operations\<close>

text \<open>A transition callback: tunnel and event name in, whether it reported success out.\<close>

type_synonym transition_func = "string \<Rightarrow> string \<Rightarrow> srv \<Rightarrow> srv \<times> bool"

definition sql_count_use :: "time \<Rightarrow> string \<Rightarrow> db \<Rightarrow> db" where
  "sql_count_use now tid d =
     d\<lparr>db_rt_tokens := update_where (\<lambda>t. rt_id t = tid)
         (\<lambda>t. t\<lparr>rt_last_used := Some now, rt_use_count := rt_use_count t + 1\<rparr>) (db_rt_tokens d)\<rparr>"

definition handleLogin ::
  "sha_fun \<Rightarrow> argon_fun \<Rightarrow> (string \<Rightarrow> slot_event) \<Rightarrow> env \<Rightarrow> (call \<Rightarrow> bool) \<Rightarrow> jval option \<Rightarrow> srv \<Rightarrow> srv \<times> plugin_response" where
  "handleLogin sha argon slots e late content s =
     (case unmarshal_raw login_fields content of
        None \<Rightarrow> (s, reject ''invalid login content'')
      | Some login \<Rightarrow>
          (let rt = map_index (get_map ''metas'' login) ''runtime_token''
           in if rt = '''' then (s, reject ''missing runtime token'')
              else (case lookupRuntimeToken sha argon slots e late rt (sv_db s) of
                      Inl err \<Rightarrow> (s, reject (runtimeTokenRejectReason err))
                    | Inr info \<Rightarrow>
                        (on_db (\<lambda>d. fst (pool_exec e PlUsage (sql_count_use (e_time e PlUsage) (ti_token_id info)) d)) s,
                         allowUnchange))))"

definition handleNewProxy ::
  "sha_fun \<Rightarrow> argon_fun \<Rightarrow> (string \<Rightarrow> slot_event) \<Rightarrow> env \<Rightarrow> (call \<Rightarrow> bool) \<Rightarrow> transition_func \<Rightarrow> jval option \<Rightarrow>
     srv \<Rightarrow> srv \<times> plugin_response" where
  "handleNewProxy sha argon slots e late transitionFn content s =
     (case unmarshal_raw new_proxy_fields content of
        None \<Rightarrow> (s, reject ''invalid newproxy content'')
      | Some np \<Rightarrow>
          (let rt = map_index (get_map ''metas'' (get_struct ''user'' np)) ''runtime_token''
           in if rt = '''' then (s, reject ''missing runtime token'')
              else if get_str ''proxy_type'' np \<noteq> ''http'' then (s, reject ''only http proxy type supported'')
              else if get_list ''custom_domains'' np \<noteq> [] then (s, reject ''custom domains not supported'')
              else (case lookupRuntimeToken sha argon slots e late rt (sv_db s) of
                      Inl err \<Rightarrow> (s, reject (runtimeTokenRejectReason err))
                    | Inr info \<Rightarrow>
                        if get_str ''proxy_name'' np \<noteq> ti_tunnel_id info then (s, reject ''proxy name mismatch'')
                        else if get_str ''subdomain'' np \<noteq> ti_tunnel_id info then (s, reject ''subdomain mismatch'')
                        else (case transitionFn (ti_tunnel_id info) ''NewProxy'' s of
                                (s', False) \<Rightarrow> (s', reject ''transition failed'')
                              | (s', True) \<Rightarrow> (s', allowUnchange)))))"

definition handleCloseProxy :: "env \<Rightarrow> transition_func \<Rightarrow> jval option \<Rightarrow> srv \<Rightarrow> srv \<times> plugin_response" where
  "handleCloseProxy e transitionFn content s =
     (case unmarshal_raw close_proxy_fields content of
        None \<Rightarrow> (s, reject ''invalid closeproxy content'')
      | Some cp \<Rightarrow>
          (let name = get_str ''proxy_name'' cp
           in if \<not> ok e PlStatus then (s, allowUnchange)
              else (case find_tunnel name (sv_db s) of
                      None \<Rightarrow> (s, allowUnchange)
                    | Some r \<Rightarrow>
                        if tn_status r = Active then (fst (transitionFn name ''CloseProxy'' s), allowUnchange)
                        else (s, allowUnchange))))"

definition emitConnEvent :: "env \<Rightarrow> gostruct \<Rightarrow> db \<Rightarrow> db" where
  "emitConnEvent e uc d =
     fst (pool_exec e PlConn (\<lambda>d. d\<lparr>db_events := db_events d @
        [\<lparr>ev_tunnel = get_str ''proxy_name'' uc, ev_type = ''NewUserConn'',
          ev_payload = ConnReport (get_str ''proxy_type'' uc) (get_str ''remote_addr'' uc),
          ev_created = e_time e PlConn\<rparr>]\<rparr>) d)"

text \<open>
  The callback is refused too when the handler was built without a connection pool
  (\<open>has_pool\<close> false). The dispatcher passes the pool of \<open>server run\<close>, which is never nil.
\<close>

definition handleNewUserConn :: "bool \<Rightarrow> env \<Rightarrow> config \<Rightarrow> jval option \<Rightarrow> srv \<Rightarrow> srv \<times> plugin_response" where
  "handleNewUserConn has_pool e cfg content s =
     (case unmarshal_raw new_user_conn_fields content of
        None \<Rightarrow> (s, reject ''invalid new user connection content'')
      | Some uc \<Rightarrow>
          if \<not> has_pool \<or> get_str ''proxy_name'' uc = '''' then (s, reject ''tunnel unavailable'')
          else (case tunnelAcceptsTraffic e (get_str ''proxy_name'' uc) (sv_db s) of
                  QueryRow True \<Rightarrow> (if LogUserConns cfg then on_db (emitConnEvent e uc) s else s, allowUnchange)
                | _ \<Rightarrow> (s, reject ''tunnel unavailable'')))"

definition plugin_dispatch ::
  "sha_fun \<Rightarrow> argon_fun \<Rightarrow> (string \<Rightarrow> slot_event) \<Rightarrow> env \<Rightarrow> (call \<Rightarrow> bool) \<Rightarrow> config \<Rightarrow> transition_func \<Rightarrow> string \<Rightarrow>
     jval option \<Rightarrow> srv \<Rightarrow> srv \<times> plugin_response" where
  "plugin_dispatch sha argon slots e late cfg transitionFn op content s =
     (if op = ''Login'' then handleLogin sha argon slots e late content s
      else if op = ''NewProxy'' then handleNewProxy sha argon slots e late transitionFn content s
      else if op = ''CloseProxy'' then handleCloseProxy e transitionFn content s
      else if op = ''NewUserConn'' then handleNewUserConn True e cfg content s
      else if op = ''Ping'' \<or> op = ''NewWorkConn'' then (s, allowUnchange)
      else (s, reject ''unknown op''))"

definition Handler ::
  "sha_fun \<Rightarrow> argon_fun \<Rightarrow> (string \<Rightarrow> slot_event) \<Rightarrow> env \<Rightarrow> (call \<Rightarrow> bool) \<Rightarrow> bool \<Rightarrow> config \<Rightarrow> transition_func \<Rightarrow>
     (string \<Rightarrow> metrics \<Rightarrow> metrics) option \<Rightarrow> (metrics \<Rightarrow> metrics) option \<Rightarrow> string \<Rightarrow> request \<Rightarrow> srv \<Rightarrow> srv \<times> wop list" where
  "Handler sha argon slots e late expired cfg transitionFn metricsIncr deadlineMetric secret r s =
     (let refuse = (\<lambda>reason. (s, writePluginResponse (reject reason)));
          op = query_get ''op'' (rq_raw_query r);
          maxBody = (if MaxRequestBytes cfg \<le> 0 then 64 * 1024 else nat (MaxRequestBytes cfg))
      in if rq_method r \<noteq> ''POST'' then refuse ''method not allowed''
         else if PluginSecret cfg = '''' then refuse ''server misconfigured''
         else if \<not> constantTimeEqual secret (PluginSecret cfg) then refuse ''unauthorized''
         else if op = '''' then refuse ''missing op''
         else (case decode_body (decode_struct False plugin_request_fields) (r\<lparr>rq_limit := Some maxBody\<rparr>) of
                 BodyValue req \<Rightarrow>
                   (case plugin_dispatch sha argon slots e late cfg transitionFn op (get_raw ''content'' req) s of
                      (s1, resp) \<Rightarrow>
                        (let s2 = (case (expired, deadlineMetric) of
                                     (True, Some f) \<Rightarrow> s1\<lparr>sv_metrics := f (sv_metrics s1)\<rparr> | _ \<Rightarrow> s1);
                             s3 = (case metricsIncr of
                                     None \<Rightarrow> s2 | Some f \<Rightarrow> s2\<lparr>sv_metrics := f op (sv_metrics s2)\<rparr>)
                         in (s3, writePluginResponse resp)))
               | BodyInvalid \<Rightarrow> refuse ''invalid request body''
               | BodyTooBig \<Rightarrow> refuse ''invalid request body''
               | BodyTrailing \<Rightarrow> refuse ''request body must contain one JSON object''
               | BodyTrailingTooBig \<Rightarrow> refuse ''request body must contain one JSON object''))"

subsection \<open>The wiring of \<open>hatchway server run\<close>\<close>

definition event_of_text :: "string \<Rightarrow> event option" where
  "event_of_text t = List.find (\<lambda>ev. event_text ev = t) [EventNewProxy, EventCloseProxy, EventExpire, EventRevoke]"

text \<open>\<open>transitionFn\<close>: an event that is none of the four has no transition and fails.\<close>

definition transitionFn :: "env \<Rightarrow> transition_func" where
  "transitionFn e tid ev s =
     (case event_of_text ev of
        None \<Rightarrow> (s, False)
      | Some x \<Rightarrow> (case Transition e tid x s of (s', Inl _) \<Rightarrow> (s', False) | (s', Inr _) \<Rightarrow> (s', True)))"

definition pluginHandler ::
  "sha_fun \<Rightarrow> argon_fun \<Rightarrow> (string \<Rightarrow> slot_event) \<Rightarrow> env \<Rightarrow> (call \<Rightarrow> bool) \<Rightarrow> bool \<Rightarrow> config \<Rightarrow> string \<Rightarrow> request \<Rightarrow>
     srv \<Rightarrow> srv \<times> wop list" where
  "pluginHandler sha argon slots e late expired cfg =
     Handler sha argon slots e late expired cfg (transitionFn e) (Some IncrPluginOp) (Some IncrPluginDeadlineExceeded)"

subsection \<open>What the handler needs of the callback\<close>

interpretation use_upd: keyed_update rt_id "\<lambda>t. t\<lparr>rt_last_used := Some now, rt_use_count := rt_use_count t + 1\<rparr>" for now
  by unfold_locales simp

interpretation rt_scan: candidate_scan rc_hash "\<lambda>h. VerifyTokenContext sha argon (slots h) raw h"
  for sha argon slots raw
  by unfold_locales (simp add: VerifyTokenContext_current)

lemma count_use_other [simp]: "db_tunnels (sql_count_use now tid d) = db_tunnels d"
  by (simp add: sql_count_use_def)

lemma in_count_use:
  assumes "t' \<in> set (db_rt_tokens (sql_count_use now tid d))"
  obtains t where "t \<in> set (db_rt_tokens d)" "rt_tunnel t' = rt_tunnel t" "rt_revoked t' = rt_revoked t"
    "rt_use_count t \<le> rt_use_count t'"
proof -
  from assms obtain t where t: "t \<in> set (db_rt_tokens d)"
    "t' = (if rt_id t = tid then t\<lparr>rt_last_used := Some now, rt_use_count := rt_use_count t + 1\<rparr> else t)"
    by (auto simp: sql_count_use_def in_set_update_where)
  show thesis by (rule that [OF t(1)]; cases "rt_id t = tid") (simp_all add: t(2))
qed

lemma schema_count_use: "schema_ok d \<Longrightarrow> schema_ok (sql_count_use now tid d)"
proof -
  assume ok: "schema_ok d"
  have "schema_ok (d\<lparr>db_rt_tokens := db_rt_tokens (sql_count_use now tid d)\<rparr>)"
  proof (rule schema_ok_rt_tokens [OF ok])
    show "distinct (map rt_id (db_rt_tokens (sql_count_use now tid d)))"
      by (simp add: sql_count_use_def use_upd.keys_update schema_okD [OF ok])
    fix t' assume "t' \<in> set (db_rt_tokens (sql_count_use now tid d))"
    then obtain t where "t \<in> set (db_rt_tokens d)" "rt_tunnel t' = rt_tunnel t" "rt_use_count t \<le> rt_use_count t'"
      by (rule in_count_use)
    with ok show "rt_tunnel t' \<in> tn_id ` set (db_tunnels d) \<and> 0 \<le> rt_use_count t'"
      by (fastforce simp: schema_ok_def)
  qed
  then show ?thesis by (simp add: sql_count_use_def)
qed

lemma dead_count_use: "revoked_dead d \<Longrightarrow> revoked_dead (sql_count_use now tid d)"
  unfolding revoked_dead_def by (auto elim!: in_count_use)

text \<open>
  The contract of the callback: whatever it reports, it works on the database as a tunnel
  operation does, it creates no tunnel, and when it reports success for NewProxy the tunnel is
  active.
\<close>

locale transition_provider =
  fixes trans :: transition_func
  assumes trans_op: "tunnel_op (\<lambda>s. fst (trans tid ev s))"
    and trans_length: "length (db_tunnels (sv_db (fst (trans tid ev s)))) = length (db_tunnels (sv_db s))"
    and trans_active: "schema_ok (sv_db s) \<Longrightarrow> trans tid ''NewProxy'' s = (s', True) \<Longrightarrow>
      \<exists>r. find_tunnel tid (sv_db s') = Some r \<and> tn_status r = Active"
begin

lemma new_proxy_runs:
  "fst (handleNewProxy sha argon slots e late trans content s) = s \<or>
   (\<exists>tid. fst (handleNewProxy sha argon slots e late trans content s) = fst (trans tid ''NewProxy'' s))"
proof -
  have "fst (case trans t ''NewProxy'' s of (s', False) \<Rightarrow> (s', a) | (s', True) \<Rightarrow> (s', b)) = fst (trans t ''NewProxy'' s)"
    for t and a b :: plugin_response by (simp split: prod.split bool.split)
  then show ?thesis
    unfolding handleNewProxy_def Let_def by (simp split: option.split sum.split) blast
qed

lemma close_proxy_runs:
  "fst (handleCloseProxy e trans content s) = s \<or>
   (\<exists>tid. fst (handleCloseProxy e trans content s) = fst (trans tid ''CloseProxy'' s))"
  unfolding handleCloseProxy_def Let_def by (simp split: option.split) blast

lemma new_proxy_op: "tunnel_op (\<lambda>s. fst (handleNewProxy sha argon slots e late trans content s))"
  by (rule tunnel_op_choice) (use new_proxy_runs trans_op in meson)

lemma close_proxy_op: "tunnel_op (\<lambda>s. fst (handleCloseProxy e trans content s))"
  by (rule tunnel_op_choice) (use close_proxy_runs trans_op in meson)

lemma login_op: "tunnel_op (\<lambda>s. fst (handleLogin sha argon slots e late content s))"
proof -
  have use: "tunnel_op (on_db (sql_count_use now tid))" for now tid
    by (rule tunnel_op_on_db) (simp_all add: schema_count_use dead_count_use)
  have "fst (handleLogin sha argon slots e late content s) = s \<or>
      (\<exists>tid. fst (handleLogin sha argon slots e late content s) =
         on_db (sql_count_use (e_time e PlUsage) tid) s)" for s
    by (auto simp: handleLogin_def Let_def pool_exec_def split: option.splits sum.splits outcome.splits)
  then show ?thesis by (intro tunnel_op_choice) (use use in meson)
qed

lemma user_conn_runs:
  "fst (handleNewUserConn has_pool e cfg content s) = s \<or>
   (\<exists>uc. fst (handleNewUserConn has_pool e cfg content s) = on_db (emitConnEvent e uc) s)"
  unfolding handleNewUserConn_def by (simp split: option.split query.split bool.split) blast

lemma emit_conn_effect: "emitConnEvent e uc d = d \<or> (\<exists>evs. emitConnEvent e uc d = d\<lparr>db_events := db_events d @ evs\<rparr>)"
  by (auto simp: emitConnEvent_def pool_exec_def split: outcome.split)

lemma user_conn_op: "tunnel_op (\<lambda>s. fst (handleNewUserConn has_pool e cfg content s))"
proof -
  have ev: "tunnel_op (on_db (\<lambda>d. d\<lparr>db_events := db_events d @ evs\<rparr>))" for evs
    by (rule tunnel_op_on_db) (simp_all add: schema_ok_events revoked_dead_def)
  have "fst (handleNewUserConn has_pool e cfg content s) = s \<or>
      (\<exists>evs. fst (handleNewUserConn has_pool e cfg content s) = on_db (\<lambda>d. d\<lparr>db_events := db_events d @ evs\<rparr>) s)" for s
    using user_conn_runs [of has_pool e cfg content s] emit_conn_effect [of e _ "sv_db s"] by (cases s) fastforce
  then show ?thesis by (intro tunnel_op_choice) (use ev in meson)
qed

lemma dispatch_op: "tunnel_op (\<lambda>s. fst (plugin_dispatch sha argon slots e late cfg trans op content s))"
  unfolding plugin_dispatch_def
proof -
  have id: "tunnel_op (\<lambda>s. fst (s, p))" for p :: plugin_response by (simp add: tunnel_op_id)
  show "tunnel_op (\<lambda>s. fst (if op = ''Login'' then handleLogin sha argon slots e late content s
      else if op = ''NewProxy'' then handleNewProxy sha argon slots e late trans content s
      else if op = ''CloseProxy'' then handleCloseProxy e trans content s
      else if op = ''NewUserConn'' then handleNewUserConn True e cfg content s
      else if op = ''Ping'' \<or> op = ''NewWorkConn'' then (s, allowUnchange)
      else (s, reject ''unknown op'')))"
    by (rule tunnel_op_if [OF login_op tunnel_op_if [OF new_proxy_op tunnel_op_if [OF close_proxy_op
          tunnel_op_if [OF user_conn_op tunnel_op_if [OF id id]]]]])
qed

lemma handler_op: "tunnel_op (\<lambda>s. fst (Handler sha argon slots e late expired cfg trans mi dm secret r s))"
proof -
  let ?run = "\<lambda>s. fst (Handler sha argon slots e late expired cfg trans mi dm secret r s)"
  have "?run s = s \<or> (\<exists>op content m. ?run s =
      (\<lambda>s. s\<lparr>sv_metrics := m\<rparr>) (fst (plugin_dispatch sha argon slots e late cfg trans op content s)))" for s
  proof (cases "rq_method r \<noteq> ''POST'' \<or> PluginSecret cfg = '''' \<or> \<not> constantTimeEqual secret (PluginSecret cfg) \<or>
      query_get ''op'' (rq_raw_query r) = ''''")
    case True
    then show ?thesis unfolding Handler_def Let_def by fastforce
  next
    case False
    let ?body = "decode_body (decode_struct False plugin_request_fields)
      (r\<lparr>rq_limit := Some (if MaxRequestBytes cfg \<le> 0 then 64 * 1024 else nat (MaxRequestBytes cfg))\<rparr>)"
    show ?thesis
    proof (cases ?body)
      case (BodyValue req)
      obtain s1 resp where d: "plugin_dispatch sha argon slots e late cfg trans (query_get ''op'' (rq_raw_query r))
          (get_raw ''content'' req) s = (s1, resp)" by (cases "plugin_dispatch sha argon slots e late cfg trans (query_get ''op'' (rq_raw_query r)) (get_raw ''content'' req) s")
      have "\<exists>m. ?run s = s1\<lparr>sv_metrics := m\<rparr>"
        using False BodyValue d unfolding Handler_def Let_def
        by (cases expired; cases dm; cases mi) (auto intro: exI [of _ "sv_metrics s1"])
      then obtain m where "?run s = s1\<lparr>sv_metrics := m\<rparr>" by blast
      with d have "?run s = (\<lambda>s. s\<lparr>sv_metrics := m\<rparr>) (fst (plugin_dispatch sha argon slots e late cfg trans
          (query_get ''op'' (rq_raw_query r)) (get_raw ''content'' req) s))" by simp
      then show ?thesis by blast
    qed (use False in \<open>simp_all add: Handler_def Let_def\<close>)
  qed
  moreover have "tunnel_op (\<lambda>s. (\<lambda>s. s\<lparr>sv_metrics := m\<rparr>) (fst (plugin_dispatch sha argon slots e late cfg trans op content s)))"
    for op content m
    by (rule tunnel_op_comp [OF dispatch_op tunnel_op_metrics])
  ultimately show ?thesis by (intro tunnel_op_choice) meson
qed

end

lemma Transition_new_proxy_active:
  assumes "schema_ok (sv_db s)" "Transition e tid EventNewProxy s = (s', Inr u)"
  shows "\<exists>r x. find_tunnel tid (sv_db s) = Some r \<and> tn_expires r = Some x \<and> e_time e TrTTL < x \<and>
     find_tunnel tid (sv_db s') = Some (r\<lparr>tn_status := Active\<rparr>)"
proof -
  from assms(2) obtain r where r: "find_tunnel tid (sv_db s) = Some r"
    by (auto simp: Transition_def split: if_splits option.splits)
  have ttl: "\<exists>x. tn_expires r = Some x \<and> e_time e TrTTL < x"
    using assms(2) r by (auto simp: Transition_def within_ttl_def null_gt_iff split: if_splits)
  have "find_tunnel tid (sv_db s') = Some (r\<lparr>tn_status := Active\<rparr>)"
  proof (cases "tn_status r = Active")
    case True
    with assms(2) r have "s' = s"
      by (cases "e_out e TrCommit") (auto simp: Transition_def commit_simps split: if_splits)
    with True r show ?thesis by simp
  next
    case False
    with assms(2) r obtain d' where d': "transition_body e tid EventNewProxy (tn_status r) (sv_db s) = Inr d'"
        and s': "s' = count_transition (s\<lparr>sv_db := d'\<rparr>)"
      by (cases "e_out e TrCommit") (auto simp: Transition_def commit_simps split: if_splits sum.splits)
    from transition_body_InrD [OF assms(1) r d'] obtain new where "status_step (tn_status r) EventNewProxy new"
      "d' = transition_effect (e_time e TrBegin) tid EventNewProxy new (sv_db s)" by blast
    then show ?thesis
      using r find_tunnel_SomeD [OF r] by (auto simp: s' transition_effect_def find_set_status status_step_simps)
  qed
  with r ttl show ?thesis by blast
qed

lemma event_of_text_NewProxy [simp]: "event_of_text ''NewProxy'' = Some EventNewProxy"
  "event_of_text ''CloseProxy'' = Some EventCloseProxy"
  by (simp_all add: event_of_text_def)

lemma transitionFn_state:
  "fst (transitionFn e tid ev s) = (case event_of_text ev of None \<Rightarrow> s | Some x \<Rightarrow> fst (Transition e tid x s))"
  by (simp add: transitionFn_def split: option.split prod.split sum.split)

lemma transitionFn_op: "tunnel_op (\<lambda>s. fst (transitionFn e tid ev s))"
  unfolding transitionFn_state
  by (cases "event_of_text ev") (simp_all add: tunnel_op_id transition_op.tunnel_op_axioms)

lemma transitionFn_length:
  "length (db_tunnels (sv_db (fst (transitionFn e tid ev s)))) = length (db_tunnels (sv_db s))"
  by (simp add: transitionFn_state transition_length split: option.split)

lemma transitionFn_active:
  "schema_ok (sv_db s) \<Longrightarrow> transitionFn e tid ''NewProxy'' s = (s', True) \<Longrightarrow>
     \<exists>r. find_tunnel tid (sv_db s') = Some r \<and> tn_status r = Active"
  using Transition_new_proxy_active [of s e tid s']
  by (fastforce simp: transitionFn_def split: prod.splits sum.splits)

interpretation wired: transition_provider "transitionFn e" for e
  by (rule transition_provider.intro) (fact transitionFn_op transitionFn_length transitionFn_active)+

interpretation plugin_op: tunnel_op "\<lambda>s. fst (pluginHandler sha argon slots e late expired cfg secret r s)"
  for sha argon slots e late expired cfg secret r
  unfolding pluginHandler_def by (rule wired.handler_op)

subsection \<open>Properties\<close>

lemma lookupRuntimeToken_InrD:
  assumes "lookupRuntimeToken sha argon slots e late raw d = Inr info"
  shows "\<exists>t r slot. t \<in> set (db_rt_tokens d) \<and> rt_id t = ti_token_id info \<and> rt_tunnel t = ti_tunnel_id info \<and>
     rt_revoked t = None \<and> e_time e PlQuery < rt_expires t \<and> ParsePrefix raw = Some (rt_prefix t) \<and>
     VerifyTokenContext sha argon slot raw (rt_hash t) = Inr True \<and>
     find_tunnel (rt_tunnel t) d = Some r \<and> non_terminal (tn_status r) \<and> null_gt (tn_expires r) (e_time e PlQuery)"
proof -
  from assms obtain pre c where pre: "ParsePrefix raw = Some pre"
    and c: "scan_candidates rc_hash (\<lambda>h. VerifyTokenContext sha argon (slots h) raw h)
      (sql_rt_candidates (e_time e PlQuery) pre d) = Inr (Some c)"
    and info: "info = \<lparr>ti_token_id = rc_token_id c, ti_tunnel_id = rc_tunnel_id c\<rparr>"
    by (auto simp: lookupRuntimeToken_def Let_def split: option.splits if_splits sum.splits)
  from rt_scan.scan_sound [OF c] obtain t where t: "t \<in> set (db_rt_tokens d)" "rt_prefix t = pre"
      "rt_usable (e_time e PlQuery) d t"
      "c = \<lparr>rc_token_id = rt_id t, rc_tunnel_id = rt_tunnel t, rc_hash = rt_hash t\<rparr>"
    and v: "VerifyTokenContext sha argon (slots (rc_hash c)) raw (rc_hash c) = Inr True"
    by (auto simp: sql_rt_candidates_def)
  then show ?thesis
    using pre info by (auto simp: rt_usable_def split: option.splits)
qed

text \<open>
  C9: frps may route a proxy only for the holder of a live credential of that very tunnel: an
  accepted NewProxy callback is of type http without custom domains, presents a runtime token that
  verifies against an unrevoked, unexpired row, names that row's tunnel both as proxy and as
  subdomain, and leaves the tunnel active, its lifetime not elapsed when it was activated.
\<close>

theorem new_proxy_authorized:
  assumes "schema_ok (sv_db s)"
    and "handleNewProxy sha argon slots e late (transitionFn e) content s = (s', p)" and "\<not> pr_reject p"
  shows "\<exists>np t r slot x. unmarshal_raw new_proxy_fields content = Some np \<and>
     get_str ''proxy_type'' np = ''http'' \<and> get_list ''custom_domains'' np = [] \<and>
     get_str ''proxy_name'' np = rt_tunnel t \<and> get_str ''subdomain'' np = rt_tunnel t \<and>
     t \<in> set (db_rt_tokens (sv_db s)) \<and> rt_revoked t = None \<and> e_time e PlQuery < rt_expires t \<and>
     VerifyTokenContext sha argon slot
       (map_index (get_map ''metas'' (get_struct ''user'' np)) ''runtime_token'') (rt_hash t) = Inr True \<and>
     find_tunnel (rt_tunnel t) (sv_db s) = Some r \<and> non_terminal (tn_status r) \<and>
     tn_expires r = Some x \<and> e_time e TrTTL < x \<and>
     find_tunnel (rt_tunnel t) (sv_db s') = Some (r\<lparr>tn_status := Active\<rparr>)"
proof -
  obtain np where np: "unmarshal_raw new_proxy_fields content = Some np"
    using assms(2,3) by (cases "unmarshal_raw new_proxy_fields content") (auto simp: handleNewProxy_def reject_def)
  let ?rt = "map_index (get_map ''metas'' (get_struct ''user'' np)) ''runtime_token''"
  have rest: "get_str ''proxy_type'' np = ''http''" "get_list ''custom_domains'' np = []"
    using assms(2,3) np by (auto simp: handleNewProxy_def reject_def Let_def split: if_splits)
  obtain info where info: "lookupRuntimeToken sha argon slots e late ?rt (sv_db s) = Inr info"
    using assms(2,3) np
    by (cases "lookupRuntimeToken sha argon slots e late ?rt (sv_db s)")
       (auto simp: handleNewProxy_def reject_def Let_def split: if_splits)
  have names: "get_str ''proxy_name'' np = ti_tunnel_id info" "get_str ''subdomain'' np = ti_tunnel_id info"
    and tr: "transitionFn e (ti_tunnel_id info) ''NewProxy'' s = (s', True)"
    using assms(2,3) np info
    by (auto simp: handleNewProxy_def reject_def Let_def split: if_splits prod.splits bool.splits)
  from tr obtain u where "Transition e (ti_tunnel_id info) EventNewProxy s = (s', Inr u)"
    by (auto simp: transitionFn_def split: prod.splits sum.splits)
  from Transition_new_proxy_active [OF assms(1) this] obtain r x where r:
    "find_tunnel (ti_tunnel_id info) (sv_db s) = Some r" "tn_expires r = Some x" "e_time e TrTTL < x"
    "find_tunnel (ti_tunnel_id info) (sv_db s') = Some (r\<lparr>tn_status := Active\<rparr>)" by blast
  from lookupRuntimeToken_InrD [OF info] obtain t slot where
    t: "t \<in> set (db_rt_tokens (sv_db s))" "rt_tunnel t = ti_tunnel_id info" "rt_revoked t = None"
      "e_time e PlQuery < rt_expires t" "VerifyTokenContext sha argon slot ?rt (rt_hash t) = Inr True"
    and nt: "non_terminal (tn_status r)"
    using r(1) by auto
  show ?thesis
    by (intro exI [of _ np] exI [of _ t] exI [of _ r] exI [of _ slot] exI [of _ x])
       (simp add: np rest names r nt t)
qed

text \<open>A server whose tunnel \<open>t1\<close> has a credential with the current digest of a known secret.\<close>

definition plugin_sample :: "status \<Rightarrow> srv" where
  "plugin_sample st =
     (let d = sample_db st 9
      in fresh_srv (d\<lparr>db_rt_tokens := [(hd (db_rt_tokens d))\<lparr>rt_hash := HashToken sample_sha ''rt_AAAAAAAAABBB''\<rparr>]\<rparr>))"

definition new_proxy_sample :: "jval option" where
  "new_proxy_sample =
     Some (VObj [(''user'', VObj [(''metas'', VObj [(''runtime_token'', VStr ''rt_AAAAAAAAABBB'')])]),
                 (''proxy_name'', VStr ''t1''), (''proxy_type'', VStr ''http''), (''subdomain'', VStr ''t1'')])"

theorem new_proxy_authorized_witness:
  "\<exists>s' p. handleNewProxy sample_sha (\<lambda>_ _ _ _ _ _. []) (\<lambda>_. SlotWaitExpired) (calm 5) (\<lambda>_. False)
     (transitionFn (calm 5)) new_proxy_sample (plugin_sample Reserved) = (s', p) \<and> \<not> pr_reject p \<and>
     (\<exists>r. find_tunnel ''t1'' (sv_db s') = Some r \<and> tn_status r = Active)"
proof -
  let ?h = "handleNewProxy sample_sha (\<lambda>_ _ _ _ _ _. []) (\<lambda>_. SlotWaitExpired) (calm 5) (\<lambda>_. False)
     (transitionFn (calm 5)) new_proxy_sample (plugin_sample Reserved)"
  obtain s' p where h: "?h = (s', p)" by (cases ?h)
  have "\<not> pr_reject (snd ?h)" by code_simp
  then have p: "\<not> pr_reject p" unfolding h by simp
  have ok: "schema_ok (sv_db (plugin_sample Reserved))"
    by (simp add: plugin_sample_def Let_def schema_ok_def sample_db_def)
  from new_proxy_authorized [OF ok h p] obtain t r where "t \<in> set (db_rt_tokens (sv_db (plugin_sample Reserved)))"
    "find_tunnel (rt_tunnel t) (sv_db s') = Some (r\<lparr>tn_status := Active\<rparr>)" by blast
  then have "find_tunnel ''t1'' (sv_db s') = Some (r\<lparr>tn_status := Active\<rparr>)"
    by (simp add: plugin_sample_def Let_def sample_db_def)
  with h p show ?thesis by auto
qed

text \<open>
  C10: A login is accepted only with a live credential of a tunnel that has not ended, and accepting
  it changes nothing but the usage record of that credential.
\<close>

theorem login_authorized:
  assumes "handleLogin sha argon slots e late content s = (s', p)" and "\<not> pr_reject p"
  shows "\<exists>login t r slot. unmarshal_raw login_fields content = Some login \<and>
     t \<in> set (db_rt_tokens (sv_db s)) \<and> rt_revoked t = None \<and> e_time e PlQuery < rt_expires t \<and>
     VerifyTokenContext sha argon slot (map_index (get_map ''metas'' login) ''runtime_token'') (rt_hash t) = Inr True \<and>
     find_tunnel (rt_tunnel t) (sv_db s) = Some r \<and> non_terminal (tn_status r) \<and>
     null_gt (tn_expires r) (e_time e PlQuery) \<and>
     (s' = s \<or> s' = on_db (sql_count_use (e_time e PlUsage) (rt_id t)) s)"
proof -
  obtain login where l: "unmarshal_raw login_fields content = Some login"
    using assms by (cases "unmarshal_raw login_fields content") (auto simp: handleLogin_def reject_def)
  let ?rt = "map_index (get_map ''metas'' login) ''runtime_token''"
  obtain info where info: "lookupRuntimeToken sha argon slots e late ?rt (sv_db s) = Inr info"
    using assms l
    by (cases "lookupRuntimeToken sha argon slots e late ?rt (sv_db s)")
       (auto simp: handleLogin_def reject_def Let_def split: if_splits)
  have s': "s' = s \<or> s' = on_db (sql_count_use (e_time e PlUsage) (ti_token_id info)) s"
    using assms l info by (auto simp: handleLogin_def Let_def reject_def pool_exec_def split: if_splits outcome.splits)
  from lookupRuntimeToken_InrD [OF info] obtain t r slot where
    "t \<in> set (db_rt_tokens (sv_db s))" "rt_id t = ti_token_id info" "rt_revoked t = None"
      "e_time e PlQuery < rt_expires t" "VerifyTokenContext sha argon slot ?rt (rt_hash t) = Inr True"
      "find_tunnel (rt_tunnel t) (sv_db s) = Some r" "non_terminal (tn_status r)"
      "null_gt (tn_expires r) (e_time e PlQuery)" by blast
  with l s' show ?thesis
    by (intro exI [of _ login] exI [of _ t] exI [of _ r] exI [of _ slot]) simp
qed

theorem login_authorized_witness:
  "\<exists>s' p. handleLogin sample_sha (\<lambda>_ _ _ _ _ _. []) (\<lambda>_. SlotWaitExpired) (calm 5) (\<lambda>_. False)
     (Some (VObj [(''metas'', VObj [(''runtime_token'', VStr ''rt_AAAAAAAAABBB'')])])) (plugin_sample Closed) = (s', p) \<and>
     \<not> pr_reject p \<and> db_tunnels (sv_db s') = db_tunnels (sv_db (plugin_sample Closed))"
proof -
  let ?h = "handleLogin sample_sha (\<lambda>_ _ _ _ _ _. []) (\<lambda>_. SlotWaitExpired) (calm 5) (\<lambda>_. False)
     (Some (VObj [(''metas'', VObj [(''runtime_token'', VStr ''rt_AAAAAAAAABBB'')])])) (plugin_sample Closed)"
  obtain s' p where h: "?h = (s', p)" by (cases ?h)
  have "\<not> pr_reject (snd ?h)" by code_simp
  then have p: "\<not> pr_reject p" unfolding h by simp
  from login_authorized [OF h p] h p show ?thesis by auto
qed





end
