(* ===== verification/System.thy ===== *)
theory System
  imports ServerCommands Plugin
begin

text \<open>
  The running system: the operations that share the database, each as one atomic step, in any order
  and number, with any requests, clocks, random sources and failures.  Every component has shown
  of its operations that they work on tunnels as a \<open>tunnel_op\<close> does; here the promises of that
  contract are carried over all histories.
\<close>

inductive sys_step :: "srv \<Rightarrow> srv \<Rightarrow> bool" where
  ApiRequest: "sys_step s (fst (NewRouter p cfg w r s))"
| PluginCallback: "sys_step s (fst (pluginHandler sha argon slots e late expired cfg secret r s))"
| ReaperTick: "sys_step s (reapExpired e s)"
| SweeperTick: "sys_step s (on_db (sweep_tick e ed ih td) s)"
| AdminInit: "sys_step s (on_db (\<lambda>d. fst (serverInit cw force yes typed email name d)) s)"
| AdminUser: "sys_step s (on_db (\<lambda>d. fst (serverUserCreate cw email name adm d)) s)"
| AdminToken: "sys_step s (on_db (\<lambda>d. fst (serverTokenCreate cw user name d)) s)"
| AdminRevokeToken: "sys_step s (on_db (\<lambda>d. fst (serverTokenRevoke cw arg d)) s)"
| Restart: "sys_step s (s\<lparr>sv_metrics := NewMetrics, sv_limiter := NewRateLimiter rate now\<rparr>)"

abbreviation history :: "srv \<Rightarrow> srv \<Rightarrow> bool" where
  "history \<equiv> sys_step\<^sup>*\<^sup>*"

lemma admin_tunnel_op:
  "(\<And>d. admin_change d (f d)) \<Longrightarrow> tunnel_op (on_db f)"
  by (rule tunnel_op_on_idem) (simp_all add: admin_change_def)

lemma admin_step:
  "(\<And>d. admin_change d (f d)) \<Longrightarrow> \<exists>g. tunnel_op g \<and> on_db f s = g s"
  using admin_tunnel_op [of f] by blast

text \<open>Every step is a tunnel operation.\<close>

lemma step_is_op: "sys_step s s' \<Longrightarrow> \<exists>f. tunnel_op f \<and> s' = f s"
proof (induction rule: sys_step.induct)
  case (ApiRequest s p cfg w r)
  show ?case using router_op.tunnel_op_axioms by blast
next
  case (PluginCallback s sha argon slots e late expired cfg secret r)
  show ?case using plugin_op.tunnel_op_axioms by blast
next
  case (ReaperTick s e)
  show ?case using reaper_op.tunnel_op_axioms by blast
next
  case (SweeperTick s e ed ih td)
  show ?case using sweep_op.tunnel_op_axioms by blast
next
  case (AdminInit s cw force yes typed email name)
  show ?case
    by (rule admin_step [where f = "(\<lambda>d. fst (serverInit cw force yes typed email name d))"]) (rule admin_commands)
next
  case (AdminUser s cw email name adm)
  show ?case
    by (rule admin_step [where f = "(\<lambda>d. fst (serverUserCreate cw email name adm d))"]) (rule admin_commands)
next
  case (AdminToken s cw user name)
  show ?case
    by (rule admin_step [where f = "(\<lambda>d. fst (serverTokenCreate cw user name d))"]) (rule admin_commands)
next
  case (AdminRevokeToken s cw arg)
  show ?case
    by (rule admin_step [where f = "(\<lambda>d. fst (serverTokenRevoke cw arg d))"]) (rule admin_commands)
next
  case (Restart s rate now)
  have "tunnel_op (\<lambda>s. s\<lparr>sv_metrics := NewMetrics, sv_limiter := NewRateLimiter rate now\<rparr>)"
    by (rule tunnel_op_outside) simp
  then show ?case by blast
qed

lemma history_keeps:
  assumes "history s s'" "schema_ok (sv_db s)" "revoked_dead (sv_db s)"
  shows "schema_ok (sv_db s') \<and> revoked_dead (sv_db s') \<and> evolves (sv_db s) (sv_db s')"
  using assms
proof (induction rule: rtranclp_induct)
  case (step s1 s2)
  then have s1: "schema_ok (sv_db s1)" "revoked_dead (sv_db s1)" "evolves (sv_db s) (sv_db s1)" by blast+
  obtain f where f: "tunnel_op f" "s2 = f s1" using step_is_op [OF step.hyps(2)] by blast
  from tunnel_op.run_schema [OF f(1) s1(1)] tunnel_op.run_dead [OF f(1) s1(1,2)]
    rows_evolve_trans [OF s1(3) tunnel_op.run_evolves [OF f(1) s1(1)]]
  show ?case unfolding f(2) by blast
qed simp

text \<open>
  C33: The invariant of the system: in every history that starts from a fresh database, whatever requests,
  callbacks, ticks, commands and restarts happen, with whatever failures, the constraints of the
  schema hold and no revoked tunnel has a credential that is not revoked; and no tunnel is ever
  lost or changes owner, address or expiry, or leaves the paths of the status machine.
\<close>

theorem system_invariant:
  assumes "history (fresh_srv empty_db) s"
  shows "schema_ok (sv_db s) \<and> revoked_dead (sv_db s) \<and>
     (\<forall>s'. history s s' \<longrightarrow> (\<forall>tid t. find_tunnel tid (sv_db s) = Some t \<longrightarrow>
        (\<exists>st. status_path (tn_status t) st \<and> find_tunnel tid (sv_db s') = Some (t\<lparr>tn_status := st\<rparr>))))"
proof -
  have "schema_ok (sv_db (fresh_srv empty_db))" "revoked_dead (sv_db (fresh_srv empty_db))"
    by (simp add: schema_ok_empty, simp add: revoked_dead_def empty_db_def)
  from history_keeps [OF assms this] have s: "schema_ok (sv_db s)" "revoked_dead (sv_db s)" by blast+
  have "\<exists>st. status_path (tn_status t) st \<and> find_tunnel tid (sv_db s') = Some (t\<lparr>tn_status := st\<rparr>)"
    if "history s s'" "find_tunnel tid (sv_db s) = Some t" for s' tid t
  proof -
    from history_keeps [OF that(1) s] have "evolves (sv_db s) (sv_db s')" by blast
    from evolves_find [OF this that(2)] show ?thesis by (auto simp: row_evolves_def)
  qed
  with s show ?thesis by blast
qed

theorem system_invariant_witness:
  "\<exists>s. history (fresh_srv empty_db) s \<and> db_users (sv_db s) \<noteq> [] \<and> schema_ok (sv_db s)"
proof -
  let ?f = "\<lambda>d. fst (serverInit sample_cli False False '''' ''admin@hatchway.local'' ''admin'' d)"
  let ?s = "on_db ?f (fresh_srv empty_db)"
  have "history (fresh_srv empty_db) ?s" by (rule r_into_rtranclp) (rule AdminInit)
  moreover have "db_users (?f empty_db) \<noteq> []" by code_simp
  ultimately show ?thesis using system_invariant [of ?s] by (intro exI [of _ ?s]) simp
qed

text \<open>
  C34: Revocation is final across the system: once a tunnel is revoked, in no later state does its row
  change, does the gate let a request through to it, does a credential of it pass the lookup of
  the frps callbacks, or is one of its credentials left that is not revoked.
\<close>

theorem revocation_is_final:
  assumes "history s s'" "schema_ok (sv_db s)" "revoked_dead (sv_db s)"
    and "find_tunnel tid (sv_db s) = Some t" "tn_status t = Revoked"
  shows "find_tunnel tid (sv_db s') = Some t \<and>
     (\<forall>x \<in> set (db_rt_tokens (sv_db s')). rt_tunnel x = tid \<longrightarrow> rt_revoked x \<noteq> None) \<and>
     (\<forall>sha argon slots e late raw info. lookupRuntimeToken sha argon slots e late raw (sv_db s') = Inr info \<longrightarrow>
        ti_tunnel_id info \<noteq> tid) \<and>
     (\<forall>ul e cfg secret r. tunnelIDFromHost ul (hd (header_values TunnelHostHeader r)) (TunnelDomain cfg) = Some tid \<longrightarrow>
        rs_status (render (TunnelAuthorizationHandler ul e (Some (sv_db s')) cfg secret r)) \<noteq> 204)"
proof -
  note keeps = history_keeps [OF assms(1-3)]
  from keeps have dead: "revoked_dead (sv_db s')" and ev: "evolves (sv_db s) (sv_db s')" by blast+
  from evolves_find [OF ev assms(4)] obtain st where st: "status_path Revoked st"
    "find_tunnel tid (sv_db s') = Some (t\<lparr>tn_status := st\<rparr>)"
    using assms(5) by (auto simp: row_evolves_def)
  from status_path_terminal [of Revoked st] st(1) have "st = Revoked" by simp
  with st(2) assms(5) have row: "find_tunnel tid (sv_db s') = Some t" by simp
  note in_s' = find_tunnel_SomeD [OF row]
  have creds: "\<forall>x \<in> set (db_rt_tokens (sv_db s')). rt_tunnel x = tid \<longrightarrow> rt_revoked x \<noteq> None"
    using dead in_s' assms(5) by (auto simp: revoked_dead_def)
  have lookup: "ti_tunnel_id info \<noteq> tid"
    if "lookupRuntimeToken sha argon slots e late raw (sv_db s') = Inr info" for sha argon slots e late raw info
    using lookupRuntimeToken_InrD [OF that] creds by auto
  have gate: "rs_status (render (TunnelAuthorizationHandler ul e (Some (sv_db s')) cfg secret r)) \<noteq> 204"
    if "tunnelIDFromHost ul (hd (header_values TunnelHostHeader r)) (TunnelDomain cfg) = Some tid" for ul e cfg secret r
    unfolding gate_status that using row assms(5)
    by (simp add: tunnelAcceptsTraffic_def accepts_def split: query.split)
  from row creds lookup gate show ?thesis by blast
qed

definition revoked_sample :: db where
  "revoked_sample = (sample_db Revoked 9)\<lparr>db_rt_tokens := map (\<lambda>x. x\<lparr>rt_revoked := Some 1\<rparr>) (db_rt_tokens (sample_db Revoked 9))\<rparr>"

theorem revocation_is_final_witness:
  "\<exists>s t. history (fresh_srv revoked_sample) s \<and> find_tunnel ''t1'' (sv_db s) = Some t \<and> tn_status t = Revoked"
proof -
  let ?s = "reapExpired (calm 5) (fresh_srv revoked_sample)"
  let ?t = "hd (db_tunnels revoked_sample)"
  have h: "history (fresh_srv revoked_sample) ?s" by (rule r_into_rtranclp) (rule ReaperTick)
  have d: "schema_ok (sv_db (fresh_srv revoked_sample))" "revoked_dead (sv_db (fresh_srv revoked_sample))"
    "find_tunnel ''t1'' (sv_db (fresh_srv revoked_sample)) = Some ?t" "tn_status ?t = Revoked"
    by (simp_all add: revoked_sample_def sample_db_def schema_ok_def revoked_dead_def find_tunnel_def)
  from revocation_is_final [OF h d] h d(4) show ?thesis by blast
qed

end
