(* ===== verification/JsonRoundtrip.thy ===== *)
theory JsonRoundtrip
  imports JsonParse
begin

text \<open>
  What the server marshals reads back: for every value whose strings are ASCII and whose nesting
  is within the limit of the decoder, \<open>parse_value\<close> of \<open>json_text\<close> gives the same value.  Used for
  the pagination cursor and for the responses that the command-line client decodes.
\<close>

fun to_jval :: "json \<Rightarrow> jval" where
  "to_jval JNull = VNull"
| "to_jval (JBool b) = VBool b"
| "to_jval (JNum i) = VNum (show_int i)"
| "to_jval (JStr s) = written_string s"
| "to_jval (JArr js) = VArr (map to_jval js)"
| "to_jval (JObj fs) = VObj (map (\<lambda>(k, j). (k, to_jval j)) fs)"

fun json_ascii :: "json \<Rightarrow> bool" where
  "json_ascii (JStr s) = list_all is_ascii s"
| "json_ascii (JArr js) = list_all json_ascii js"
| "json_ascii (JObj fs) = list_all (\<lambda>(k, j). list_all is_ascii k \<and> json_ascii j) fs"
| "json_ascii _ = True"

text \<open>\<open>nests n j\<close>: at most \<open>n\<close> objects and arrays are open at a time.\<close>

fun nests :: "nat \<Rightarrow> json \<Rightarrow> bool" where
  "nests n (JArr js) = (case n of 0 \<Rightarrow> False | Suc m \<Rightarrow> list_all (nests m) js)"
| "nests n (JObj fs) = (case n of 0 \<Rightarrow> False | Suc m \<Rightarrow> list_all (\<lambda>(k, j). nests m j) fs)"
| "nests n _ = True"

text \<open>What may follow a value.\<close>

definition ends :: "string \<Rightarrow> bool" where
  "ends r = (case r of [] \<Rightarrow> True | c # _ \<Rightarrow> c \<in> {CHR '','', CHR ''}'', CHR '']'', CHR 0x0A})"

lemma skip_ws_char: "\<not> json_space c \<Longrightarrow> skip_ws (c # s) = c # s"
  by (simp add: skip_ws_def)

lemma structural [simp]:
  "\<not> json_space CHR ''{''" "\<not> json_space CHR ''}''" "\<not> json_space CHR ''[''" "\<not> json_space CHR '']''"
  "\<not> json_space CHR '',''" "\<not> json_space CHR '':''" "\<not> json_space quote_char" "\<not> json_space CHR ''t''"
  "\<not> json_space CHR ''f''" "\<not> json_space CHR ''n''" "\<not> json_space CHR ''-''"
  by (simp_all add: json_space_def quote_char_def)

lemma is_digit_not_space: "is_digit c \<Longrightarrow> \<not> json_space c"
  by (auto simp: is_digit_def in_range_def json_space_def)

subsection \<open>Numbers\<close>

lemma show_nat_head: "show_nat n = CHR ''0'' # ds \<Longrightarrow> n = 0 \<and> ds = []"
proof (induction n arbitrary: ds rule: show_nat.induct)
  case (1 n)
  show ?case
  proof (cases "n < 10")
    case True
    with "1.prems" have "digit_char n = digit_char 0" "ds = []"
      by (subst (asm) show_nat.simps, simp)+
    then show ?thesis using True byte_digit_char [of n] byte_digit_char [of 0] by simp
  next
    case False
    with "1.prems" have s: "show_nat (n div 10) @ [digit_char (n mod 10)] = CHR ''0'' # ds"
      by (subst (asm) show_nat.simps) simp
    obtain c cs where c: "show_nat (n div 10) = c # cs" by (cases "show_nat (n div 10)") auto
    with s have "c = CHR ''0''" by simp
    with "1.IH" [OF False] c have "n div 10 = 0" by blast
    with False show ?thesis by simp
  qed
qed

lemma ends_no_digit: "ends r \<Longrightarrow> r = [] \<or> \<not> is_digit (hd r)"
  by (cases r) (auto simp: ends_def is_digit_def in_range_def)

lemma scan_fraction_ends: "ends r \<Longrightarrow> scan_fraction acc r = Done acc r"
  by (cases r) (auto simp: ends_def scan_fraction_def scan_exponent_def)

lemma digits_then_show:
  assumes "ends r"
  shows "digits_then acc (show_nat n @ r) k = k (acc @ show_nat n) r"
proof -
  obtain c cs where c: "show_nat n = c # cs" by (cases "show_nat n") auto
  have d: "list_all is_digit (show_nat n)" by (rule show_nat_digits)
  have "takeWhile is_digit (show_nat n @ r) = show_nat n" "dropWhile is_digit (show_nat n @ r) = r"
    using d ends_no_digit [OF assms] by (cases r; auto simp: list_all_iff takeWhile_append dropWhile_append takeWhile_eq_all_conv)+
  with d show ?thesis by (simp add: digits_then_def c)
qed

lemma scan_number_nat: "ends r \<Longrightarrow> scan_number (show_nat n @ r) = Done (show_nat n) r"
proof -
  assume r: "ends r"
  obtain c cs where c: "show_nat n = c # cs" by (cases "show_nat n") auto
  have cd: "is_digit c" using show_nat_digits [of n] c by simp
  then have minus: "c \<noteq> CHR ''-''" by (auto simp: is_digit_def in_range_def)
  show ?thesis
  proof (cases "c = CHR ''0''")
    case True
    with show_nat_head [of n cs] c have "n = 0" "cs = []" by auto
    with c True show ?thesis by (simp add: scan_number_def scan_fraction_ends [OF r])
  next
    case False
    then have "scan_number (show_nat n @ r) = digits_then [] (show_nat n @ r) scan_fraction"
      using minus by (simp add: scan_number_def c)
    then show ?thesis by (simp add: digits_then_show [OF r] scan_fraction_ends [OF r])
  qed
qed

lemma scan_number_int: "ends r \<Longrightarrow> scan_number (show_int i @ r) = Done (show_int i) r"
proof (cases "i < 0")
  case True
  assume r: "ends r"
  obtain c cs where c: "show_nat (nat (- i)) = c # cs" by (cases "show_nat (nat (- i))") auto
  have "c \<noteq> CHR ''0''" using show_nat_head [of "nat (- i)" cs] c True by auto
  then have "scan_number (CHR ''-'' # show_nat (nat (- i)) @ r) = digits_then ''-'' (show_nat (nat (- i)) @ r) scan_fraction"
    by (simp add: scan_number_def c)
  with True show ?thesis by (simp add: show_int_def digits_then_show [OF r] scan_fraction_ends [OF r])
qed (simp add: show_int_def scan_number_nat)

lemma show_int_head: "\<exists>c cs. show_int i = c # cs \<and> (is_digit c \<or> c = CHR ''-'')"
proof -
  have "\<exists>c cs. show_nat n = c # cs \<and> is_digit c" for n
    using show_nat_digits [of n] by (cases "show_nat n") auto
  from this [of "nat i"] show ?thesis by (auto simp: show_int_def)
qed

subsection \<open>Values\<close>

lemma scan_string_text:
  "list_all is_ascii s \<Longrightarrow> scan_string (concat (map json_escape s) @ quote_char # r) = Done s r"
  by (simp add: scan_string_def raw_escaped_string unquote_escaped)

lemma ends_simps [simp]: "ends []" "ends (CHR '','' # r)" "ends (CHR ''}'' # r)" "ends (CHR '']'' # r)"
  by (simp_all add: ends_def)

definition member_text :: "string \<times> json \<Rightarrow> string" where
  "member_text = (\<lambda>(k, j). json_string k @ '':'' @ json_text j)"

lemma join_Cons_cases:
  "join_with d (w # ws) = w @ (if ws = [] then [] else d @ join_with d ws)"
  by (cases ws) auto

lemma scan_members_text:
  assumes "fs \<noteq> []" and "\<And>k j. (k, j) \<in> set fs \<Longrightarrow> list_all is_ascii k"
    and "\<And>k j n r. (k, j) \<in> set fs \<Longrightarrow> 2 * length (json_text j) < n \<Longrightarrow> ends r \<Longrightarrow>
           scan_value n depth (json_text j @ r) = Done (to_jval j) r"
    and "2 * length (join_with '','' (map member_text fs)) < n"
  shows "scan_members n depth (join_with '','' (map member_text fs) @ CHR ''}'' # r) =
    Done (map (\<lambda>(k, j). (k, to_jval j)) fs) r"
  using assms
proof (induction fs arbitrary: n)
  case (Cons f fs)
  obtain k j where f: "f = (k, j)" by (cases f)
  obtain m where n: "n = Suc m" using Cons.prems(4) by (cases n) auto
  have ascii: "list_all is_ascii k" using Cons.prems(2) f by auto
  let ?tail = "(if fs = [] then [] else '','' @ join_with '','' (map member_text fs)) @ CHR ''}'' # r"
  have len: "2 * length (json_text j) < m" "fs \<noteq> [] \<Longrightarrow> 2 * length (join_with '','' (map member_text fs)) < m"
    using Cons.prems(4) by (auto simp: n f member_text_def join_Cons_cases json_string_def split: if_splits)
  have tail: "ends ?tail" by simp
  have v: "scan_value m depth (json_text j @ ?tail) = Done (to_jval j) ?tail"
    using Cons.prems(3) [of k j m ?tail] f len(1) tail by simp
  have tx: "join_with '','' (map member_text (f # fs)) @ CHR ''}'' # r =
      quote_char # concat (map json_escape k) @ quote_char # CHR '':'' # json_text j @ ?tail"
    by (simp add: f member_text_def join_Cons_cases json_string_def)
  have rest: "scan_members m depth (join_with '','' (map member_text fs) @ CHR ''}'' # r) =
      Done (map (\<lambda>(k, j). (k, to_jval j)) fs) r" if "fs \<noteq> []"
  proof (rule Cons.IH [OF that])
    show "list_all is_ascii k" if "(k, j) \<in> set fs" for k j
      using that Cons.prems(2) [of k j] by simp
    show "scan_value n depth (json_text j @ r) = Done (to_jval j) r"
      if "(k, j) \<in> set fs" "2 * length (json_text j) < n" "ends r" for k j n r
      using that Cons.prems(3) [of k j n r] by simp
  qed (rule len(2) [OF that])
  show ?case
    unfolding tx n scan_members.simps
    by (simp add: expect_def skip_ws_char scan_string_text [OF ascii] v)
       (use rest in \<open>auto simp: f skip_ws_char\<close>)
qed simp

lemma scan_elements_text:
  assumes "js \<noteq> []"
    and "\<And>j n r. j \<in> set js \<Longrightarrow> 2 * length (json_text j) < n \<Longrightarrow> ends r \<Longrightarrow>
           scan_value n depth (json_text j @ r) = Done (to_jval j) r"
    and "2 * length (join_with '','' (map json_text js)) + 1 < n"
  shows "scan_elements n depth (join_with '','' (map json_text js) @ CHR '']'' # r) = Done (map to_jval js) r"
  using assms
proof (induction js arbitrary: n)
  case (Cons j js)
  obtain m where n: "n = Suc m" using Cons.prems(3) by (cases n) auto
  let ?tail = "(if js = [] then [] else '','' @ join_with '','' (map json_text js)) @ CHR '']'' # r"
  have len: "2 * length (json_text j) < m" "js \<noteq> [] \<Longrightarrow> 2 * length (join_with '','' (map json_text js)) + 1 < m"
    using Cons.prems(3) by (auto simp: n join_Cons_cases split: if_splits)
  have v: "scan_value m depth (json_text j @ ?tail) = Done (to_jval j) ?tail"
    using Cons.prems(2) [of j m ?tail] len(1) by simp
  have tx: "join_with '','' (map json_text (j # js)) @ CHR '']'' # r = json_text j @ ?tail"
    by (simp add: join_Cons_cases)
  have rest: "scan_elements m depth (join_with '','' (map json_text js) @ CHR '']'' # r) =
      Done (map to_jval js) r" if "js \<noteq> []"
  proof (rule Cons.IH [OF that])
    show "scan_value n depth (json_text j @ r) = Done (to_jval j) r"
      if "j \<in> set js" "2 * length (json_text j) < n" "ends r" for j n r
      using that Cons.prems(2) [of j n r] by simp
  qed (rule len(2) [OF that])
  show ?case
    unfolding tx n scan_elements.simps by (simp add: v) (use rest in \<open>auto simp: skip_ws_char\<close>)
qed simp

lemma json_text_head: "\<exists>c cs. json_text j = c # cs \<and> \<not> json_space c \<and> c \<noteq> CHR '']''"
  using show_int_head [of "case j of JNum i \<Rightarrow> i | _ \<Rightarrow> 0"]
  by (cases j) (auto simp: json_string_def quote_char_def json_space_def is_digit_def in_range_def)

lemma scan_value_int:
  assumes "0 < n" "ends r"
  shows "scan_value n depth (show_int i @ r) = Done (VNum (show_int i)) r"
proof -
  obtain m where n: "n = Suc m" using assms(1) by (cases n) auto
  obtain c cs where c: "show_int i = c # cs" "is_digit c \<or> c = CHR ''-''" using show_int_head by blast
  from c(2) have no: "\<not> json_space c" "c \<noteq> CHR ''{''" "c \<noteq> CHR ''[''" "c \<noteq> quote_char" "c \<noteq> CHR ''t''" "c \<noteq> CHR ''f''"
    "c \<noteq> CHR ''n''"
    by (auto simp: is_digit_not_space is_digit_def in_range_def quote_char_def)
  have "scan_number (c # cs @ r) = Done (show_int i) r"
    using scan_number_int [OF assms(2), of i] by (simp add: c(1))
  with no show ?thesis by (simp add: n c(1) skip_ws_char)
qed

lemma scan_value_text:
  assumes "json_ascii j" "nests depth j" "2 * length (json_text j) < n" "ends r"
  shows "scan_value n depth (json_text j @ r) = Done (to_jval j) r"
  using assms
proof (induction j arbitrary: n depth r rule: json_text.induct)
  case 1
  then show ?case by (cases n) (auto simp: skip_ws_char quote_char_def)
next
  case (2 b)
  then show ?case by (cases n) (auto simp: skip_ws_char quote_char_def)
next
  case (3 i)
  then show ?case by (simp add: scan_value_int)
next
  case (4 s)
  then have "scan_map (\<lambda>raw. string_literal raw (unquote raw)) (raw_string (concat (map json_escape s) @ quote_char # r)) =
      Done (written_string s) r"
    by (simp add: raw_escaped_string unquote_escaped written_string_def)
  with "4.prems"(3) show ?case
    by (cases n) (auto simp: json_string_def skip_ws_char, simp_all add: quote_char_def)
next
  case (5 js)
  obtain m where n: "n = Suc m" using "5.prems"(3) by (cases n) auto
  obtain k where k: "depth = Suc k" "list_all (nests k) js" using "5.prems"(2) by (cases depth) auto
  show ?case
  proof (cases "js = []")
    case True
    then show ?thesis by (simp add: n k skip_ws_char)
  next
    case False
    let ?body = "join_with '','' (map json_text js) @ CHR '']'' # r"
    have els: "scan_elements m k ?body = Done (map to_jval js) r"
      by (rule scan_elements_text [OF False])
         (use "5.IH" "5.prems" k n in \<open>auto simp: list_all_iff\<close>)
    obtain j js' where js: "js = j # js'" using False by (cases js) auto
    obtain c cs where c: "json_text j = c # cs" "\<not> json_space c" "c \<noteq> CHR '']''" using json_text_head by blast
    then have "\<exists>ds. skip_ws ?body = c # ds" by (simp add: js join_Cons_cases skip_ws_char)
    with els c(3) show ?thesis by (auto simp: n k skip_ws_char)
  qed
next
  case (6 fs)
  obtain m where n: "n = Suc m" using "6.prems"(3) by (cases n) auto
  obtain k where k: "depth = Suc k" "list_all (\<lambda>(_, j). nests k j) fs" using "6.prems"(2) by (cases depth) auto
  show ?case
  proof (cases "fs = []")
    case True
    then show ?thesis by (simp add: n k skip_ws_char)
  next
    case False
    let ?body = "join_with '','' (map member_text fs) @ CHR ''}'' # r"
    have mem: "scan_members m k ?body = Done (map (\<lambda>(k, j). (k, to_jval j)) fs) r"
    proof (rule scan_members_text [OF False])
      show "list_all is_ascii key" if "(key, j) \<in> set fs" for key j
        using that "6.prems"(1) by (auto simp: list_all_iff)
      show "scan_value n k (json_text j @ r) = Done (to_jval j) r"
        if "(key, j) \<in> set fs" "2 * length (json_text j) < n" "ends r" for key j n r
        using that "6.prems"(1) k(2) by (intro "6.IH" [OF that(1) refl]) (auto simp: list_all_iff)
      show "2 * length (join_with '','' (map member_text fs)) < m"
        using "6.prems"(3) by (simp add: n member_text_def)
    qed
    have "\<exists>ds. skip_ws ?body = quote_char # ds"
      using False by (cases fs) (auto simp: join_Cons_cases member_text_def json_string_def skip_ws_char)
    moreover have "quote_char \<noteq> CHR ''}''" by (simp add: quote_char_def)
    ultimately show ?thesis using mem by (auto simp: n k skip_ws_char member_text_def)
  qed
qed

text \<open>A marshalled value followed by anything a value can be followed by.\<close>

lemma parse_value_text:
  assumes "json_ascii j" "nests 10000 j" "ends r"
  shows "parse_value (json_text j @ r) = Done (to_jval j) r"
  unfolding parse_value_def by (rule scan_value_text) (use assms in auto)

end
