(* ===== verification/Credentials.thy ===== *)
theory Credentials
  imports JsonRoundtrip GoUrl "HOL-Library.Word"
begin

unbundle bit_operations_syntax

text \<open>
  The stored credentials of the client (\<open>internal/cli/credentials.go\<close>): where they are, how they are read,
  written and removed, and what the environment overrides.  The file system is a map from paths to
  nodes; each call of \<open>os\<close> can fail.  What \<open>net/url\<close> makes of a bracketed IPv6 host is the parameter
  \<open>brackets\<close>.
\<close>

section \<open>Paths\<close>

text \<open>\<open>filepath.Clean\<close>, \<open>Join\<close> and \<open>Dir\<close> on Unix.  The stack of elements has the last one first.\<close>

fun clean_step :: "bool \<Rightarrow> string list \<Rightarrow> string \<Rightarrow> string list" where
  "clean_step rooted stack w =
     (if w = '''' \<or> w = ''.'' then stack
      else if w = ''..'' then
        (case stack of
           [] \<Rightarrow> if rooted then [] else [''..'']
         | v # rest \<Rightarrow> if v = ''..'' then ''..'' # stack else rest)
      else w # stack)"

definition clean_path :: "string \<Rightarrow> string" where
  "clean_path s =
     (let rooted = prefix ''/'' s;
          p = (if rooted then ''/'' else '''') @ join_with ''/'' (rev (foldl (clean_step rooted) [] (split_char CHR ''/'' s)))
      in if p = '''' then ''.'' else p)"

definition join_path :: "string list \<Rightarrow> string" where
  "join_path elems =
     (case dropWhile (\<lambda>e. e = '''') elems of [] \<Rightarrow> '''' | es \<Rightarrow> clean_path (join_with ''/'' es))"

definition dir_of :: "string \<Rightarrow> string" where
  "dir_of p = clean_path (rev (dropWhile (\<lambda>c. c \<noteq> CHR ''/'') (rev p)))"

definition credFileName :: string where "credFileName = ''credentials.json''"

definition CredPath :: "(string \<Rightarrow> string) \<Rightarrow> string" where
  "CredPath getenv =
     (let xdg = getenv ''XDG_CONFIG_HOME'' in
      if xdg \<noteq> '''' then join_path [xdg, ''hatchway'', credFileName]
      else if getenv ''HOME'' = '''' then join_path [''.config'', ''hatchway'', credFileName]
      else join_path [join_path [getenv ''HOME'', ''.config''], ''hatchway'', credFileName])"

text \<open>\<open>os.UserHomeDir\<close> reads \<open>HOME\<close> and fails when it is empty.\<close>

definition credentialPath :: "(string \<Rightarrow> string) \<Rightarrow> string option" where
  "credentialPath getenv =
     (let xdg = getenv ''XDG_CONFIG_HOME'' in
      if xdg \<noteq> '''' then Some (join_path [xdg, ''hatchway'', credFileName])
      else if getenv ''HOME'' = '''' then None
      else Some (join_path [join_path [getenv ''HOME'', ''.config''], ''hatchway'', credFileName]))"

section \<open>The server's URL\<close>

definition scheme_char :: "char \<Rightarrow> bool" where
  "scheme_char c \<longleftrightarrow> is_lower c \<or> is_upper c \<or> is_digit c \<or> c \<in> set ''+-.''"

text \<open>\<open>getScheme\<close>: None for a missing scheme, an empty one when there is none.\<close>

definition get_scheme :: "string \<Rightarrow> (string \<times> string) option" where
  "get_scheme s =
     (let pre = takeWhile scheme_char s
      in case dropWhile scheme_char s of
           [] \<Rightarrow> Some ('''', s)
         | c # rest \<Rightarrow>
             if c \<noteq> CHR '':'' then Some ('''', s)
             else (case pre of [] \<Rightarrow> None
                   | p # _ \<Rightarrow> if is_lower p \<or> is_upper p then Some (pre, rest) else Some ('''', s)))"

text \<open>The characters that \<open>net/url\<close> leaves as they are in a host.\<close>

definition host_plain :: "char \<Rightarrow> bool" where
  "host_plain c \<longleftrightarrow> unreserved c \<or> c \<in> set ''!$&()*+,;=:[]<>'' \<or> c = CHR 0x27 \<or> c = CHR 0x22"

fun unescape_host :: "string \<Rightarrow> string option" where
  "unescape_host [] = Some []"
| "unescape_host (c # cs) =
     (if c = CHR ''%'' then
        (case cs of a # b # r \<Rightarrow>
            (case (hex_value a, hex_value b) of
               (Some x, Some y) \<Rightarrow>
                 if x < 8 \<and> \<not> (a = CHR ''2'' \<and> b = CHR ''5'') then None
                 else map_option (\<lambda>t. char_of (16 * x + y) # t) (unescape_host r)
             | _ \<Rightarrow> None)
         | _ \<Rightarrow> None)
      else if is_ascii c \<and> \<not> host_plain c then None
      else map_option (\<lambda>t. c # t) (unescape_host cs))"

definition escape_host :: "string \<Rightarrow> string" where
  "escape_host s = concat (map (\<lambda>c. if host_plain c then [c] else percent c) s)"

text \<open>A port: nothing, or a colon and digits.\<close>

definition optional_port :: "string \<Rightarrow> bool" where
  "optional_port s \<longleftrightarrow> (case s of [] \<Rightarrow> True | c # ds \<Rightarrow> c = CHR '':'' \<and> list_all is_digit ds)"

definition parse_host :: "(string \<Rightarrow> string option) \<Rightarrow> string \<Rightarrow> string option" where
  "parse_host brackets s =
     (if prefix ''['' s then brackets s
      else if optional_port (dropWhile (\<lambda>c. c \<noteq> CHR '':'') s) then unescape_host s
      else None)"

definition control_char :: "char \<Rightarrow> bool" where
  "control_char c \<longleftrightarrow> byte c < 32 \<or> byte c = 127"

text \<open>
  \<open>url.ParseRequestURI\<close>, the checks of what it found, and \<open>URL.String\<close>.  A URL without \<open>//\<close> has no
  host, an authority with \<open>@\<close> has user information or does not parse; \<open>force\<close> is \<open>ForceQuery\<close>.
\<close>

definition server_url :: "(string \<Rightarrow> string option) \<Rightarrow> string \<Rightarrow> string \<Rightarrow> string \<Rightarrow> bool \<Rightarrow> string option" where
  "server_url brackets scheme rest query force =
     (let authority = takeWhile (\<lambda>c. c \<noteq> CHR ''/'') (drop 2 rest);
          path = dropWhile (\<lambda>c. c \<noteq> CHR ''/'') (drop 2 rest)
      in if scheme \<notin> {''http'', ''https''} \<or> \<not> prefix ''//'' rest then None
         else if CHR ''@'' \<in> set authority then None
         else (case parse_host brackets authority of
                 None \<Rightarrow> None
               | Some host \<Rightarrow>
                   if host = '''' \<or> query \<noteq> '''' \<or> path \<notin> {'''', ''/''} then None
                   else Some (trim_suffix ''/''
                          (scheme @ ''://'' @ escape_host host @ path @ (if force then ''?'' else '''')))))"

definition normalizeServerURL :: "(string \<Rightarrow> string option) \<Rightarrow> string \<Rightarrow> string option" where
  "normalizeServerURL brackets raw =
     (let s = trim_space raw in
      if s = '''' \<or> list_ex control_char s then None
      else (case get_scheme s of
              None \<Rightarrow> None
            | Some (sch, rest) \<Rightarrow>
                if suffix ''?'' rest \<and> CHR ''?'' \<notin> set (butlast rest)
                then server_url brackets (map lower_char sch) (butlast rest) '''' True
                else (case split_first CHR ''?'' rest of
                        None \<Rightarrow> server_url brackets (map lower_char sch) rest '''' False
                      | Some (before, query) \<Rightarrow> server_url brackets (map lower_char sch) before query False)))"

section \<open>Files\<close>

datatype file_kind = Regular | Directory | Symlink | OtherKind

record node =
  nd_kind :: file_kind
  nd_perm :: "32 word"
  nd_data :: string

type_synonym files = "string \<Rightarrow> node option"

text \<open>The calls that can fail, and what a process has of its surroundings.\<close>

datatype os_call = OsLstatDir | OsLstatFile | OsRead | OsMkdir | OsTemp | OsChmod | OsWrite | OsSync
  | OsClose | OsRename | OsRemoveTemp | OsRemove

record os_world =
  ow_getenv :: "string \<Rightarrow> string"
  ow_fails :: "os_call \<Rightarrow> bool"
  ow_temp :: string
  ow_written :: nat
  ow_link_is_dir :: bool
  ow_umask :: "32 word"
  ow_brackets :: "string \<Rightarrow> string option"

datatype lstat = Missing | LstatError | Found node

definition Lstat :: "os_world \<Rightarrow> os_call \<Rightarrow> files \<Rightarrow> string \<Rightarrow> lstat" where
  "Lstat w k fs p =
     (if ow_fails w k then LstatError else (case fs p of None \<Rightarrow> Missing | Some nd \<Rightarrow> Found nd))"

datatype cred_error =
    NoHome | DirMissing | DirUnreadable | DirNotDirectory | DirPermissive
  | FileMissing | FileUnreadable | FileNotRegular | FilePermissive | ReadFailed | ParseFailed
  | NoCredentials | BadServerURL | MkdirFailed | PathSymlink | PathNotRegular | InspectFailed
  | TempFailed | SecureFailed | WriteFailed | SyncFailed | CloseFailed | ReplaceFailed
  | DeleteFailed | NotAuthenticated | NoServer | NoToken

text \<open>Permission bits are a \<open>uint32\<close>; \<open>0077\<close> and \<open>0066\<close> are octal.\<close>

definition checkCredentialDir :: "os_world \<Rightarrow> files \<Rightarrow> string \<Rightarrow> cred_error option" where
  "checkCredentialDir w fs dir =
     (case Lstat w OsLstatDir fs dir of
        Missing \<Rightarrow> Some DirMissing
      | LstatError \<Rightarrow> Some DirUnreadable
      | Found nd \<Rightarrow>
          if nd_kind nd \<noteq> Directory then Some DirNotDirectory
          else if nd_perm nd AND 63 \<noteq> 0 then Some DirPermissive
          else None)"

definition checkFilePerms :: "os_world \<Rightarrow> files \<Rightarrow> string \<Rightarrow> cred_error option" where
  "checkFilePerms w fs path =
     (case Lstat w OsLstatFile fs path of
        Missing \<Rightarrow> Some FileMissing
      | LstatError \<Rightarrow> Some FileUnreadable
      | Found nd \<Rightarrow>
          if nd_kind nd \<noteq> Regular then Some FileNotRegular
          else if nd_perm nd AND 54 \<noteq> 0 then Some FilePermissive
          else None)"

record credentials =
  cd_server :: string
  cd_token :: string

text \<open>\<open>json.Unmarshal\<close> into the struct.\<close>

definition credential_fields :: gostruct where
  "credential_fields = [(''server'', FStr ''''), (''token'', FStr '''')]"

definition parse_credentials :: "string \<Rightarrow> credentials option" where
  "parse_credentials s =
     (case parse_value s of
        Done v r \<Rightarrow>
          if skip_ws r \<noteq> [] then None
          else map_option (\<lambda>g. \<lparr>cd_server = get_str ''server'' g, cd_token = get_str ''token'' g\<rparr>)
                 (decode_struct False credential_fields v)
      | _ \<Rightarrow> None)"

text \<open>\<open>os.ReadFile\<close> of a path that was a regular file when it was checked.\<close>

definition ReadCredentials :: "os_world \<Rightarrow> files \<Rightarrow> cred_error + credentials option" where
  "ReadCredentials w fs =
     (case credentialPath (ow_getenv w) of
        None \<Rightarrow> Inl NoHome
      | Some path \<Rightarrow>
          (case checkCredentialDir w fs (dir_of path) of
             Some err \<Rightarrow> if err = DirMissing then Inr None else Inl err
           | None \<Rightarrow>
               (case checkFilePerms w fs path of
                  Some err \<Rightarrow> if err = FileMissing then Inr None else Inl err
                | None \<Rightarrow>
                    if ow_fails w OsRead then Inl ReadFailed
                    else (case fs path of
                            None \<Rightarrow> Inl ReadFailed
                          | Some nd \<Rightarrow>
                              (case parse_credentials (nd_data nd) of
                                 None \<Rightarrow> Inl ParseFailed
                               | Some c \<Rightarrow> Inr (Some c))))))"

text \<open>
  \<open>os.MkdirAll\<close>: an existing directory, or a link to one, is enough.  The parents that it makes are
  not looked at by anything else and are left out.
\<close>

definition MkdirAll :: "os_world \<Rightarrow> files \<Rightarrow> string \<Rightarrow> files option" where
  "MkdirAll w fs dir =
     (if ow_fails w OsMkdir then None
      else (case fs dir of
              None \<Rightarrow> Some (fs(dir \<mapsto> \<lparr>nd_kind = Directory, nd_perm = 448 AND NOT (ow_umask w), nd_data = ''''\<rparr>))
            | Some nd \<Rightarrow>
                if nd_kind nd = Directory \<or> (nd_kind nd = Symlink \<and> ow_link_is_dir w) then Some fs else None))"

text \<open>\<open>json.MarshalIndent\<close> of the struct with two spaces.\<close>

definition credentials_text :: "credentials \<Rightarrow> string" where
  "credentials_text c =
     ''{\<newline>  '' @ json_string ''server'' @ '': '' @ json_string (cd_server c) @ '',\<newline>  '' @
     json_string ''token'' @ '': '' @ json_string (cd_token c) @ ''\<newline>}''"

definition temp_node :: "32 word \<Rightarrow> string \<Rightarrow> node" where
  "temp_node perm text = \<lparr>nd_kind = Regular, nd_perm = perm, nd_data = text\<rparr>"

text \<open>
  From the temporary file to the end.  Its name is \<open>ow_temp\<close>, which \<open>os.CreateTemp\<close> chooses among the
  names that do not exist; whatever happens after it was made, its removal is tried.
\<close>

definition replace_file :: "os_world \<Rightarrow> string \<Rightarrow> string \<Rightarrow> string \<Rightarrow> files \<Rightarrow> files \<times> cred_error option" where
  "replace_file w dir path text fs =
     (let tmp = dir @ ''/.credentials-'' @ ow_temp w;
          clean = (\<lambda>fs :: files. if ow_fails w OsRemoveTemp then fs else fs(tmp := None));
          at = (\<lambda>nd. fs(tmp \<mapsto> nd))
      in if ow_fails w OsTemp \<or> fs tmp \<noteq> None then (fs, Some TempFailed)
         else if ow_fails w OsChmod then (clean (at (temp_node (384 AND NOT (ow_umask w)) '''')), Some SecureFailed)
         else if ow_fails w OsWrite then (clean (at (temp_node 384 (take (ow_written w) text))), Some WriteFailed)
         else if ow_fails w OsSync then (clean (at (temp_node 384 text)), Some SyncFailed)
         else if ow_fails w OsClose then (clean (at (temp_node 384 text)), Some CloseFailed)
         else if ow_fails w OsRename then (clean (at (temp_node 384 text)), Some ReplaceFailed)
         else (clean (fs(path \<mapsto> temp_node 384 text, tmp := None)), None))"

definition WriteCredentials :: "os_world \<Rightarrow> credentials option \<Rightarrow> files \<Rightarrow> files \<times> cred_error option" where
  "WriteCredentials w cred fs =
     (case cred of
        None \<Rightarrow> (fs, Some NoCredentials)
      | Some c \<Rightarrow>
          (case normalizeServerURL (ow_brackets w) (cd_server c) of
             None \<Rightarrow> (fs, Some BadServerURL)
           | Some url \<Rightarrow>
               (case credentialPath (ow_getenv w) of
                  None \<Rightarrow> (fs, Some NoHome)
                | Some path \<Rightarrow>
                    (case MkdirAll w fs (dir_of path) of
                       None \<Rightarrow> (fs, Some MkdirFailed)
                     | Some fs1 \<Rightarrow>
                         (case checkCredentialDir w fs1 (dir_of path) of
                            Some err \<Rightarrow> (fs1, Some err)
                          | None \<Rightarrow>
                              (let text = credentials_text (c\<lparr>cd_server := url\<rparr>)
                               in case Lstat w OsLstatFile fs1 path of
                                    LstatError \<Rightarrow> (fs1, Some InspectFailed)
                                  | Missing \<Rightarrow> replace_file w (dir_of path) path text fs1
                                  | Found nd \<Rightarrow>
                                      if nd_kind nd = Symlink then (fs1, Some PathSymlink)
                                      else if nd_kind nd \<noteq> Regular then (fs1, Some PathNotRegular)
                                      else replace_file w (dir_of path) path text fs1))))))"

definition DeleteCredentials :: "os_world \<Rightarrow> files \<Rightarrow> files \<times> cred_error option" where
  "DeleteCredentials w fs =
     (case credentialPath (ow_getenv w) of
        None \<Rightarrow> (fs, Some NoHome)
      | Some path \<Rightarrow>
          if fs path = None then (fs, None)
          else if ow_fails w OsRemove then (fs, Some DeleteFailed)
          else (fs(path := None), None))"

definition ResolveCredentials :: "os_world \<Rightarrow> files \<Rightarrow> cred_error + credentials" where
  "ResolveCredentials w fs =
     (let server = ow_getenv w ''HATCHWAY_SERVER''; token = ow_getenv w ''HATCHWAY_TOKEN'';
          found = (if server \<noteq> '''' \<and> token \<noteq> '''' then Inr (Some \<lparr>cd_server = '''', cd_token = ''''\<rparr>)
                   else ReadCredentials w fs)
      in case found of
           Inl err \<Rightarrow> Inl err
         | Inr cred \<Rightarrow>
             if cred = None \<and> server = '''' \<and> token = '''' then Inl NotAuthenticated
             else (let c0 = (case cred of None \<Rightarrow> \<lparr>cd_server = '''', cd_token = ''''\<rparr> | Some c \<Rightarrow> c);
                       c1 = (if server \<noteq> '''' then c0\<lparr>cd_server := server\<rparr> else c0);
                       c = (if token \<noteq> '''' then c1\<lparr>cd_token := token\<rparr> else c1)
                   in if cd_server c = '''' then Inl NoServer
                      else if cd_token c = '''' then Inl NoToken
                      else (case normalizeServerURL (ow_brackets w) (cd_server c) of
                              None \<Rightarrow> Inl BadServerURL
                            | Some url \<Rightarrow> Inr (c\<lparr>cd_server := url\<rparr>))))"

section \<open>What is written is read\<close>

lemma scan_member_string:
  "list_all is_ascii s \<Longrightarrow>
   scan_value (Suc n) depth (CHR '' '' # quote_char # concat (map json_escape s) @ quote_char # r) = Done (written_string s) r"
  by (simp add: skip_ws_def json_space_def quote_char_def raw_escaped_string [unfolded quote_char_def] unquote_escaped written_string_def)

lemma scan_members_step:
  assumes "expect quote_char s = Done () r0" "scan_string r0 = Done key r1" "expect CHR '':'' r1 = Done () r2"
    "scan_value n depth r2 = Done v r3"
  shows "scan_members (Suc n) depth s =
    (case skip_ws r3 of [] \<Rightarrow> More
     | c # r4 \<Rightarrow> if c = CHR ''}'' then Done [(key, v)] r4
                 else if c = CHR '','' then scan_map (\<lambda>ms. (key, v) # ms) (scan_members n depth r4)
                 else Bad)"
  by (simp add: assms)

lemma credentials_text_read:
  assumes "list_all is_ascii (cd_server c)" "list_all is_ascii (cd_token c)"
  shows "parse_credentials (credentials_text c) = Some c"
proof -
  let ?t = "credentials_text c"
  define sv where "sv = concat (map json_escape (cd_server c))"
  define tk where "tk = concat (map json_escape (cd_token c))"
  have keys: "concat (map json_escape ''server'') = ''server''" "concat (map json_escape ''token'') = ''token''"
    by (simp_all add: json_escape_def)
  have js: "json_string ''server'' = quote_char # ''server'' @ [quote_char]" "json_string ''token'' = quote_char # ''token'' @ [quote_char]"
    using keys by (simp_all only: json_string_def) simp_all
  define t2 where "t2 = CHR 0x0A # CHR '' '' # CHR '' '' # quote_char # ''token'' @ quote_char # CHR '':'' # CHR '' '' # quote_char # tk @ quote_char # ''\<newline>}''"
  let ?t1 = "CHR 0x0A # CHR '' '' # CHR '' '' # quote_char # ''server'' @ quote_char # CHR '':'' # CHR '' '' # quote_char # sv @ quote_char # CHR '','' # t2"
  have t: "?t = CHR ''{'' # ?t1"
    by (simp add: credentials_text_def js json_string_def [of "cd_server c"] json_string_def [of "cd_token c"] sv_def tk_def t2_def)
  have sp: "json_space CHR 0x0A" "json_space CHR '' ''" "\<not> json_space quote_char" "quote_char \<noteq> CHR ''}''"
    by (simp_all add: json_space_def quote_char_def)
  have k: "scan_string (''server'' @ quote_char # r) = Done ''server'' r" "scan_string (''token'' @ quote_char # r) = Done ''token'' r" for r
    using scan_string_text [of "''server''" r] scan_string_text [of "''token''" r] unfolding keys
    by (simp_all add: is_ascii_def)
  have colon: "expect CHR '':'' (CHR '':'' # r) = Done () r" for r
    by (simp add: expect_def skip_ws_def json_space_def)
  have quote: "expect quote_char (CHR 0x0A # CHR '' '' # CHR '' '' # quote_char # r) = Done () r" for r
    using sp by (simp add: expect_def skip_ws_def)
  have m2: "scan_members (Suc (Suc n)) depth t2 = Done [(''token'', written_string (cd_token c))] []" for n depth
    unfolding t2_def scan_members_step [OF quote k(2) colon scan_member_string [OF assms(2), folded tk_def]]
    by (simp add: skip_ws_def json_space_def)
  have m1: "scan_members (Suc (Suc (Suc n))) depth ?t1 =
      Done [(''server'', written_string (cd_server c)), (''token'', written_string (cd_token c))] []" for n depth
    unfolding scan_members_step [OF quote k(1) colon scan_member_string [OF assms(1), folded sv_def]]
    by (simp add: skip_ws_def json_space_def m2 del: scan_members.simps)
  have "length ?t \<ge> 2" by (simp add: t)
  then have "2 * length ?t + 1 = Suc (Suc (Suc (Suc (2 * length ?t - 3))))" by linarith
  then obtain n where n: "2 * length ?t + 1 = Suc (Suc (Suc (Suc n)))" ..
  have "parse_value ?t = Done (VObj [(''server'', written_string (cd_server c)), (''token'', written_string (cd_token c))]) []"
  proof -
    have "parse_value ?t = scan_value (Suc (Suc (Suc (Suc n)))) 10000 ?t" by (simp only: parse_value_def n)
    also have "\<dots> = scan_map VObj (scan_members (Suc (Suc (Suc n))) 9999 ?t1)"
      unfolding t using sp by (simp add: skip_ws_def json_space_def del: scan_members.simps)
    finally show ?thesis by (simp only: m1 scan_map.simps)
  qed
  then show ?thesis
    by (simp add: parse_credentials_def skip_ws_def decode_struct_def credential_fields_def match_field_def
        get_str_def)
qed

section \<open>Where the files are\<close>

lemma split_char_glue:
  "split_char d (a @ d # b) = split_char d a @ split_char d b"
  by (induction a) (auto split: list.split)

lemma join_with_snoc: "\<exists>p. join_with d (xs @ [w]) = p @ w \<and> (xs \<noteq> [] \<longrightarrow> p = join_with d xs @ d) \<and> (xs = [] \<longrightarrow> p = [])"
proof (induction d xs rule: join_with.induct)
  case (3 d v w' ws)
  then show ?case by (cases ws) auto
qed auto

definition normal_element :: "string \<Rightarrow> bool" where
  "normal_element w \<longleftrightarrow> w \<notin> {'''', ''.'', ''..''} \<and> CHR ''/'' \<notin> set w"

lemma clean_step_normal: "normal_element w \<Longrightarrow> clean_step rooted st w = w # st"
  by (simp add: normal_element_def)

lemma clean_step_empty [simp]: "clean_step rooted st '''' = st"
  by simp

declare clean_step.simps [simp del]

lemma join_last_two:
  assumes "r \<in> {'''', ''/''}"
  shows "\<exists>q. r @ join_with ''/'' (rev (w # v # st)) = q @ v @ ''/'' @ w \<and> (q = '''' \<or> (\<exists>q'. q = q' @ ''/''))"
proof -
  obtain p where p: "join_with ''/'' (rev st @ [v]) = p @ v" "rev st \<noteq> [] \<longrightarrow> p = join_with ''/'' (rev st) @ ''/''"
    "rev st = [] \<longrightarrow> p = []"
    using join_with_snoc [of "''/''" "rev st" v] by blast
  obtain p2 where p2: "join_with ''/'' ((rev st @ [v]) @ [w]) = p2 @ w" "p2 = join_with ''/'' (rev st @ [v]) @ ''/''"
    using join_with_snoc [of "''/''" "rev st @ [v]" w] by auto
  have "r @ p = '''' \<or> (\<exists>q'. r @ p = q' @ ''/'')" using assms p(2,3) by (cases "st = []") auto
  then show ?thesis using p(1) p2 by (intro exI [of _ "r @ p"]) simp
qed

text \<open>A cleaned path ends with its last two elements when they are plain names.\<close>

lemma clean_path_two:
  assumes v: "normal_element v" and w: "normal_element w"
  shows "\<exists>q. clean_path (a @ ''/'' @ v @ ''/'' @ w) = q @ v @ ''/'' @ w \<and> (q = '''' \<or> (\<exists>q'. q = q' @ ''/''))"
proof -
  let ?s = "a @ ''/'' @ v @ ''/'' @ w"
  let ?r = "if prefix ''/'' ?s then ''/'' else ''''"
  have "split_char CHR ''/'' ?s = split_char CHR ''/'' a @ [v, w]"
    using split_char_glue [of "CHR ''/''" a "v @ ''/'' @ w"] split_char_glue [of "CHR ''/''" v w]
      split_char_single [of "CHR ''/''" v] split_char_single [of "CHR ''/''" w] v w
    by (simp add: normal_element_def)
  then obtain st where "foldl (clean_step (prefix ''/'' ?s)) [] (split_char CHR ''/'' ?s) = w # v # st"
    by (simp add: clean_step_normal v w)
  moreover obtain q where q: "?r @ join_with ''/'' (rev (w # v # st)) = q @ v @ ''/'' @ w" "q = '''' \<or> (\<exists>q'. q = q' @ ''/'')"
    using join_last_two [of ?r w v st] by (cases "prefix ''/'' ?s") (simp only: if_True if_False insertI1 insertI2 singletonI, blast)+
  moreover have "q @ v @ ''/'' @ w \<noteq> ''''" by simp
  ultimately show ?thesis unfolding clean_path_def Let_def by metis
qed

lemma clean_path_dir:
  assumes v: "normal_element v" and q: "q = '''' \<or> (\<exists>q'. q = q' @ ''/'')"
  shows "\<exists>p. clean_path (q @ v @ ''/'') = p @ v"
proof -
  let ?s = "q @ v @ ''/''"
  have "split_char CHR ''/'' (v @ ''/'') = [v, '''']"
    using split_char_glue [of "CHR ''/''" v "''''"] split_char_single [of "CHR ''/''" v] v by (simp add: normal_element_def)
  then have "\<exists>ws. split_char CHR ''/'' ?s = ws @ [v, '''']"
    using q split_char_glue [of "CHR ''/''" _ "v @ ''/''"] by (cases "q = ''''") auto
  then obtain st where st: "foldl (clean_step (prefix ''/'' ?s)) [] (split_char CHR ''/'' ?s) = v # st"
    by (auto simp: clean_step_normal v)
  obtain p where "join_with ''/'' (rev (v # st)) = p @ v" using join_with_snoc [of "''/''" "rev st" v] by auto
  moreover have "v \<noteq> []" using v by (simp add: normal_element_def)
  ultimately show ?thesis unfolding clean_path_def Let_def st by (auto intro: exI [of _ "''/'' @ p"] exI [of _ p])
qed

lemma fixed_names: "normal_element ''hatchway''" "normal_element credFileName"
  by (simp_all add: normal_element_def credFileName_def)

lemma clean_path_nonempty: "clean_path s \<noteq> ''''"
  by (simp add: clean_path_def Let_def)

text \<open>The file, its directory and any temporary file beside it are different.\<close>

lemma credential_paths:
  assumes "credentialPath getenv = Some path" "CHR ''/'' \<notin> set t"
  shows "dir_of path \<noteq> path" "dir_of path @ ''/.credentials-'' @ t \<noteq> path"
proof -
  have "\<exists>a. a \<noteq> '''' \<and> path = join_path [a, ''hatchway'', credFileName]"
    using assms(1) clean_path_nonempty by (auto simp: credentialPath_def join_path_def Let_def split: if_splits)
  then obtain a where "path = clean_path (a @ ''/'' @ ''hatchway'' @ ''/'' @ credFileName)"
    by (auto simp: join_path_def)
  with clean_path_two [OF fixed_names, of a] obtain q where q: "path = q @ ''hatchway'' @ ''/'' @ credFileName"
    "q = '''' \<or> (\<exists>q'. q = q' @ ''/'')" by blast
  have "rev (dropWhile (\<lambda>c. c \<noteq> CHR ''/'') (rev path)) = q @ ''hatchway'' @ ''/''"
    unfolding q(1) by (simp add: credFileName_def)
  with clean_path_dir [OF fixed_names(1) q(2)] obtain p where d: "dir_of path = p @ ''hatchway''" by (auto simp: dir_of_def)
  show "dir_of path \<noteq> path"
  proof
    assume "dir_of path = path"
    then have "last (p @ ''hatchway'') = last (q @ ''hatchway'' @ ''/'' @ credFileName)" using d q(1) by metis
    then show False by (simp add: credFileName_def)
  qed
  show "dir_of path @ ''/.credentials-'' @ t \<noteq> path"
  proof
    assume "dir_of path @ ''/.credentials-'' @ t = path"
    then have "(p @ ''hatchway'') @ ''/'' @ (''.credentials-'' @ t) = (q @ ''hatchway'') @ ''/'' @ credFileName"
      using d q(1) by (metis append.assoc append_Cons append_Nil)
    moreover have last: "rev (takeWhile (\<lambda>c. c \<noteq> CHR ''/'') (rev (x @ ''/'' @ w))) = w" if "CHR ''/'' \<notin> set w" for x w :: string
    proof -
      have "takeWhile (\<lambda>c. c \<noteq> CHR ''/'') (rev w @ CHR ''/'' # rev x) = rev w"
        using that by (subst takeWhile_append2) auto
      then show ?thesis by simp
    qed
    moreover have "CHR ''/'' \<notin> set (''.credentials-'' @ t)" "CHR ''/'' \<notin> set credFileName"
      using assms(2) by (simp_all add: credFileName_def)
    ultimately have "''.credentials-'' @ t = credFileName" by metis
    then show False by (simp add: credFileName_def)
  qed
qed

section \<open>Properties\<close>

lemma host_plain_ascii: "host_plain c \<Longrightarrow> is_ascii c"
  by (auto simp: host_plain_def unreserved_def is_lower_def is_upper_def is_digit_def in_range_def is_ascii_def)

lemma percent_ascii: "list_all is_ascii (percent c)"
proof -
  have "list_all is_ascii upper_hex" "length upper_hex = 16" by code_simp+
  then have "is_ascii (upper_hex ! n)" if "n < 16" for n using that by (simp add: list_all_length)
  moreover have "byte c div 16 < 16" "byte c mod 16 < 16" by (simp_all add: less_mult_imp_div_less)
  ultimately show ?thesis by (simp add: percent_def is_ascii_def)
qed

lemma escape_host_ascii: "list_all is_ascii (escape_host s)"
  using host_plain_ascii percent_ascii by (induction s) (auto simp: escape_host_def)

lemma trim_suffix_all: "list_all P s \<Longrightarrow> list_all P (trim_suffix x s)"
  by (auto simp: trim_suffix_def list_all_iff dest: in_set_takeD)

lemma server_url_ascii:
  assumes "server_url brackets scheme rest query force = Some url"
  shows "list_all is_ascii url"
proof -
  define authority where "authority = takeWhile (\<lambda>c. c \<noteq> CHR ''/'') (drop 2 rest)"
  define path where "path = dropWhile (\<lambda>c. c \<noteq> CHR ''/'') (drop 2 rest)"
  define tail where "tail = (if force then ''?'' else '''')"
  note run = assms [unfolded server_url_def Let_def, folded authority_def path_def tail_def]
  have s: "scheme \<in> {''http'', ''https''}" using run by (simp split: if_split_asm)
  obtain host where h: "parse_host brackets authority = Some host"
    using run by (cases "parse_host brackets authority") (simp_all split: if_split_asm)
  have p: "path \<in> {'''', ''/''}" and u: "url = trim_suffix ''/'' (scheme @ ''://'' @ escape_host host @ path @ tail)"
    using run unfolding h option.case by (simp_all split: if_split_asm)
  have "list_all is_ascii (scheme @ ''://'' @ escape_host host @ path @ tail)"
    using s p escape_host_ascii [of host] by (auto simp: is_ascii_def tail_def)
  then show ?thesis unfolding u by (rule trim_suffix_all)
qed

lemma normalize_ascii: "normalizeServerURL brackets raw = Some url \<Longrightarrow> list_all is_ascii url"
  unfolding normalizeServerURL_def Let_def
  by (simp split: if_split_asm option.split_asm prod.split_asm) (blast dest: server_url_ascii)+

lemma replace_file_result:
  assumes "replace_file w dir path text fs = (fs', res)" "dir @ ''/.credentials-'' @ ow_temp w \<noteq> path"
  shows "fs' path = (if res = None then Some (temp_node 384 text) else fs path)"
    and "p \<noteq> path \<Longrightarrow> p \<noteq> dir @ ''/.credentials-'' @ ow_temp w \<Longrightarrow> fs' p = fs p"
  using assms by (auto simp: replace_file_def Let_def split: if_splits)

lemma MkdirAll_SomeD: "MkdirAll w fs dir = Some fs1 \<Longrightarrow> p \<noteq> dir \<Longrightarrow> fs1 p = fs p"
  by (auto simp: MkdirAll_def split: if_splits option.splits)

lemma checkCredentialDir_None:
  "checkCredentialDir w fs dir = None \<longleftrightarrow>
     \<not> ow_fails w OsLstatDir \<and> (\<exists>nd. fs dir = Some nd \<and> nd_kind nd = Directory \<and> nd_perm nd AND 63 = 0)"
  by (auto simp: checkCredentialDir_def Lstat_def split: option.splits if_splits)

text \<open>What a write comes to: an error that leaves the file alone, or the new file in a private directory.\<close>

lemma WriteCredentials_cases:
  assumes run: "WriteCredentials w (Some c) fs = (fs', res)" and path: "credentialPath (ow_getenv w) = Some path"
    and tmp: "CHR ''/'' \<notin> set (ow_temp w)"
  shows "(res \<noteq> None \<and> fs' path = fs path) \<or>
     (\<exists>url. res = None \<and> normalizeServerURL (ow_brackets w) (cd_server c) = Some url \<and>
        fs' path = Some (temp_node 384 (credentials_text (c\<lparr>cd_server := url\<rparr>))) \<and>
        (\<exists>nd. fs' (dir_of path) = Some nd \<and> nd_kind nd = Directory \<and> nd_perm nd AND 63 = 0))"
proof (cases "normalizeServerURL (ow_brackets w) (cd_server c)")
  case None
  then show ?thesis using run by (auto simp: WriteCredentials_def)
next
  case (Some url)
  note url = this
  note paths = credential_paths [OF path tmp]
  show ?thesis
  proof (cases "MkdirAll w fs (dir_of path)")
    case None
    then show ?thesis using run url path by (auto simp: WriteCredentials_def)
  next
    case (Some fs1)
    then have fs1: "fs1 path = fs path" using MkdirAll_SomeD paths(1) by metis
    note start = run [unfolded WriteCredentials_def option.case url path Some]
    show ?thesis
    proof (cases "checkCredentialDir w fs1 (dir_of path)")
      case err: (Some err)
      then show ?thesis using start fs1 by auto
    next
      case None
      let ?text = "credentials_text (c\<lparr>cd_server := url\<rparr>)"
      from start None have "(res \<noteq> None \<and> fs' = fs1) \<or> replace_file w (dir_of path) path ?text fs1 = (fs', res)"
        by (auto simp: Let_def split: lstat.splits if_splits)
      then show ?thesis
      proof
        assume "res \<noteq> None \<and> fs' = fs1"
        then show ?thesis using fs1 by simp
      next
        assume r: "replace_file w (dir_of path) path ?text fs1 = (fs', res)"
        have "fs' (dir_of path) = fs1 (dir_of path)"
          by (rule replace_file_result(2) [OF r paths(2) paths(1)]) simp
        with replace_file_result(1) [OF r paths(2)] None fs1 url show ?thesis
          by (cases res) (auto simp: checkCredentialDir_None)
      qed
    qed
  qed
qed

text \<open>
  C37: What \<open>hatchway auth set-token\<close> writes is what the next command reads: when the write succeeds, the stored file
  is private (mode 0600) and reads back as the token with the normalised server; when it fails, at whatever
  call, the file that was there is untouched.
\<close>

theorem credentials_roundtrip:
  assumes "WriteCredentials w (Some c) fs = (fs', res)" "credentialPath (ow_getenv w) = Some path"
    and "CHR ''/'' \<notin> set (ow_temp w)" "list_all is_ascii (cd_token c)"
    and "ow_getenv w' = ow_getenv w" "\<And>k. \<not> ow_fails w' k"
  shows "(res \<noteq> None \<and> fs' path = fs path) \<or>
     (\<exists>url nd. res = None \<and> normalizeServerURL (ow_brackets w) (cd_server c) = Some url \<and>
        fs' path = Some nd \<and> nd_kind nd = Regular \<and> nd_perm nd = 384 \<and>
        ReadCredentials w' fs' = Inr (Some (c\<lparr>cd_server := url\<rparr>)))"
  using WriteCredentials_cases [OF assms(1-3)]
proof (elim disjE exE conjE)
  fix url nd
  assume url: "res = None" "normalizeServerURL (ow_brackets w) (cd_server c) = Some url"
    and stored: "fs' path = Some (temp_node 384 (credentials_text (c\<lparr>cd_server := url\<rparr>)))"
    and dir: "fs' (dir_of path) = Some nd" "nd_kind nd = Directory" "nd_perm nd AND 63 = 0"
  have "parse_credentials (credentials_text (c\<lparr>cd_server := url\<rparr>)) = Some (c\<lparr>cd_server := url\<rparr>)"
    by (rule credentials_text_read) (use normalize_ascii [OF url(2)] assms(4) in simp_all)
  moreover have "checkCredentialDir w' fs' (dir_of path) = None"
    using dir assms(6) by (simp add: checkCredentialDir_None)
  moreover have "checkFilePerms w' fs' path = None"
    using stored assms(6) by (simp add: checkFilePerms_def Lstat_def temp_node_def)
  ultimately have "ReadCredentials w' fs' = Inr (Some (c\<lparr>cd_server := url\<rparr>))"
    using stored assms(2,5,6) by (simp add: ReadCredentials_def temp_node_def)
  then show ?thesis using url stored by (simp add: temp_node_def)
qed blast

definition sample_os :: os_world where
  "sample_os =
     \<lparr>ow_getenv = (\<lambda>v. if v = ''XDG_CONFIG_HOME'' then ''/c'' else ''''), ow_fails = (\<lambda>_. False), ow_temp = ''1'',
      ow_written = 0, ow_link_is_dir = False, ow_umask = 18, ow_brackets = (\<lambda>_. None)\<rparr>"

lemma sample_url: "normalizeServerURL (ow_brackets sample_os) ''https://h:8/'' = Some ''https://h:8''"
proof -
  have t: "trim_space ''https://h:8/'' = ''https://h:8/''"
    by (rule trim_space_id) (simp_all add: is_ascii_def is_space_ascii_def)
  show ?thesis unfolding normalizeServerURL_def Let_def t by code_simp
qed

lemma sample_path:
  "credentialPath (ow_getenv sample_os) = Some ''/c/hatchway/credentials.json''"
  "dir_of ''/c/hatchway/credentials.json'' = ''/c/hatchway''"
  by code_simp+

theorem credentials_roundtrip_witness:
  "\<exists>fs'. WriteCredentials sample_os (Some \<lparr>cd_server = ''https://h:8/'', cd_token = ''t''\<rparr>) (\<lambda>_. None) = (fs', None) \<and>
     ReadCredentials sample_os fs' = Inr (Some \<lparr>cd_server = ''https://h:8'', cd_token = ''t''\<rparr>)"
proof -
  let ?c = "\<lparr>cd_server = ''https://h:8/'', cd_token = ''t''\<rparr>"
  obtain fs' res where run: "WriteCredentials sample_os (Some ?c) (\<lambda>_. None) = (fs', res)" by (metis surj_pair)
  have "snd (WriteCredentials sample_os (Some ?c) (\<lambda>_. None)) = None"
    unfolding WriteCredentials_def option.case sample_path
    by (simp add: sample_url sample_path MkdirAll_def checkCredentialDir_def Lstat_def replace_file_def Let_def)
       (simp add: sample_os_def)
  then have res: "res = None" by (simp add: run)
  have "CHR ''/'' \<notin> set (ow_temp sample_os)" "list_all is_ascii (cd_token ?c)" "\<And>k. \<not> ow_fails sample_os k"
    by (simp_all add: sample_os_def is_ascii_def)
  from credentials_roundtrip [OF run sample_path(1) this(1,2) refl this(3)] run sample_url res show ?thesis by auto
qed

text \<open>An empty query passes the check, and the base of all requests then ends in a question mark.\<close>

lemma empty_query_accepted: "normalizeServerURL (\<lambda>_. None) ''http://h?'' = Some ''http://h?''"
proof -
  have t: "trim_space ''http://h?'' = ''http://h?''"
    by (rule trim_space_id) (simp_all add: is_ascii_def is_space_ascii_def)
  show ?thesis unfolding normalizeServerURL_def Let_def t by code_simp
qed

end
