(* ===== verification/FrpProcess.thy ===== *)
theory FrpProcess
  imports HwPrelude
begin

text \<open>
  The supervised child process (\<open>internal/frp/process.go\<close>): a manager whose mutex guards which run is
  the current one and whether it is running, one goroutine per run that waits for its end, and any
  number of callers of \<open>Start\<close>, \<open>Stop\<close>, \<open>Wait\<close>, \<open>Running\<close> and \<open>RestartWithBackoff\<close>.  Every section of
  code under the mutex is one function of the state, every wait is a step of its own, and
  \<open>frp_step\<close> interleaves all of them with the exits that the operating system reports.
\<close>

section \<open>State\<close>

datatype signal = Interrupt | Kill

text \<open>
  \<open>pn_exit\<close> is what \<open>cmd.Wait\<close> returns once the child has exited (None for a clean exit), \<open>pn_wait_err\<close>
  the field \<open>waitErr\<close>, which is written when \<open>pn_recorded\<close>; \<open>pn_done\<close>: the channel is closed.
\<close>

record process_run =
  pn_exited :: bool
  pn_exit :: "string option"
  pn_signals :: "signal list"
  pn_recorded :: bool
  pn_wait_err :: "string option"
  pn_done :: bool

datatype start_error = AlreadyRunning | StartFailed

datatype wait_result = NotStarted | Waited nat "string option"

text \<open>\<open>StopReturned run killed\<close>: the run that was stopped, if there was one, and whether the time ran out.\<close>

datatype call_result =
    StartReturned "start_error option"
  | StopReturned "nat option" bool
  | WaitReturned wait_result
  | RunningReturned bool
  | RestartCancelled

datatype stop_goal = JustStop | ThenRestart

text \<open>Where a caller is: before its call, between two sections of it, or after it.\<close>

datatype caller =
    Ready
  | Signalling nat stop_goal
  | Stopping nat stop_goal
  | Killing nat stop_goal
  | BackingOff
  | Restarting
  | Joining nat
  | Returned call_result

record frp_process =
  fp_run :: "nat option"
  fp_running :: bool
  fp_runs :: "process_run list"
  fp_callers :: "nat \<Rightarrow> caller"

section \<open>Operations\<close>

definition NewProcess :: frp_process where
  "NewProcess = \<lparr>fp_run = None, fp_running = False, fp_runs = [], fp_callers = (\<lambda>_. Ready)\<rparr>"

definition new_run :: process_run where
  "new_run = \<lparr>pn_exited = False, pn_exit = None, pn_signals = [], pn_recorded = False, pn_wait_err = None, pn_done = False\<rparr>"

definition on_run :: "nat \<Rightarrow> (process_run \<Rightarrow> process_run) \<Rightarrow> frp_process \<Rightarrow> frp_process" where
  "on_run i f s = s\<lparr>fp_runs := (fp_runs s)[i := f (fp_runs s ! i)]\<rparr>"

definition goto :: "nat \<Rightarrow> caller \<Rightarrow> frp_process \<Rightarrow> frp_process" where
  "goto t c s = s\<lparr>fp_callers := (fp_callers s)(t := c)\<rparr>"

text \<open>\<open>starts\<close>: whether \<open>cmd.Start\<close> succeeds.\<close>

definition Start :: "bool \<Rightarrow> frp_process \<Rightarrow> frp_process \<times> start_error option" where
  "Start starts s =
     (if fp_running s then (s, Some AlreadyRunning)
      else if \<not> starts then (s, Some StartFailed)
      else (s\<lparr>fp_runs := fp_runs s @ [new_run], fp_run := Some (length (fp_runs s)), fp_running := True\<rparr>, None))"

text \<open>The goroutine of a run, after \<open>cmd.Wait\<close> has returned.\<close>

definition record_exit :: "nat \<Rightarrow> frp_process \<Rightarrow> frp_process" where
  "record_exit i s =
     (let s1 = on_run i (\<lambda>r. r\<lparr>pn_wait_err := pn_exit r, pn_recorded := True\<rparr>) s
      in if fp_run s1 = Some i then s1\<lparr>fp_running := False\<rparr> else s1)"

definition close_done :: "nat \<Rightarrow> frp_process \<Rightarrow> frp_process" where
  "close_done i s = on_run i (\<lambda>r. r\<lparr>pn_done := True\<rparr>) s"

text \<open>\<open>Stop\<close> up to where it has captured the run; a started command always has its \<open>os.Process\<close>.\<close>

definition after_stop :: "stop_goal \<Rightarrow> nat option \<Rightarrow> bool \<Rightarrow> caller" where
  "after_stop g run killed = (case g of JustStop \<Rightarrow> Returned (StopReturned run killed) | ThenRestart \<Rightarrow> BackingOff)"

definition Stop_capture :: "stop_goal \<Rightarrow> frp_process \<Rightarrow> caller" where
  "Stop_capture g s =
     (case fp_run s of
        None \<Rightarrow> after_stop g None False
      | Some i \<Rightarrow> if \<not> fp_running s then after_stop g None False else Signalling i g)"

text \<open>\<open>interrupts\<close>: whether the interrupt can be sent; otherwise the child is killed at once.\<close>

definition Stop_signal :: "bool \<Rightarrow> nat \<Rightarrow> frp_process \<Rightarrow> frp_process" where
  "Stop_signal interrupts i s = on_run i (\<lambda>r. r\<lparr>pn_signals := pn_signals r @ [if interrupts then Interrupt else Kill]\<rparr>) s"

definition Stop_kill :: "nat \<Rightarrow> frp_process \<Rightarrow> frp_process" where
  "Stop_kill i s = on_run i (\<lambda>r. r\<lparr>pn_signals := pn_signals r @ [Kill]\<rparr>) s"

definition Wait_capture :: "frp_process \<Rightarrow> caller" where
  "Wait_capture s = (case fp_run s of None \<Rightarrow> Returned (WaitReturned NotStarted) | Some i \<Rightarrow> Joining i)"

definition Wait_result :: "nat \<Rightarrow> frp_process \<Rightarrow> wait_result" where
  "Wait_result i s = Waited i (pn_wait_err (fp_runs s ! i))"

definition Running :: "frp_process \<Rightarrow> bool" where
  "Running s = fp_running s"

definition exit_run :: "nat \<Rightarrow> string option \<Rightarrow> frp_process \<Rightarrow> frp_process" where
  "exit_run i err s = on_run i (\<lambda>r. r\<lparr>pn_exited := True, pn_exit := err\<rparr>) s"

text \<open>What the child writes is logged and taken whole.\<close>

definition Write :: "string \<Rightarrow> nat" where
  "Write p = length p"

section \<open>Steps\<close>

text \<open>
  The first group are the calls, the second the waits inside them, the last what happens to a run:
  the operating system ends it, its goroutine records that under the mutex, and closes the channel.
  A time-out and a cancelled context may come at any time.
\<close>

inductive frp_step :: "frp_process \<Rightarrow> frp_process \<Rightarrow> bool" where
  call_start: "fp_callers s t \<in> {Ready, Restarting} \<Longrightarrow> Start starts s = (s1, res) \<Longrightarrow>
     frp_step s (goto t (Returned (StartReturned res)) s1)"
| call_stop: "fp_callers s t = Ready \<Longrightarrow> frp_step s (goto t (Stop_capture g s) s)"
| call_wait: "fp_callers s t = Ready \<Longrightarrow> frp_step s (goto t (Wait_capture s) s)"
| call_running: "fp_callers s t = Ready \<Longrightarrow> frp_step s (goto t (Returned (RunningReturned (Running s))) s)"
| call_again: "fp_callers s t = Returned res \<Longrightarrow> frp_step s (goto t Ready s)"
| stop_signal: "fp_callers s t = Signalling i g \<Longrightarrow> frp_step s (goto t (Stopping i g) (Stop_signal interrupts i s))"
| stop_done: "fp_callers s t = Stopping i g \<Longrightarrow> pn_done (fp_runs s ! i) \<Longrightarrow>
     frp_step s (goto t (after_stop g (Some i) False) s)"
| stop_timeout: "fp_callers s t = Stopping i g \<Longrightarrow> frp_step s (goto t (Killing i g) (Stop_kill i s))"
| stop_killed: "fp_callers s t = Killing i g \<Longrightarrow> pn_done (fp_runs s ! i) \<Longrightarrow>
     frp_step s (goto t (after_stop g (Some i) True) s)"
| backoff_over: "fp_callers s t = BackingOff \<Longrightarrow> frp_step s (goto t Restarting s)"
| backoff_cancelled: "fp_callers s t = BackingOff \<Longrightarrow> frp_step s (goto t (Returned RestartCancelled) s)"
| wait_done: "fp_callers s t = Joining i \<Longrightarrow> pn_done (fp_runs s ! i) \<Longrightarrow>
     frp_step s (goto t (Returned (WaitReturned (Wait_result i s))) s)"
| run_exits: "i < length (fp_runs s) \<Longrightarrow> \<not> pn_exited (fp_runs s ! i) \<Longrightarrow> frp_step s (exit_run i err s)"
| run_recorded: "i < length (fp_runs s) \<Longrightarrow> pn_exited (fp_runs s ! i) \<Longrightarrow> \<not> pn_recorded (fp_runs s ! i) \<Longrightarrow>
     frp_step s (record_exit i s)"
| run_closed: "i < length (fp_runs s) \<Longrightarrow> pn_recorded (fp_runs s ! i) \<Longrightarrow> \<not> pn_done (fp_runs s ! i) \<Longrightarrow>
     frp_step s (close_done i s)"

inductive frp_reachable :: "frp_process \<Rightarrow> bool" where
  fresh: "frp_reachable NewProcess"
| next_step: "frp_reachable s \<Longrightarrow> frp_step s s' \<Longrightarrow> frp_reachable s'"

section \<open>Invariant\<close>

definition run_ok :: "process_run \<Rightarrow> bool" where
  "run_ok r \<longleftrightarrow> (pn_recorded r \<longrightarrow> pn_exited r \<and> pn_wait_err r = pn_exit r) \<and> (pn_done r \<longrightarrow> pn_recorded r)"

fun caller_ok :: "process_run list \<Rightarrow> caller \<Rightarrow> bool" where
  "caller_ok rs (Signalling i g) \<longleftrightarrow> i < length rs"
| "caller_ok rs (Stopping i g) \<longleftrightarrow> i < length rs"
| "caller_ok rs (Killing i g) \<longleftrightarrow> i < length rs \<and> Kill \<in> set (pn_signals (rs ! i))"
| "caller_ok rs (Joining i) \<longleftrightarrow> i < length rs"
| "caller_ok rs (Returned (StopReturned (Some i) killed)) \<longleftrightarrow>
     i < length rs \<and> pn_done (rs ! i) \<and> (killed \<longrightarrow> Kill \<in> set (pn_signals (rs ! i)))"
| "caller_ok rs (Returned (WaitReturned (Waited i err))) \<longleftrightarrow>
     i < length rs \<and> pn_done (rs ! i) \<and> pn_wait_err (rs ! i) = err"
| "caller_ok rs _ \<longleftrightarrow> True"

text \<open>All runs but the last are over, the last is the current one, and it runs until its end is recorded.\<close>

definition runs_ok :: "process_run list \<Rightarrow> nat option \<Rightarrow> bool \<Rightarrow> bool" where
  "runs_ok rs run running \<longleftrightarrow>
     (\<forall>r \<in> set rs. run_ok r) \<and> (\<forall>i. Suc i < length rs \<longrightarrow> pn_recorded (rs ! i)) \<and>
     run = (if rs = [] then None else Some (length rs - 1)) \<and>
     running = (rs \<noteq> [] \<and> \<not> pn_recorded (last rs))"

definition frp_ok :: "frp_process \<Rightarrow> bool" where
  "frp_ok s \<longleftrightarrow> runs_ok (fp_runs s) (fp_run s) (fp_running s) \<and> (\<forall>t. caller_ok (fp_runs s) (fp_callers s t))"

lemmas frp_op_defs = on_run_def goto_def exit_run_def close_done_def Stop_signal_def Stop_kill_def

text \<open>What a caller relies on of a run stays true of it.\<close>

definition later :: "process_run list \<Rightarrow> process_run list \<Rightarrow> bool" where
  "later rs rs' \<longleftrightarrow> length rs \<le> length rs' \<and>
     (\<forall>i < length rs. (pn_done (rs ! i) \<longrightarrow> pn_done (rs' ! i) \<and> pn_wait_err (rs' ! i) = pn_wait_err (rs ! i)) \<and>
        set (pn_signals (rs ! i)) \<subseteq> set (pn_signals (rs' ! i)))"

lemma caller_ok_later: "caller_ok rs c \<Longrightarrow> later rs rs' \<Longrightarrow> caller_ok rs' c"
  by (induction rs c rule: caller_ok.induct) (auto simp: later_def)

lemma later_refl [simp]: "later rs rs"
  by (simp add: later_def)

lemma later_update:
  assumes "i < length rs" "pn_done (rs ! i) \<Longrightarrow> pn_done r \<and> pn_wait_err r = pn_wait_err (rs ! i)"
    "set (pn_signals (rs ! i)) \<subseteq> set (pn_signals r)"
  shows "later rs (rs[i := r])"
  using assms by (auto simp: later_def nth_list_update)

lemma later_append [simp]: "later rs (rs @ rs')"
  by (simp add: later_def nth_append)

lemma frp_ok_runs:
  assumes "frp_ok s" "runs_ok rs run running" "later (fp_runs s) rs"
  shows "frp_ok (s\<lparr>fp_runs := rs, fp_run := run, fp_running := running\<rparr>)"
  using assms caller_ok_later by (auto simp: frp_ok_def)

lemma frp_ok_goto: "frp_ok s \<Longrightarrow> caller_ok (fp_runs s) c \<Longrightarrow> frp_ok (goto t c s)"
  by (simp add: frp_ok_def goto_def)

text \<open>A change of one run that leaves what is recorded of it alone.\<close>

lemma runs_ok_update:
  assumes "runs_ok rs run running" "i < length rs" "run_ok r" "pn_recorded r = pn_recorded (rs ! i)"
  shows "runs_ok (rs[i := r]) run running"
  using assms set_update_subset_insert [of rs i r]
  by (auto simp: runs_ok_def nth_list_update last_conv_nth)

lemma frp_ok_on_run:
  assumes ok: "frp_ok s" and i: "i < length (fp_runs s)" and r: "r = f (fp_runs s ! i)"
    and keeps: "run_ok r" "pn_recorded r = pn_recorded (fp_runs s ! i)"
      "pn_done (fp_runs s ! i) \<Longrightarrow> pn_done r \<and> pn_wait_err r = pn_wait_err (fp_runs s ! i)"
      "set (pn_signals (fp_runs s ! i)) \<subseteq> set (pn_signals r)"
  shows "frp_ok (on_run i f s)"
proof -
  have "runs_ok ((fp_runs s)[i := r]) (fp_run s) (fp_running s)"
    using runs_ok_update [OF _ i keeps(1,2)] ok by (simp add: frp_ok_def)
  then have "frp_ok (s\<lparr>fp_runs := (fp_runs s)[i := r], fp_run := fp_run s, fp_running := fp_running s\<rparr>)"
    using later_update [OF i keeps(3,4)] by (intro frp_ok_runs [OF ok]) auto
  then show ?thesis by (simp add: on_run_def r)
qed

lemma frp_ok_run: "frp_ok s \<Longrightarrow> i < length (fp_runs s) \<Longrightarrow> run_ok (fp_runs s ! i)"
  by (simp add: frp_ok_def runs_ok_def)

lemma frp_ok_caller: "frp_ok s \<Longrightarrow> fp_callers s t = c \<Longrightarrow> caller_ok (fp_runs s) c"
  by (auto simp: frp_ok_def)

lemma frp_ok_signal: "frp_ok s \<Longrightarrow> i < length (fp_runs s) \<Longrightarrow> frp_ok (Stop_signal b i s)"
  unfolding Stop_signal_def by (rule frp_ok_on_run [OF _ _ refl]) (auto simp: run_ok_def dest: frp_ok_run)

lemma frp_ok_kill: "frp_ok s \<Longrightarrow> i < length (fp_runs s) \<Longrightarrow> frp_ok (Stop_kill i s)"
  unfolding Stop_kill_def by (rule frp_ok_on_run [OF _ _ refl]) (auto simp: run_ok_def dest: frp_ok_run)

lemma frp_ok_exit: "frp_ok s \<Longrightarrow> i < length (fp_runs s) \<Longrightarrow> \<not> pn_exited (fp_runs s ! i) \<Longrightarrow> frp_ok (exit_run i err s)"
  unfolding exit_run_def by (rule frp_ok_on_run [OF _ _ refl]) (auto simp: run_ok_def dest: frp_ok_run)

lemma frp_ok_close: "frp_ok s \<Longrightarrow> i < length (fp_runs s) \<Longrightarrow> pn_recorded (fp_runs s ! i) \<Longrightarrow> frp_ok (close_done i s)"
  unfolding close_done_def by (rule frp_ok_on_run [OF _ _ refl]) (auto simp: run_ok_def dest: frp_ok_run)

text \<open>Only the current run can be unrecorded, so the comparison \<open>p.run == run\<close> holds whenever it is made.\<close>

lemma unrecorded_is_current:
  assumes "frp_ok s" "i < length (fp_runs s)" "\<not> pn_recorded (fp_runs s ! i)"
  shows "fp_run s = Some i \<and> i = length (fp_runs s) - 1 \<and> fp_running s"
proof -
  have "\<not> Suc i < length (fp_runs s)" using assms by (auto simp: frp_ok_def runs_ok_def)
  with assms(2) have "i = length (fp_runs s) - 1" by simp
  with assms show ?thesis by (auto simp: frp_ok_def runs_ok_def last_conv_nth)
qed

lemma frp_ok_record:
  assumes ok: "frp_ok s" and i: "i < length (fp_runs s)"
    and exited: "pn_exited (fp_runs s ! i)" and new: "\<not> pn_recorded (fp_runs s ! i)"
  shows "frp_ok (record_exit i s)"
proof -
  let ?r = "(fp_runs s ! i)\<lparr>pn_wait_err := pn_exit (fp_runs s ! i), pn_recorded := True\<rparr>"
  note cur = unrecorded_is_current [OF ok i new]
  have runs: "runs_ok (fp_runs s) (fp_run s) (fp_running s)" using ok by (simp add: frp_ok_def)
  have "\<not> pn_done (fp_runs s ! i)" using frp_ok_run [OF ok i] new by (simp add: run_ok_def)
  then have keeps: "later (fp_runs s) ((fp_runs s)[i := ?r])" by (intro later_update) (use i in auto)
  have "run_ok ?r" using exited by (simp add: run_ok_def)
  then have "\<forall>r \<in> set ((fp_runs s)[i := ?r]). run_ok r"
    using runs set_update_subset_insert [of "fp_runs s" i ?r] unfolding runs_ok_def by blast
  moreover have "pn_recorded (last ((fp_runs s)[i := ?r]))" using i cur by (subst last_list_update) auto
  moreover have "\<forall>j. Suc j < length (fp_runs s) \<longrightarrow> pn_recorded ((fp_runs s)[i := ?r] ! j)"
    using runs i by (auto simp: runs_ok_def nth_list_update)
  ultimately have "runs_ok ((fp_runs s)[i := ?r]) (fp_run s) False"
    using cur i by (auto simp: runs_ok_def)
  from frp_ok_runs [OF ok this keeps]
  have "frp_ok (s\<lparr>fp_runs := (fp_runs s)[i := ?r], fp_run := fp_run s, fp_running := False\<rparr>)" .
  moreover have "record_exit i s = s\<lparr>fp_runs := (fp_runs s)[i := ?r], fp_run := fp_run s, fp_running := False\<rparr>"
    using cur by (simp add: record_exit_def on_run_def Let_def)
  ultimately show ?thesis by (simp only:)
qed

lemma frp_ok_start: "frp_ok s \<Longrightarrow> Start starts s = (s1, res) \<Longrightarrow> frp_ok s1"
proof -
  assume ok: "frp_ok s" and run: "Start starts s = (s1, res)"
  have runs: "runs_ok (fp_runs s) (fp_run s) (fp_running s)" using ok by (simp add: frp_ok_def)
  show ?thesis
  proof (cases "fp_running s \<or> \<not> starts")
    case True
    then show ?thesis using ok run by (auto simp: Start_def split: if_splits)
  next
    case False
    have "pn_recorded (fp_runs s ! i)" if "i < length (fp_runs s)" for i
      using unrecorded_is_current [OF ok that] False by blast
    then have "runs_ok (fp_runs s @ [new_run]) (Some (length (fp_runs s))) True"
      using runs by (auto simp: runs_ok_def run_ok_def new_run_def nth_append)
    from frp_ok_runs [OF ok this] False run show ?thesis by (simp add: Start_def)
  qed
qed

lemma after_stop_ok: "caller_ok rs (Returned (StopReturned run killed)) \<Longrightarrow> caller_ok rs (after_stop g run killed)"
  by (cases g) (simp_all add: after_stop_def)

lemma Stop_capture_ok: "frp_ok s \<Longrightarrow> caller_ok (fp_runs s) (Stop_capture g s)"
  by (auto simp: Stop_capture_def frp_ok_def runs_ok_def intro: after_stop_ok split: option.split if_splits)

lemma Wait_capture_ok: "frp_ok s \<Longrightarrow> caller_ok (fp_runs s) (Wait_capture s)"
  by (auto simp: Wait_capture_def frp_ok_def runs_ok_def split: option.split if_splits)

lemma signal_runs [simp]:
  "length (fp_runs (Stop_signal b i s)) = length (fp_runs s)"
  "length (fp_runs (Stop_kill i s)) = length (fp_runs s)"
  "i < length (fp_runs s) \<Longrightarrow> Kill \<in> set (pn_signals (fp_runs (Stop_kill i s) ! i))"
  by (simp_all add: Stop_signal_def Stop_kill_def on_run_def)

lemma frp_ok_step: "frp_step s s' \<Longrightarrow> frp_ok s \<Longrightarrow> frp_ok s'"
proof (induction rule: frp_step.induct)
  case (call_start s t starts s1 res)
  then show ?case by (auto intro: frp_ok_goto frp_ok_start)
next
  case (stop_signal s t i g interrupts)
  then show ?case using frp_ok_caller [OF stop_signal(2) stop_signal(1)]
    by (auto intro!: frp_ok_goto frp_ok_signal)
next
  case (stop_timeout s t i g)
  then show ?case using frp_ok_caller [OF stop_timeout(2) stop_timeout(1)]
    by (auto intro!: frp_ok_goto frp_ok_kill)
next
  case (stop_done s t i g)
  then show ?case using frp_ok_caller [OF stop_done(3) stop_done(1)] by (auto intro!: frp_ok_goto after_stop_ok)
next
  case (stop_killed s t i g)
  then show ?case using frp_ok_caller [OF stop_killed(3) stop_killed(1)] by (auto intro!: frp_ok_goto after_stop_ok)
next
  case (wait_done s t i)
  then show ?case using frp_ok_caller [OF wait_done(3) wait_done(1)]
    by (auto intro!: frp_ok_goto simp: Wait_result_def)
qed (auto intro: frp_ok_goto frp_ok_exit frp_ok_record frp_ok_close Stop_capture_ok Wait_capture_ok)

lemma frp_ok_new: "frp_ok NewProcess"
  by (simp add: frp_ok_def runs_ok_def NewProcess_def)

lemma frp_reachable_ok: "frp_reachable s \<Longrightarrow> frp_ok s"
  by (induction rule: frp_reachable.induct) (auto intro: frp_ok_new frp_ok_step)

text \<open>
  C40: However the calls of \<open>Start\<close>, \<open>Stop\<close>, \<open>Wait\<close>, \<open>Running\<close> and \<open>RestartWithBackoff\<close> interleave with one another and
  with exiting children: at most one child is alive, namely that of the current run while the manager says
  that it is running, so a restart never leaves a second child behind; \<open>Stop\<close> returns only when the child that
  it stopped has exited, having killed it when it reports so; and \<open>Wait\<close> returns the error with which the
  child that it waited for exited.
\<close>

theorem one_child_at_a_time:
  assumes "frp_reachable s"
  shows "(\<forall>i < length (fp_runs s). \<not> pn_exited (fp_runs s ! i) \<longrightarrow> fp_run s = Some i \<and> Running s) \<and>
     (\<forall>t i killed. fp_callers s t = Returned (StopReturned (Some i) killed) \<longrightarrow>
        i < length (fp_runs s) \<and> pn_exited (fp_runs s ! i) \<and> (killed \<longrightarrow> Kill \<in> set (pn_signals (fp_runs s ! i)))) \<and>
     (\<forall>t i err. fp_callers s t = Returned (WaitReturned (Waited i err)) \<longrightarrow>
        i < length (fp_runs s) \<and> pn_exited (fp_runs s ! i) \<and> pn_exit (fp_runs s ! i) = err)"
proof -
  note ok = frp_reachable_ok [OF assms]
  have "pn_exited (fp_runs s ! i)" if "i < length (fp_runs s)" "pn_recorded (fp_runs s ! i)" for i
    using frp_ok_run [OF ok that(1)] that(2) by (simp add: run_ok_def)
  then have "fp_run s = Some i \<and> Running s" if "i < length (fp_runs s)" "\<not> pn_exited (fp_runs s ! i)" for i
    using unrecorded_is_current [OF ok that(1)] that by (auto simp: Running_def)
  moreover have "i < length (fp_runs s) \<and> pn_exited (fp_runs s ! i) \<and> (killed \<longrightarrow> Kill \<in> set (pn_signals (fp_runs s ! i)))"
    if "fp_callers s t = Returned (StopReturned (Some i) killed)" for t i killed
    using frp_ok_caller [OF ok that] frp_ok_run [OF ok, of i] by (auto simp: run_ok_def)
  moreover have "i < length (fp_runs s) \<and> pn_exited (fp_runs s ! i) \<and> pn_exit (fp_runs s ! i) = err"
    if "fp_callers s t = Returned (WaitReturned (Waited i err))" for t i err
    using frp_ok_caller [OF ok that] frp_ok_run [OF ok, of i] by (auto simp: run_ok_def)
  ultimately show ?thesis by blast
qed

definition started_process :: frp_process where
  "started_process = goto 0 (Returned (StartReturned None)) (fst (Start True NewProcess))"

lemma started_reachable: "frp_reachable started_process"
  unfolding started_process_def
  by (rule next_step [OF fresh], rule call_start [where starts = True]) (simp_all add: NewProcess_def Start_def)

theorem one_child_at_a_time_witness:
  "fp_run started_process = Some 0 \<and> Running started_process \<and> snd (Start True started_process) = Some AlreadyRunning"
proof -
  have "0 < length (fp_runs started_process)" "\<not> pn_exited (fp_runs started_process ! 0)"
    by (simp_all add: started_process_def Start_def NewProcess_def goto_def new_run_def)
  with one_child_at_a_time [OF started_reachable] have "fp_run started_process = Some 0 \<and> Running started_process" by blast
  then show ?thesis by (simp add: Start_def Running_def)
qed

text \<open>A \<open>Stop\<close> under way can always be brought to its end: the child exits, which is recorded and announced.\<close>

lemma run_can_finish:
  assumes "frp_ok s" "i < length (fp_runs s)"
  shows "\<exists>s'. frp_step\<^sup>*\<^sup>* s s' \<and> fp_callers s' = fp_callers s \<and> pn_done (fp_runs s' ! i)"
proof -
  have ends: "\<exists>s1. frp_step\<^sup>*\<^sup>* s s1 \<and> fp_callers s1 = fp_callers s \<and> i < length (fp_runs s1) \<and> pn_exited (fp_runs s1 ! i)"
    using assms(2) run_exits [of i s None]
    by (cases "pn_exited (fp_runs s ! i)") (auto simp: exit_run_def on_run_def)
  have noted: "\<exists>s2. frp_step\<^sup>*\<^sup>* s1 s2 \<and> fp_callers s2 = fp_callers s1 \<and> i < length (fp_runs s2) \<and> pn_recorded (fp_runs s2 ! i)"
    if "i < length (fp_runs s1)" "pn_exited (fp_runs s1 ! i)" for s1
    using that run_recorded [of i s1]
    by (cases "pn_recorded (fp_runs s1 ! i)") (auto simp: record_exit_def on_run_def Let_def)
  have announced: "\<exists>s3. frp_step\<^sup>*\<^sup>* s2 s3 \<and> fp_callers s3 = fp_callers s2 \<and> pn_done (fp_runs s3 ! i)"
    if "i < length (fp_runs s2)" "pn_recorded (fp_runs s2 ! i)" for s2
    using that run_closed [of i s2]
    by (cases "pn_done (fp_runs s2 ! i)") (auto simp: close_done_def on_run_def)
  from ends noted announced show ?thesis by (metis (no_types) rtranclp_trans)
qed

lemma stop_can_finish:
  assumes "frp_reachable s" "fp_callers s t \<in> {Stopping i g, Killing i g}"
  shows "\<exists>s' killed. frp_step\<^sup>*\<^sup>* s s' \<and> fp_callers s' t = after_stop g (Some i) killed"
proof -
  note ok = frp_reachable_ok [OF assms(1)]
  have "caller_ok (fp_runs s) (fp_callers s t)" using ok by (simp add: frp_ok_def)
  then have "i < length (fp_runs s)" using assms(2) by auto
  from run_can_finish [OF ok this] obtain s1 where s1: "frp_step\<^sup>*\<^sup>* s s1" "fp_callers s1 = fp_callers s"
    "pn_done (fp_runs s1 ! i)" by blast
  have "\<exists>killed. frp_step s1 (goto t (after_stop g (Some i) killed) s1)"
    using assms(2) s1(2,3) stop_done [of s1 t i g] stop_killed [of s1 t i g] by (cases "fp_callers s t = Stopping i g") auto
  then obtain killed where "frp_step s1 (goto t (after_stop g (Some i) killed) s1)" ..
  with s1(1) have "frp_step\<^sup>*\<^sup>* s (goto t (after_stop g (Some i) killed) s1)" by (rule rtranclp.rtrancl_into_rtrancl)
  moreover have "fp_callers (goto t (after_stop g (Some i) killed) s1) t = after_stop g (Some i) killed" by (simp add: goto_def)
  ultimately show ?thesis by blast
qed

end
