(* ===== verification/ServerRun.thy ===== *)
theory ServerRun
  imports System Credentials FrpProcess
begin

text \<open>
  \<open>hatchway server run\<close> as a whole: the two HTTP servers and their shutdown (\<open>StartServer\<close> in
  \<open>internal/server/api/router.go\<close>), the routes of the internal one, the command around them
  (\<open>internal/cli/commands/server.go\<close>) with \<open>frps\<close> as a child process, and the tables that the other
  server commands print.
\<close>

section \<open>The internal server\<close>

fun path_unescape :: "string \<Rightarrow> string option" where
  "path_unescape [] = Some []"
| "path_unescape (c # cs) =
     (if c = CHR ''%'' then
        (case cs of a # b # r \<Rightarrow>
            (case (hex_value a, hex_value b, path_unescape r) of
               (Some x, Some y, Some t) \<Rightarrow> Some (char_of (16 * x + y) # t)
             | _ \<Rightarrow> None)
         | _ \<Rightarrow> None)
      else map_option (\<lambda>t. c # t) (path_unescape cs))"

text \<open>
  \<open>http.ServeMux\<close>: a path is cleaned first, and the client redirected when that changes it; then its
  segments are compared one by one, each unescaped, or as it is when it does not unescape.
\<close>

definition mux_clean :: "string \<Rightarrow> string" where
  "mux_clean p =
     (let p' = (if prefix ''/'' p then p else ''/'' @ p); np = clean_path p'
      in if suffix ''/'' p' \<and> np \<noteq> ''/'' then np @ ''/'' else np)"

definition mux_segments :: "string \<Rightarrow> string list" where
  "mux_segments p =
     map (\<lambda>seg. case path_unescape seg of None \<Rightarrow> seg | Some s \<Rightarrow> s) (split_char CHR ''/'' (drop 1 p))"

datatype internal_endpoint = PluginEndpoint string | AuthorizeEndpoint string | MetricsEndpoint

definition internal_route :: "string \<Rightarrow> internal_endpoint option" where
  "internal_route p =
     (case mux_segments p of
        [a] \<Rightarrow> if a = ''metrics'' then Some MetricsEndpoint else None
      | [a, b, x] \<Rightarrow> if a = ''frp'' \<and> b = ''plugin'' \<and> x \<noteq> '''' then Some (PluginEndpoint x) else None
      | [a, b, c, x] \<Rightarrow>
          if a = ''internal'' \<and> b = ''tunnels'' \<and> c = ''authorize'' \<and> x \<noteq> '''' then Some (AuthorizeEndpoint x) else None
      | _ \<Rightarrow> None)"

text \<open>What the handlers of the internal server get besides the request.\<close>

record internal_world =
  iw_sha :: sha_fun
  iw_argon :: argon_fun
  iw_slots :: "string \<Rightarrow> slot_event"
  iw_env :: env
  iw_late :: "call \<Rightarrow> bool"
  iw_expired :: bool
  iw_upper_lower :: "string \<Rightarrow> string"
  iw_query_ok :: bool
  iw_total_conns :: nat
  iw_idle_conns :: nat

text \<open>The HTML that a redirect carries for a browser is left out.\<close>

definition internal_mux :: "config \<Rightarrow> internal_world \<Rightarrow> request \<Rightarrow> srv \<Rightarrow> srv \<times> wop list" where
  "internal_mux cfg w r s =
     (let p = rq_escaped_path r in
      if rq_method r \<noteq> ''CONNECT'' \<and> mux_clean p \<noteq> p
      then (s, [SetHeader ''Location''
                  (mux_clean p @ (if rq_raw_query r = '''' then '''' else ''?'' @ rq_raw_query r)), WriteHeader 301])
      else (case internal_route p of
              None \<Rightarrow> (s, [SetHeader ''Content-Type'' ''text/plain; charset=utf-8'',
                          SetHeader ''X-Content-Type-Options'' ''nosniff'', WriteHeader 404,
                          WriteBody ''404 page not found\<newline>''])
            | Some (PluginEndpoint secret) \<Rightarrow>
                pluginHandler (iw_sha w) (iw_argon w) (iw_slots w) (iw_env w) (iw_late w) (iw_expired w) cfg secret r s
            | Some (AuthorizeEndpoint secret) \<Rightarrow>
                (s, TunnelAuthorizationHandler (iw_upper_lower w) (iw_env w) (Some (sv_db s)) cfg secret r)
            | Some MetricsEndpoint \<Rightarrow>
                (s, MetricsHandler (Some (sv_db s)) (iw_query_ok w) (iw_total_conns w) (iw_idle_conns w) (sv_metrics s))))"

section \<open>The two servers\<close>

record http_server =
  hs_addr :: string
  hs_read_header :: duration
  hs_read :: duration
  hs_write :: duration
  hs_idle :: duration
  hs_max_header :: nat

definition api_server :: "config \<Rightarrow> http_server" where
  "api_server cfg =
     \<lparr>hs_addr = APIAddr cfg, hs_read_header = min (APIReadTimeout cfg) (5 * ns_per_sec), hs_read = APIReadTimeout cfg,
      hs_write = APIWriteTimeout cfg, hs_idle = 2 * 60 * ns_per_sec, hs_max_header = 64 * 1024\<rparr>"

definition internal_server :: "config \<Rightarrow> http_server" where
  "internal_server cfg =
     \<lparr>hs_addr = FRPSPluginAddr cfg, hs_read_header = min (PluginTimeout cfg) (5 * ns_per_sec), hs_read = PluginTimeout cfg,
      hs_write = PluginTimeout cfg, hs_idle = 60 * ns_per_sec, hs_max_header = 64 * 1024\<rparr>"

datatype which_server = ApiServer | InternalServer

text \<open>Why the servers stop: one of them failed, or the context was cancelled.\<close>

datatype stop_cause = ServeFailed which_server string | ContextDone

datatype serve_error =
    ListenFailed which_server
  | Serving which_server string
  | ShutdownFailed which_server string

text \<open>Listening by address, the cause of the stop, how each shutdown ends, and which one ends first.\<close>

record serve_world =
  sw_listens :: "string \<Rightarrow> bool"
  sw_cause :: stop_cause
  sw_shutdown :: "which_server \<Rightarrow> string option"
  sw_api_first :: bool

datatype listener_event = Opened which_server | Closed which_server

definition cause_errors :: "stop_cause \<Rightarrow> serve_error list" where
  "cause_errors c = (case c of ServeFailed which err \<Rightarrow> [Serving which err] | ContextDone \<Rightarrow> [])"

definition shutdown_errors :: "serve_world \<Rightarrow> serve_error list" where
  "shutdown_errors w =
     List.map_filter (\<lambda>which. map_option (ShutdownFailed which) (sw_shutdown w which))
       (if sw_api_first w then [ApiServer, InternalServer] else [InternalServer, ApiServer])"

text \<open>
  What happens to the listeners, and the joined errors; no error is nil.  A server that is shut down
  has closed its listener even when connections remain.
\<close>

definition StartServer :: "config \<Rightarrow> serve_world \<Rightarrow> listener_event list \<times> serve_error list" where
  "StartServer cfg w =
     (if \<not> sw_listens w (hs_addr (api_server cfg)) then ([], [ListenFailed ApiServer])
      else if \<not> sw_listens w (hs_addr (internal_server cfg))
      then ([Opened ApiServer, Closed ApiServer], [ListenFailed InternalServer])
      else ([Opened ApiServer, Opened InternalServer, Closed ApiServer, Closed InternalServer],
            cause_errors (sw_cause w) @ shutdown_errors w))"

section \<open>hatchway server run\<close>

datatype server_run_error =
    NotReady run_error
  | FrpsNotStarted start_error
  | Stopped "serve_error list supervise_error"

text \<open>The result of \<open>StartServer\<close> as an error value.\<close>

definition serve_result :: "config \<Rightarrow> serve_world \<Rightarrow> serve_error list option" where
  "serve_result cfg w = (case snd (StartServer cfg w) of [] \<Rightarrow> None | errs \<Rightarrow> Some errs)"

text \<open>
  \<open>ready\<close>: which of the server, frps and the signal comes first, when frps is a subprocess;
  \<open>ctx_done\<close>: whether the signal had come as well.
\<close>

datatype run_event = ServerFirst | FrpsFirst "string option" | SignalFirst

definition ready_channel :: "run_event \<Rightarrow> 'e option \<Rightarrow> 'e supervised" where
  "ready_channel ready res =
     (case ready of ServerFirst \<Rightarrow> ServerStopped res | FrpsFirst err \<Rightarrow> FrpsExited err | SignalFirst \<Rightarrow> SignalReceived)"

definition serverRun ::
  "cli_world \<Rightarrow> schema_view \<Rightarrow> bool \<Rightarrow> serve_world \<Rightarrow> bool \<Rightarrow> bool \<Rightarrow> run_event \<Rightarrow> server_run_error option" where
  "serverRun w schema dev sw frps_starts ctx_done ready =
     (case serverRunChecks w schema dev of
        Inl err \<Rightarrow> Some (NotReady err)
      | Inr cfg \<Rightarrow>
          if FRPSMode cfg \<noteq> ''subprocess'' then map_option (\<lambda>errs. Stopped (ServerError errs)) (serve_result cfg sw)
          else (case Start frps_starts NewProcess of
                  (_, Some err) \<Rightarrow> Some (FrpsNotStarted err)
                | (_, None) \<Rightarrow>
                    (let res = serve_result cfg sw in map_option Stopped (supervise ctx_done res (ready_channel ready res)))))"

section \<open>The tables that the other commands print\<close>

definition ptrStr :: "string option \<Rightarrow> string" where
  "ptrStr s = (case s of None \<Rightarrow> '''' | Some t \<Rightarrow> t)"

text \<open>\<open>time.RFC3339\<close> has no fraction of a second.  Years are those that RFC 3339 can write.\<close>

definition format_rfc3339 :: "(time \<Rightarrow> int) \<Rightarrow> time \<Rightarrow> string" where
  "format_rfc3339 zone t =
     (case rfc3339 zone (t div usec_per_sec * usec_per_sec) of None \<Rightarrow> '''' | Some s \<Rightarrow> s)"

definition format_date :: "(time \<Rightarrow> int) \<Rightarrow> time \<Rightarrow> string" where
  "format_date zone t = take 10 (format_rfc3339 zone t)"

definition show_bool :: "bool \<Rightarrow> string" where
  "show_bool b = (if b then ''true'' else ''false'')"

definition user_table :: "(time \<Rightarrow> int) \<Rightarrow> user_row list \<Rightarrow> string list list" where
  "user_table zone us =
     [''ID'', ''EMAIL'', ''NAME'', ''ADMIN'', ''CREATED''] #
     map (\<lambda>u. [take 8 (us_id u), ptrStr (us_email u), ptrStr (us_name u), show_bool (us_is_admin u),
              format_date zone (us_created u)]) us"

definition token_table :: "(time \<Rightarrow> int) \<Rightarrow> token_metadata list \<Rightarrow> string list list" where
  "token_table zone ts =
     [''ID'', ''USER'', ''NAME'', ''PREFIX'', ''REVOKED'', ''CREATED''] #
     map (\<lambda>t. [tm_id t, (case tm_email t of None \<Rightarrow> tm_user t | Some e \<Rightarrow> e), tm_name t, tm_prefix t,
              show_bool (tm_revoked t \<noteq> None), format_rfc3339 zone (tm_created t)]) ts"

definition tunnel_table :: "(time \<Rightarrow> int) \<Rightarrow> tunnel_row list \<Rightarrow> string list list" where
  "tunnel_table zone ts =
     [''ID'', ''USER'', ''TYPE'', ''STATUS'', ''LOCAL'', ''EXPIRES''] #
     map (\<lambda>t. [tn_id t, take 8 (tn_user t), tn_type t, status_text (tn_status t),
              tn_local_host t @ '':'' @ show_int (tn_local_port t),
              (case tn_expires t of None \<Rightarrow> ''-'' | Some x \<Rightarrow> format_rfc3339 zone x)]) ts"

section \<open>What they promise\<close>

text \<open>
  A request to the internal server changes nothing unless its path names the plugin and carries its
  secret, which is never the empty one; the gate and the metrics only read.
\<close>

lemma internal_change_needs_secret:
  assumes "fst (internal_mux cfg w r s) \<noteq> s"
  shows "rq_method r = ''POST'' \<and> PluginSecret cfg \<noteq> '''' \<and> internal_route (rq_escaped_path r) = Some (PluginEndpoint (PluginSecret cfg))"
proof -
  obtain secret where route: "internal_route (rq_escaped_path r) = Some (PluginEndpoint secret)"
    and change: "fst (pluginHandler (iw_sha w) (iw_argon w) (iw_slots w) (iw_env w) (iw_late w) (iw_expired w) cfg secret r s) \<noteq> s"
    using assms by (auto simp: internal_mux_def Let_def split: if_splits option.splits internal_endpoint.splits)
  from change have "rq_method r = ''POST''" "PluginSecret cfg \<noteq> ''''" "constantTimeEqual secret (PluginSecret cfg)"
    by (auto simp: pluginHandler_def Handler_def Let_def split: if_splits)
  with route show ?thesis by (simp add: constantTimeEqual_def)
qed

text \<open>Every listener that was opened is closed again, also when the second address is taken.\<close>

lemma StartServer_closes:
  "Opened which \<in> set (fst (StartServer cfg w)) \<Longrightarrow> Closed which \<in> set (fst (StartServer cfg w))"
  by (auto simp: StartServer_def split: if_splits)

text \<open>No error is returned exactly when both servers listened, the context was cancelled and both drained in time.\<close>

lemma StartServer_nil:
  "snd (StartServer cfg w) = [] \<longleftrightarrow>
     sw_listens w (APIAddr cfg) \<and> sw_listens w (FRPSPluginAddr cfg) \<and> sw_cause w = ContextDone \<and>
     sw_shutdown w ApiServer = None \<and> sw_shutdown w InternalServer = None"
  by (auto simp: StartServer_def api_server_def internal_server_def cause_errors_def shutdown_errors_def
      List.map_filter_def split: stop_cause.split option.splits)

text \<open>The command ends without an error only after an orderly shutdown, and never because frps went away by itself.\<close>

lemma serverRun_clean:
  assumes "serverRun w schema dev sw frps_starts ctx_done ready = None"
  shows "\<exists>cfg. serverRunChecks w schema dev = Inr cfg \<and> Validate cfg = Inr () \<and> snd (StartServer cfg sw) = [] \<and>
     sw_cause sw = ContextDone \<and> (FRPSMode cfg = ''subprocess'' \<longrightarrow> (\<forall>err. ready = FrpsFirst err \<longrightarrow> ctx_done))"
proof -
  obtain cfg where cfg: "serverRunChecks w schema dev = Inr cfg"
    using assms by (cases "serverRunChecks w schema dev") (auto simp: serverRun_def)
  have valid: "Validate cfg = Inr ()"
    using cfg by (auto simp: serverRunChecks_def Let_def split: sum.splits if_splits)
  have "serve_result cfg sw = None \<and> (FRPSMode cfg = ''subprocess'' \<longrightarrow> (\<forall>err. ready = FrpsFirst err \<longrightarrow> ctx_done))"
  proof (cases "FRPSMode cfg = ''subprocess''")
    case True
    then show ?thesis using assms cfg
      by (cases ready) (auto simp: serverRun_def Start_def NewProcess_def supervise_def ready_channel_def split: if_splits)
  next
    case False
    then show ?thesis using assms cfg by (simp add: serverRun_def)
  qed
  moreover from this have "snd (StartServer cfg sw) = []" by (auto simp: serve_result_def split: list.splits)
  moreover from this have "sw_cause sw = ContextDone" by (simp add: StartServer_nil)
  ultimately show ?thesis using cfg valid by blast
qed


end
