(* ===== verification/ClientApi.thy ===== *)
theory ClientApi
  imports Tunnels "HOL-Library.Word"
begin

text \<open>
  The command-line client of the API (\<open>internal/cli/client.go\<close>): requests with their retries, the
  decoding of answers, the walk over the pages of the list, and the two checks of arguments.  The
  network is a parameter: \<open>http.NewRequest\<close>'s judgement of a URL, \<open>HTTPClient.Do\<close> on a state of its
  own (redirects are followed inside it), and how a wait for a timer ends.
\<close>

section \<open>Requests and answers\<close>

record client =
  cl_base :: string
  cl_token :: string

record client_request =
  hq_method :: string
  hq_url :: string
  hq_headers :: "(string \<times> string) list"
  hq_body :: "string option"

text \<open>\<open>hp_broken\<close>: reading the body fails after the bytes \<open>hp_body\<close>.\<close>

record client_answer =
  hp_status :: int
  hp_headers :: "(string \<times> string) list"
  hp_body :: string
  hp_broken :: bool

datatype client_error =
    InvalidURL | Transport string | Cancelled string | ReadErrorBody int | ApiError string string
  | HttpError int string | ReadBody | BodyTooLong | DecodeError | RepeatedCursor

text \<open>\<open>nt_sleep\<close>: None when the timer fires, Some the error of a context that is done first.\<close>

record 's net =
  nt_url_ok :: "string \<Rightarrow> bool"
  nt_do :: "client_request \<Rightarrow> 's \<Rightarrow> 's \<times> (string + client_answer)"
  nt_sleep :: "duration \<Rightarrow> 's \<Rightarrow> 's \<times> string option"

definition answer_header :: "string \<Rightarrow> client_answer \<Rightarrow> string" where
  "answer_header k a = (case map_of (hp_headers a) k of None \<Rightarrow> '''' | Some v \<Rightarrow> v)"

subsection \<open>Retries\<close>

definition maxAttempts :: nat where "maxAttempts = 3"

definition shouldRetry :: "string + client_answer \<Rightarrow> bool \<Rightarrow> bool" where
  "shouldRetry res retryIdempotencyConflict =
     (case res of
        Inl _ \<Rightarrow> True
      | Inr a \<Rightarrow>
          if hp_status a \<in> {502, 503, 504} then True
          else if hp_status a = 409 then retryIdempotencyConflict \<and> answer_header ''Retry-After'' a \<noteq> ''''
          else False)"

text \<open>A \<open>time.Duration\<close> is 64 bits wide and its multiplication wraps.\<close>

definition int64 :: "int \<Rightarrow> int" where
  "int64 x = sint (word_of_int x :: 64 word)"

definition ns_per_ms :: int where "ns_per_ms = 1000000"

definition maxRetryAfter :: duration where "maxRetryAfter = 5 * ns_per_sec"

definition retryDelay :: "client_answer option \<Rightarrow> nat \<Rightarrow> duration" where
  "retryDelay resp attempt =
     (let delay = int64 (int64 (2 ^ (attempt - 1)) * 100 * ns_per_ms)
      in case resp of
           None \<Rightarrow> delay
         | Some a \<Rightarrow>
             (case atoi (answer_header ''Retry-After'' a) of
                None \<Rightarrow> delay
              | Some retryAfter \<Rightarrow>
                  if retryAfter < 0 then delay
                  else max delay (min (int64 (retryAfter * ns_per_sec)) maxRetryAfter)))"

definition waitForRetry :: "'s net \<Rightarrow> duration \<Rightarrow> 's \<Rightarrow> 's \<times> string option" where
  "waitForRetry nt delay s = nt_sleep nt delay s"

text \<open>The attempts of \<open>doCtx\<close>, of which \<open>left\<close> may follow the next one.\<close>

fun send_attempts ::
  "'s net \<Rightarrow> bool \<Rightarrow> bool \<Rightarrow> client_request \<Rightarrow> nat \<Rightarrow> 's \<Rightarrow> 's \<times> (client_error + client_answer)" where
  "send_attempts nt retryable conflict q left s =
     (if \<not> nt_url_ok nt (hq_url q) then (s, Inl InvalidURL)
      else (case nt_do nt q s of
              (s1, res) \<Rightarrow>
                (if \<not> retryable \<or> left = 0 \<or> \<not> shouldRetry res conflict
                 then (s1, case res of Inl err \<Rightarrow> Inl (Transport err) | Inr a \<Rightarrow> Inr a)
                 else (case waitForRetry nt
                              (retryDelay (case res of Inl _ \<Rightarrow> None | Inr a \<Rightarrow> Some a) (maxAttempts - left)) s1 of
                         (s2, Some err) \<Rightarrow> (s2, Inl (Cancelled err))
                       | (s2, None) \<Rightarrow> send_attempts nt retryable conflict q (left - 1) s2))))"

declare send_attempts.simps [simp del]

text \<open>The header of a request; the only header a caller adds is the idempotency key.\<close>

definition client_request_of ::
  "client \<Rightarrow> string \<Rightarrow> string \<Rightarrow> string option \<Rightarrow> (string \<times> string) list \<Rightarrow> client_request" where
  "client_request_of c method path body headers =
     \<lparr>hq_method = method, hq_url = cl_base c @ path,
      hq_headers = [(''Authorization'', ''Bearer '' @ cl_token c)] @
        (case body of None \<Rightarrow> [] | Some _ \<Rightarrow> [(''Content-Type'', ''application/json'')]) @ headers,
      hq_body = body\<rparr>"

definition has_key :: "(string \<times> string) list \<Rightarrow> bool" where
  "has_key headers \<longleftrightarrow> (case map_of headers ''Idempotency-Key'' of None \<Rightarrow> False | Some k \<Rightarrow> k \<noteq> '''')"

definition doCtx ::
  "'s net \<Rightarrow> client \<Rightarrow> string \<Rightarrow> string \<Rightarrow> string option \<Rightarrow> (string \<times> string) list \<Rightarrow> 's \<Rightarrow>
     's \<times> (client_error + client_answer)" where
  "doCtx nt c method path body headers s =
     (let retryableRequest = method \<in> {''GET'', ''HEAD'', ''DELETE''} \<or> has_key headers
      in send_attempts nt retryableRequest (has_key headers) (client_request_of c method path body headers)
           (maxAttempts - 1) s)"

section \<open>Reading answers\<close>

definition maxClientResponseBodySize :: nat where "maxClientResponseBodySize = 1024 * 1024"

text \<open>\<open>io.ReadAll(io.LimitReader(body, n))\<close>: None when the connection fails before \<open>n\<close> bytes are read.\<close>

definition read_limited :: "nat \<Rightarrow> client_answer \<Rightarrow> string option" where
  "read_limited n a =
     (if hp_broken a \<and> length (hp_body a) < n then None else Some (take n (hp_body a)))"

text \<open>\<open>json.Unmarshal\<close> of a whole text, and the first value that a \<open>Decoder\<close> reads from the body.\<close>

definition unmarshal :: "(jval \<Rightarrow> 'a option) \<Rightarrow> string \<Rightarrow> 'a option" where
  "unmarshal dec s =
     (case parse_value s of Done v r \<Rightarrow> if skip_ws r = [] then dec v else None | _ \<Rightarrow> None)"

definition decode_stream :: "(jval \<Rightarrow> 'a option) \<Rightarrow> client_answer \<Rightarrow> 'a option" where
  "decode_stream dec a =
     (case scan_top (hp_body a) (if hp_broken a then BodyError else BodyEOF) of Done v _ \<Rightarrow> dec v | _ \<Rightarrow> None)"

subsection \<open>Errors\<close>

definition ErrorResponse :: gostruct where
  "ErrorResponse = [(''error'', FStruct [(''code'', FStr ''''), (''message'', FStr '''')])]"

definition parseError :: "client_answer \<Rightarrow> client_error" where
  "parseError a =
     (case read_limited (1024 * 1024) a of
        None \<Rightarrow> ReadErrorBody (hp_status a)
      | Some body \<Rightarrow>
          (case unmarshal (decode_struct False ErrorResponse) body of
             Some r \<Rightarrow>
               (let e = get_struct ''error'' r
                in if get_str ''message'' e \<noteq> '''' then ApiError (get_str ''code'' e) (get_str ''message'' e)
                   else HttpError (hp_status a) body)
           | None \<Rightarrow> HttpError (hp_status a) body))"

subsection \<open>Tunnels\<close>

record client_frp =
  cf_addr :: string
  cf_port :: int
  cf_token :: string
  cf_proxy_name :: string
  cf_proxy_type :: string
  cf_subdomain :: string
  cf_local_ip :: string
  cf_local_port :: int

record client_tunnel =
  ct_id :: string
  ct_status :: string
  ct_type :: string
  ct_url :: string
  ct_expires :: "int option"
  ct_token :: string
  ct_frp :: "client_frp option"

definition zero_frp :: client_frp where
  "zero_frp = \<lparr>cf_addr = '''', cf_port = 0, cf_token = '''', cf_proxy_name = '''', cf_proxy_type = '''',
     cf_subdomain = '''', cf_local_ip = '''', cf_local_port = 0\<rparr>"

definition zero_tunnel :: client_tunnel where
  "zero_tunnel = \<lparr>ct_id = '''', ct_status = '''', ct_type = '''', ct_url = '''', ct_expires = None,
     ct_token = '''', ct_frp = None\<rparr>"

definition frp_fields :: "client_frp \<Rightarrow> gostruct" where
  "frp_fields f =
     [(''server_addr'', FStr (cf_addr f)), (''server_port'', FInt (cf_port f)), (''server_token'', FStr (cf_token f)),
      (''proxy_name'', FStr (cf_proxy_name f)), (''proxy_type'', FStr (cf_proxy_type f)),
      (''subdomain'', FStr (cf_subdomain f)), (''local_ip'', FStr (cf_local_ip f)),
      (''local_port'', FInt (cf_local_port f))]"

definition frp_of_fields :: "gostruct \<Rightarrow> client_frp" where
  "frp_of_fields g =
     \<lparr>cf_addr = get_str ''server_addr'' g, cf_port = get_int ''server_port'' g, cf_token = get_str ''server_token'' g,
      cf_proxy_name = get_str ''proxy_name'' g, cf_proxy_type = get_str ''proxy_type'' g,
      cf_subdomain = get_str ''subdomain'' g, cf_local_ip = get_str ''local_ip'' g,
      cf_local_port = get_int ''local_port'' g\<rparr>"

text \<open>Into a pointer: \<open>null\<close> makes it nil, an object is stored into what it points to.\<close>

definition decode_frp :: "client_frp option \<Rightarrow> jval \<Rightarrow> client_frp option option" where
  "decode_frp cur v =
     (if v = VNull then Some None
      else map_option (\<lambda>g. Some (frp_of_fields g))
             (decode_struct False (frp_fields (case cur of None \<Rightarrow> zero_frp | Some f \<Rightarrow> f)) v))"

definition decode_time :: "(string \<Rightarrow> int option) \<Rightarrow> jval \<Rightarrow> int option option" where
  "decode_time lenient v =
     (if v = VNull then Some None else map_option Some (Option.bind (literal_of_value v) (read_time lenient)))"

definition tunnel_fields :: "string list" where
  "tunnel_fields = [''tunnel_id'', ''status'', ''type'', ''public_url'', ''expires_at'', ''runtime_token'', ''frp'']"

definition store_member :: "(string \<Rightarrow> int option) \<Rightarrow> client_tunnel \<Rightarrow> string \<times> jval \<Rightarrow> client_tunnel option" where
  "store_member lenient t m =
     (case m of (key, v) \<Rightarrow>
        (case match_field tunnel_fields key of
           None \<Rightarrow> Some t
         | Some n \<Rightarrow>
             if n = ''tunnel_id'' then map_option (\<lambda>x. t\<lparr>ct_id := x\<rparr>) (decode_string (ct_id t) v)
             else if n = ''status'' then map_option (\<lambda>x. t\<lparr>ct_status := x\<rparr>) (decode_string (ct_status t) v)
             else if n = ''type'' then map_option (\<lambda>x. t\<lparr>ct_type := x\<rparr>) (decode_string (ct_type t) v)
             else if n = ''public_url'' then map_option (\<lambda>x. t\<lparr>ct_url := x\<rparr>) (decode_string (ct_url t) v)
             else if n = ''expires_at'' then map_option (\<lambda>x. t\<lparr>ct_expires := x\<rparr>) (decode_time lenient v)
             else if n = ''runtime_token'' then map_option (\<lambda>x. t\<lparr>ct_token := x\<rparr>) (decode_string (ct_token t) v)
             else map_option (\<lambda>x. t\<lparr>ct_frp := x\<rparr>) (decode_frp (ct_frp t) v)))"

fun store_members :: "('a \<Rightarrow> 'm \<Rightarrow> 'a option) \<Rightarrow> 'a \<Rightarrow> 'm list \<Rightarrow> 'a option" where
  "store_members f x [] = Some x"
| "store_members f x (m # ms) = Option.bind (f x m) (\<lambda>y. store_members f y ms)"

text \<open>Into a struct, over its current value.\<close>

definition decode_tunnel :: "(string \<Rightarrow> int option) \<Rightarrow> client_tunnel \<Rightarrow> jval \<Rightarrow> client_tunnel option" where
  "decode_tunnel lenient t v =
     (case v of VNull \<Rightarrow> Some t | VObj ms \<Rightarrow> store_members (store_member lenient) t ms | _ \<Rightarrow> None)"

record tunnel_page =
  tp_tunnels :: "client_tunnel list"
  tp_next :: "string option"

text \<open>
  Into a slice: element by element, over the elements that a member of the same name stored
  before.
\<close>

fun decode_tunnels :: "(string \<Rightarrow> int option) \<Rightarrow> client_tunnel list \<Rightarrow> jval list \<Rightarrow> client_tunnel list option" where
  "decode_tunnels lenient cur [] = Some []"
| "decode_tunnels lenient cur (v # vs) =
     (case decode_tunnel lenient (case cur of [] \<Rightarrow> zero_tunnel | t # _ \<Rightarrow> t) v of
        None \<Rightarrow> None
      | Some t \<Rightarrow> map_option (\<lambda>ts. t # ts) (decode_tunnels lenient (tl cur) vs))"

definition store_page_member :: "(string \<Rightarrow> int option) \<Rightarrow> tunnel_page \<Rightarrow> string \<times> jval \<Rightarrow> tunnel_page option" where
  "store_page_member lenient p m =
     (case m of (key, v) \<Rightarrow>
        (case match_field [''tunnels'', ''next_cursor''] key of
           None \<Rightarrow> Some p
         | Some n \<Rightarrow>
             if n = ''tunnels'' then
               (case v of
                  VNull \<Rightarrow> Some (p\<lparr>tp_tunnels := []\<rparr>)
                | VArr vs \<Rightarrow> map_option (\<lambda>ts. p\<lparr>tp_tunnels := ts\<rparr>) (decode_tunnels lenient (tp_tunnels p) vs)
                | _ \<Rightarrow> None)
             else
               (if v = VNull then Some (p\<lparr>tp_next := None\<rparr>)
                else map_option (\<lambda>c. p\<lparr>tp_next := Some c\<rparr>) (string_of_value v))))"

definition decode_page :: "(string \<Rightarrow> int option) \<Rightarrow> jval \<Rightarrow> tunnel_page option" where
  "decode_page lenient v =
     (let zero = \<lparr>tp_tunnels = [], tp_next = None\<rparr>
      in case v of VNull \<Rightarrow> Some zero | VObj ms \<Rightarrow> store_members (store_page_member lenient) zero ms | _ \<Rightarrow> None)"

section \<open>The API\<close>

subsection \<open>Creation\<close>

record create_payload =
  cp_type :: string
  cp_local_host :: string
  cp_local_port :: int
  cp_ttl :: int

definition create_payload_json :: "create_payload \<Rightarrow> string" where
  "create_payload_json q =
     json_text (JObj [(''type'', JStr (cp_type q)), (''local_host'', JStr (cp_local_host q)),
       (''local_port'', JNum (cp_local_port q)), (''ttl_seconds'', JNum (cp_ttl q))])"

definition decodeTunnelResponse :: "(string \<Rightarrow> int option) \<Rightarrow> client_answer \<Rightarrow> client_error + client_tunnel" where
  "decodeTunnelResponse lenient a =
     (case read_limited (maxClientResponseBodySize + 1) a of
        None \<Rightarrow> Inl ReadBody
      | Some body \<Rightarrow>
          if maxClientResponseBodySize < length body then Inl BodyTooLong
          else (case unmarshal (decode_tunnel lenient zero_tunnel) body of
                  None \<Rightarrow> Inl DecodeError
                | Some t \<Rightarrow> Inr t))"

definition create_headers :: "string \<Rightarrow> (string \<times> string) list" where
  "create_headers key = (if key = '''' then [] else [(''Idempotency-Key'', key)])"

definition maxDecodeAttempts :: nat where "maxDecodeAttempts = 2"

text \<open>The attempts to read a whole answer, of which \<open>left\<close> may follow the next one.\<close>

fun create_attempts ::
  "'s net \<Rightarrow> (string \<Rightarrow> int option) \<Rightarrow> client \<Rightarrow> string \<Rightarrow> string \<Rightarrow> nat \<Rightarrow> 's \<Rightarrow> 's \<times> (client_error + client_tunnel)" where
  "create_attempts nt lenient c body key left s =
     (case doCtx nt c ''POST'' ''/v1/tunnels'' (Some body) (create_headers key) s of
        (s1, Inl err) \<Rightarrow> (s1, Inl err)
      | (s1, Inr a) \<Rightarrow>
          if hp_status a \<noteq> 201 then (s1, Inl (parseError a))
          else (case decodeTunnelResponse lenient a of
                  Inr t \<Rightarrow> (s1, Inr t)
                | Inl err \<Rightarrow>
                    if key = '''' \<or> left = 0 then (s1, Inl err)
                    else (case waitForRetry nt (retryDelay None (maxDecodeAttempts - left)) s1 of
                            (s2, Some cancelled) \<Rightarrow> (s2, Inl (Cancelled cancelled))
                          | (s2, None) \<Rightarrow> create_attempts nt lenient c body key (left - 1) s2)))"

declare create_attempts.simps [simp del]

definition CreateTunnelCtx ::
  "'s net \<Rightarrow> (string \<Rightarrow> int option) \<Rightarrow> client \<Rightarrow> create_payload \<Rightarrow> string \<Rightarrow> 's \<Rightarrow> 's \<times> (client_error + client_tunnel)" where
  "CreateTunnelCtx nt lenient c q idempotencyKey s =
     create_attempts nt lenient c (create_payload_json q) idempotencyKey (maxDecodeAttempts - 1) s"

subsection \<open>The list\<close>

definition decodeListPage :: "(string \<Rightarrow> int option) \<Rightarrow> client_answer \<Rightarrow> client_error + tunnel_page" where
  "decodeListPage lenient a =
     (if hp_status a \<noteq> 200 then Inl (parseError a)
      else (case decode_stream (decode_page lenient) a of None \<Rightarrow> Inl DecodeError | Some p \<Rightarrow> Inr p))"

text \<open>\<open>url.Values.Encode\<close> sorts by key.\<close>

definition list_path :: "int \<Rightarrow> string \<Rightarrow> string" where
  "list_path limit cursor =
     (let pairs = (if cursor = '''' then [] else [''cursor='' @ query_escape cursor]) @
                  (if 0 < limit then [''limit='' @ query_escape (show_int limit)] else [])
      in ''/v1/tunnels'' @ (if pairs = [] then '''' else ''?'' @ join_with ''&'' pairs))"

text \<open>None: the loop does not end.\<close>

partial_function (option) list_pages ::
  "'s net \<Rightarrow> (string \<Rightarrow> int option) \<Rightarrow> client \<Rightarrow> int \<Rightarrow> string \<Rightarrow> string set \<Rightarrow> client_tunnel list \<Rightarrow> 's \<Rightarrow>
     ('s \<times> (client_error + client_tunnel list)) option" where
  "list_pages nt lenient c limit cursor seen acc s =
     (case doCtx nt c ''GET'' (list_path limit cursor) None [] s of
        (s1, Inl err) \<Rightarrow> Some (s1, Inl err)
      | (s1, Inr a) \<Rightarrow>
          (case decodeListPage lenient a of
             Inl err \<Rightarrow> Some (s1, Inl err)
           | Inr page \<Rightarrow>
               (case tp_next page of
                  None \<Rightarrow> Some (s1, Inr (acc @ tp_tunnels page))
                | Some next_cursor \<Rightarrow>
                    if next_cursor = '''' then Some (s1, Inr (acc @ tp_tunnels page))
                    else if next_cursor \<in> seen then Some (s1, Inl RepeatedCursor)
                    else list_pages nt lenient c limit next_cursor (insert next_cursor seen) (acc @ tp_tunnels page) s1)))"

definition ListTunnelsCtx ::
  "'s net \<Rightarrow> (string \<Rightarrow> int option) \<Rightarrow> client \<Rightarrow> int \<Rightarrow> 's \<Rightarrow> ('s \<times> (client_error + client_tunnel list)) option" where
  "ListTunnelsCtx nt lenient c limit s = list_pages nt lenient c limit '''' {} [] s"

subsection \<open>The other calls\<close>

definition GetTunnelCtx ::
  "'s net \<Rightarrow> (string \<Rightarrow> int option) \<Rightarrow> client \<Rightarrow> string \<Rightarrow> 's \<Rightarrow> 's \<times> (client_error + client_tunnel)" where
  "GetTunnelCtx nt lenient c tid s =
     (case doCtx nt c ''GET'' (''/v1/tunnels/'' @ path_escape tid) None [] s of
        (s1, Inl err) \<Rightarrow> (s1, Inl err)
      | (s1, Inr a) \<Rightarrow>
          if hp_status a \<noteq> 200 then (s1, Inl (parseError a))
          else (case decode_stream (decode_tunnel lenient zero_tunnel) a of
                  None \<Rightarrow> (s1, Inl DecodeError)
                | Some t \<Rightarrow> (s1, Inr t)))"

definition DeleteTunnelCtx :: "'s net \<Rightarrow> client \<Rightarrow> string \<Rightarrow> 's \<Rightarrow> 's \<times> client_error option" where
  "DeleteTunnelCtx nt c tid s =
     (case doCtx nt c ''DELETE'' (''/v1/tunnels/'' @ path_escape tid) None [] s of
        (s1, Inl err) \<Rightarrow> (s1, Some err)
      | (s1, Inr a) \<Rightarrow> (s1, if hp_status a \<noteq> 204 then Some (parseError a) else None))"

definition WhoamiCtx :: "'s net \<Rightarrow> client \<Rightarrow> 's \<Rightarrow> 's \<times> (client_error + string)" where
  "WhoamiCtx nt c s =
     (case doCtx nt c ''GET'' ''/v1/me'' None [] s of
        (s1, Inl err) \<Rightarrow> (s1, Inl err)
      | (s1, Inr a) \<Rightarrow>
          if hp_status a \<noteq> 200 then (s1, Inl (parseError a))
          else (case decode_stream (decode_struct False [(''user_id'', FStr '''')]) a of
                  None \<Rightarrow> (s1, Inl DecodeError)
                | Some r \<Rightarrow> (s1, Inr (get_str ''user_id'' r))))"

subsection \<open>Arguments\<close>

datatype ttl_error = TTLInvalid | TTLNotPositive | TTLNotWholeSeconds

definition ParseTTL :: "frac_fun \<Rightarrow> string \<Rightarrow> ttl_error + duration" where
  "ParseTTL fraction s =
     (case parse_duration fraction s of
        None \<Rightarrow> Inl TTLInvalid
      | Some d \<Rightarrow>
          if d \<le> 0 then Inl TTLNotPositive
          else if d < ns_per_sec \<or> d mod ns_per_sec \<noteq> 0 then Inl TTLNotWholeSeconds
          else Inr d)"

text \<open>\<open>dial\<close>: whether an address accepts a connection, and whether closing it succeeds.\<close>

datatype port_error = NothingListening string | ProbeNotClosed

definition CheckLocalPort :: "(string \<Rightarrow> bool option) \<Rightarrow> int \<Rightarrow> port_error option" where
  "CheckLocalPort dial port =
     (let addr = ''127.0.0.1:'' @ show_int port
      in case dial addr of
           None \<Rightarrow> Some (NothingListening addr)
         | Some closes \<Rightarrow> if closes then None else Some ProbeNotClosed)"

end
