(* ===== verification/ClientRetry.thy ===== *)
theory ClientRetry
  imports ClientApi
begin

text \<open>
  What the client of \<open>internal/cli/client.go\<close> promises about the requests it sends: how often, after
  which delays, that a creation is never sent twice without its key, and that the walk over the
  pages of a list ends.  The requests are observed by \<open>recording\<close>, which wraps any network.
\<close>

subsection \<open>Delays\<close>

lemma int64_small: "- (2 ^ 63) \<le> x \<Longrightarrow> x < 2 ^ 63 \<Longrightarrow> int64 x = x"
  by (simp add: int64_def sint_sbintrunc' signed_take_bit_int_eq_self)

lemma retry_base:
  assumes "attempt \<in> {1, 2}"
  shows "int64 (int64 (2 ^ (attempt - 1)) * 100 * ns_per_ms) = 2 ^ (attempt - 1) * 100 * ns_per_ms"
  using assms by (auto simp: int64_small ns_per_ms_def)

lemma retryDelay_None [simp]: "attempt \<in> {1, 2} \<Longrightarrow> retryDelay None attempt = 2 ^ (attempt - 1) * 100 * ns_per_ms"
  by (simp only: retryDelay_def Let_def retry_base option.case)

lemma retryDelay_Some:
  assumes "attempt \<in> {1, 2}"
  shows "retryDelay (Some a) attempt =
     (case atoi (answer_header ''Retry-After'' a) of
        None \<Rightarrow> 2 ^ (attempt - 1) * 100 * ns_per_ms
      | Some n \<Rightarrow> if n < 0 then 2 ^ (attempt - 1) * 100 * ns_per_ms
                  else max (2 ^ (attempt - 1) * 100 * ns_per_ms) (min (int64 (n * ns_per_sec)) maxRetryAfter))"
  by (simp only: retryDelay_def Let_def retry_base [OF assms] option.case)

text \<open>
  The wait before a retry is at least the exponential base, never more than five seconds whatever
  the server asks for, and honours a \<open>Retry-After\<close> between them.
\<close>

lemma retry_delay_bounds:
  assumes "attempt \<in> {1, 2}"
  shows "2 ^ (attempt - 1) * 100 * ns_per_ms \<le> retryDelay resp attempt \<and> retryDelay resp attempt \<le> maxRetryAfter \<and>
     (\<forall>a n. resp = Some a \<longrightarrow> atoi (answer_header ''Retry-After'' a) = Some n \<longrightarrow> 1 \<le> n \<longrightarrow> n \<le> 5 \<longrightarrow>
        retryDelay resp attempt = n * ns_per_sec)"
proof (cases resp)
  case None
  then show ?thesis using assms by (auto simp: ns_per_ms_def maxRetryAfter_def)
next
  case (Some a)
  have "int64 (n * ns_per_sec) = n * ns_per_sec" if "1 \<le> n" "n \<le> 5" for n
    using that by (intro int64_small) auto
  then show ?thesis
    using assms unfolding Some retryDelay_Some [OF assms]
    by (auto simp: ns_per_ms_def maxRetryAfter_def min_def max_def split: option.split)
qed

lemma retry_delay_bounds_witness:
  "100000000 \<le> retryDelay None 1 \<and> retryDelay None 1 \<le> maxRetryAfter"
  using retry_delay_bounds [of 1 None] by (simp add: ns_per_ms_def)

text \<open>A delay too long for 64 bits wraps to a negative one, and the base is waited instead of the bound.\<close>

lemma retryDelay_wraps:
  "atoi (answer_header ''Retry-After'' a) = Some 9223372037 \<Longrightarrow> retryDelay (Some a) 1 = 100 * ns_per_ms"
proof -
  have "int64 (9223372037 * ns_per_sec) < 0" by (simp add: int64_def)
  then show "atoi (answer_header ''Retry-After'' a) = Some 9223372037 \<Longrightarrow> ?thesis"
    by (simp add: retryDelay_Some ns_per_ms_def min_def max_def maxRetryAfter_def)
qed

subsection \<open>The requests of one call\<close>

definition recording :: "'s net \<Rightarrow> (client_request list \<times> 's) net" where
  "recording nt =
     \<lparr>nt_url_ok = nt_url_ok nt,
      nt_do = (\<lambda>q (sent, s). case nt_do nt q s of (s', res) \<Rightarrow> ((sent @ [q], s'), res)),
      nt_sleep = (\<lambda>d (sent, s). case nt_sleep nt d s of (s', res) \<Rightarrow> ((sent, s'), res))\<rparr>"

lemma recording_simps [simp]:
  "nt_url_ok (recording nt) = nt_url_ok nt"
  "nt_do (recording nt) q (sent, s) = (case nt_do nt q s of (s', res) \<Rightarrow> ((sent @ [q], s'), res))"
  "waitForRetry (recording nt) d (sent, s) = (case waitForRetry nt d s of (s', res) \<Rightarrow> ((sent, s'), res))"
  by (simp_all add: recording_def waitForRetry_def)

text \<open>The recorded call does what the call does, and what it sends is one request some times.\<close>

lemma send_recorded:
  "\<exists>k \<le> (if rt then Suc left else 1). send_attempts (recording nt) rt conflict q left (sent, s) =
     (case send_attempts nt rt conflict q left s of (s', res) \<Rightarrow> ((sent @ replicate k q, s'), res))"
proof (induction left arbitrary: sent s)
  case 0
  show ?case
  proof (cases "nt_url_ok nt (hq_url q)")
    case True
    then show ?thesis
      by (intro exI [of _ 1])
         (auto simp: send_attempts.simps [of _ _ _ _ 0] split: prod.split)
  qed (auto simp: send_attempts.simps [of _ _ _ _ 0])
next
  case (Suc left)
  note unf = send_attempts.simps [of _ _ _ _ "Suc left"]
  show ?case
  proof (cases "nt_url_ok nt (hq_url q)")
    case False
    then show ?thesis by (intro exI [of _ 0]) (simp add: unf)
  next
    case url: True
    obtain s1 res where d: "nt_do nt q s = (s1, res)" by (cases "nt_do nt q s")
    let ?delay = "retryDelay (case res of Inl _ \<Rightarrow> None | Inr a \<Rightarrow> Some a) (maxAttempts - Suc left)"
    obtain s2 c where w: "waitForRetry nt ?delay s1 = (s2, c)" by (cases "waitForRetry nt ?delay s1")
    show ?thesis
    proof (cases "rt \<and> shouldRetry res conflict \<and> c = None")
      case False
      then show ?thesis
        using url d w by (intro exI [of _ 1]) (auto simp: unf split: option.split)
    next
      case True
      with Suc.IH [of "sent @ [q]" s2] obtain k where k: "k \<le> Suc left"
        "send_attempts (recording nt) rt conflict q left (sent @ [q], s2) =
           (case send_attempts nt rt conflict q left s2 of (s', res) \<Rightarrow> (((sent @ [q]) @ replicate k q, s'), res))"
        by auto
      then show ?thesis
        using True url d w by (intro exI [of _ "Suc k"]) (simp add: unf replicate_append_same)
    qed
  qed
qed

lemma doCtx_recorded:
  fixes c verb path body headers
  defines "q \<equiv> client_request_of c verb path body headers"
  shows "\<exists>k \<le> (if verb \<in> {''GET'', ''HEAD'', ''DELETE''} \<or> has_key headers then 3 else 1).
     doCtx (recording nt) c verb path body headers (sent, s) =
       (case doCtx nt c verb path body headers s of (s', res) \<Rightarrow> ((sent @ replicate k q, s'), res))"
proof -
  define rt where "rt \<longleftrightarrow> verb \<in> {''GET'', ''HEAD'', ''DELETE''} \<or> has_key headers"
  from send_recorded [of rt "maxAttempts - 1" nt "has_key headers" q sent s] obtain k where
    "k \<le> (if rt then Suc (maxAttempts - 1) else 1)"
    "send_attempts (recording nt) rt (has_key headers) q (maxAttempts - 1) (sent, s) =
       (case send_attempts nt rt (has_key headers) q (maxAttempts - 1) s of (s', res) \<Rightarrow> ((sent @ replicate k q, s'), res))"
    by blast
  moreover have "doCtx nt c verb path body headers s = send_attempts nt rt (has_key headers) q (maxAttempts - 1) s"
    "doCtx (recording nt) c verb path body headers (sent, s) =
       send_attempts (recording nt) rt (has_key headers) q (maxAttempts - 1) (sent, s)"
    by (simp_all add: doCtx_def rt_def q_def)
  moreover have "Suc (maxAttempts - 1) = 3" by (simp add: maxAttempts_def)
  ultimately show ?thesis unfolding rt_def [symmetric] by metis
qed

text \<open>An answer that a call returns came from the network.\<close>

lemma send_answer:
  "send_attempts nt rt conflict q left s = (s', Inr a) \<Longrightarrow> \<exists>s0 s1. nt_do nt q s0 = (s1, Inr a)"
proof (induction left arbitrary: s)
  case 0
  then show ?case
    by (auto simp: send_attempts.simps [of _ _ _ _ 0] split: if_splits prod.splits sum.splits)
next
  case (Suc left)
  then show ?case
    by (auto simp: send_attempts.simps [of _ _ _ _ "Suc left"] split: if_splits prod.splits sum.splits option.splits)
qed

lemma doCtx_answer:
  assumes "doCtx nt c verb path body headers s = (s', Inr a)"
  shows "\<exists>s0 s1. nt_do nt (client_request_of c verb path body headers) s0 = (s1, Inr a)"
  using assms unfolding doCtx_def Let_def by (rule send_answer)

subsection \<open>Creation\<close>

lemma create_headers_key [simp]: "has_key (create_headers key) \<longleftrightarrow> key \<noteq> ''''"
  by (simp add: has_key_def create_headers_def)

lemma post_recorded:
  "\<exists>k \<le> (if key = '''' then 1 else 3).
     doCtx (recording nt) c ''POST'' ''/v1/tunnels'' (Some body) (create_headers key) (sent, s) =
       (case doCtx nt c ''POST'' ''/v1/tunnels'' (Some body) (create_headers key) s of (s', res) \<Rightarrow>
          ((sent @ replicate k (client_request_of c ''POST'' ''/v1/tunnels'' (Some body) (create_headers key)), s'), res))"
proof -
  have eq: "(if ''POST'' \<in> {''GET'', ''HEAD'', ''DELETE''} \<or> has_key (create_headers key) then 3 else 1) =
      (if key = '''' then 1 else 3 :: nat)" by simp
  show ?thesis
    using doCtx_recorded [of "''POST''" "create_headers key" nt c "''/v1/tunnels''" "Some body" sent s] unfolding eq .
qed

lemma create_recorded:
  fixes c body key
  defines "q \<equiv> client_request_of c ''POST'' ''/v1/tunnels'' (Some body) (create_headers key)"
  shows "\<exists>k \<le> (if key = '''' then 1 else 3 * Suc left).
     create_attempts (recording nt) lenient c body key left (sent, s) =
       (case create_attempts nt lenient c body key left s of (s', res) \<Rightarrow> ((sent @ replicate k q, s'), res))"
proof (induction left arbitrary: sent s)
  case 0
  obtain k where k: "k \<le> (if key = '''' then 1 else 3)"
    "doCtx (recording nt) c ''POST'' ''/v1/tunnels'' (Some body) (create_headers key) (sent, s) =
       (case doCtx nt c ''POST'' ''/v1/tunnels'' (Some body) (create_headers key) s of
          (s', res) \<Rightarrow> ((sent @ replicate k q, s'), res))"
    using post_recorded [of key nt c body sent s, folded q_def] by blast
  obtain s1 res where d: "doCtx nt c ''POST'' ''/v1/tunnels'' (Some body) (create_headers key) s = (s1, res)"
    by (cases "doCtx nt c ''POST'' ''/v1/tunnels'' (Some body) (create_headers key) s")
  then show ?case
    using k by (intro exI [of _ k])
       (auto simp: create_attempts.simps [of _ _ _ _ _ 0] split: sum.split if_splits)
next
  case (Suc left)
  obtain k where k: "k \<le> (if key = '''' then 1 else 3)"
    "doCtx (recording nt) c ''POST'' ''/v1/tunnels'' (Some body) (create_headers key) (sent, s) =
       (case doCtx nt c ''POST'' ''/v1/tunnels'' (Some body) (create_headers key) s of
          (s', res) \<Rightarrow> ((sent @ replicate k q, s'), res))"
    using post_recorded [of key nt c body sent s, folded q_def] by blast
  note unf = create_attempts.simps [of _ _ _ _ _ "Suc left"]
  obtain s1 res where d: "doCtx nt c ''POST'' ''/v1/tunnels'' (Some body) (create_headers key) s = (s1, res)"
    by (cases "doCtx nt c ''POST'' ''/v1/tunnels'' (Some body) (create_headers key) s")
  let ?delay = "retryDelay None (maxDecodeAttempts - Suc left)"
  obtain s2 w where w: "waitForRetry nt ?delay s1 = (s2, w)" by (cases "waitForRetry nt ?delay s1")
  show ?case
  proof (cases "\<exists>a err. res = Inr a \<and> hp_status a = 201 \<and> decodeTunnelResponse lenient a = Inl err \<and>
      key \<noteq> '''' \<and> w = None")
    case False
    then show ?thesis
      using k d w by (intro exI [of _ k]) (auto simp: unf split: sum.split option.split)
  next
    case True
    with Suc.IH [of "sent @ replicate k q" s2] obtain k' where k': "k' \<le> 3 * Suc left"
      "create_attempts (recording nt) lenient c body key left (sent @ replicate k q, s2) =
         (case create_attempts nt lenient c body key left s2 of
            (s', res) \<Rightarrow> (((sent @ replicate k q) @ replicate k' q, s'), res))"
      by auto
    then show ?thesis
      using True k d w by (intro exI [of _ "k + k'"]) (auto simp: unf replicate_add split: prod.split)
  qed
qed

text \<open>
  C36: A creation ends after a bounded number of requests: at most one without an idempotency key, at
  most six with one, and all of them are the same request with the same key and body.
\<close>

theorem creation_requests_bounded:
  "\<exists>k sent s' res. CreateTunnelCtx (recording nt) lenient c q key ([], s) = ((sent, s'), res) \<and>
     CreateTunnelCtx nt lenient c q key s = (s', res) \<and>
     sent = replicate k (client_request_of c ''POST'' ''/v1/tunnels'' (Some (create_payload_json q)) (create_headers key)) \<and>
     k \<le> (if key = '''' then 1 else 6)"
proof -
  define r where "r = client_request_of c ''POST'' ''/v1/tunnels'' (Some (create_payload_json q)) (create_headers key)"
  obtain s' res where run: "CreateTunnelCtx nt lenient c q key s = (s', res)" by (cases "CreateTunnelCtx nt lenient c q key s")
  from create_recorded [of key "maxDecodeAttempts - 1" nt lenient c "create_payload_json q" "[]" s] run
  obtain k where k: "k \<le> (if key = '''' then 1 else 3 * Suc (maxDecodeAttempts - 1))"
    "CreateTunnelCtx (recording nt) lenient c q key ([], s) = ((replicate k r, s'), res)"
    unfolding CreateTunnelCtx_def r_def by fastforce
  have "3 * Suc (maxDecodeAttempts - 1) = 6" by (simp add: maxDecodeAttempts_def)
  with k run show ?thesis unfolding r_def by metis
qed

subsection \<open>The list\<close>

lemma list_recorded:
  "\<exists>k \<le> 3. doCtx (recording nt) c ''GET'' path None [] (sent, s) =
     (case doCtx nt c ''GET'' path None [] s of (s', res) \<Rightarrow>
        ((sent @ replicate k (client_request_of c ''GET'' path None []), s'), res))"
  using doCtx_recorded [of "''GET''" "[]" nt c path None sent s] by simp

text \<open>The network names only cursors of a set.\<close>

definition cursors_in :: "(string \<Rightarrow> int option) \<Rightarrow> 's net \<Rightarrow> string set \<Rightarrow> bool" where
  "cursors_in lenient nt C \<longleftrightarrow>
     (\<forall>q s s1 a page x. nt_do nt q s = (s1, Inr a) \<longrightarrow> decodeListPage lenient a = Inr page \<longrightarrow>
        tp_next page = Some x \<longrightarrow> x \<noteq> '''' \<longrightarrow> x \<in> C)"

lemma cursors_inD:
  assumes "cursors_in lenient nt C" "doCtx nt c ''GET'' path None [] s = (s1, Inr a)"
    "decodeListPage lenient a = Inr page" "tp_next page = Some x" "x \<noteq> ''''"
  shows "x \<in> C"
  using doCtx_answer [OF assms(2)] assms(1,3-5) unfolding cursors_in_def by blast

text \<open>One turn of the loop: the end of the walk, or the page and the cursor with which it goes on.\<close>

definition page_verdict ::
  "(string \<Rightarrow> int option) \<Rightarrow> string set \<Rightarrow> client_tunnel list \<Rightarrow> client_error + client_answer \<Rightarrow>
     (client_error + client_tunnel list) + tunnel_page \<times> string" where
  "page_verdict lenient seen acc res =
     (case res of
        Inl err \<Rightarrow> Inl (Inl err)
      | Inr a \<Rightarrow>
          (case decodeListPage lenient a of
             Inl err \<Rightarrow> Inl (Inl err)
           | Inr page \<Rightarrow>
               (case tp_next page of
                  None \<Rightarrow> Inl (Inr (acc @ tp_tunnels page))
                | Some x \<Rightarrow>
                    if x = '''' then Inl (Inr (acc @ tp_tunnels page))
                    else if x \<in> seen then Inl (Inl RepeatedCursor)
                    else Inr (page, x))))"

lemma list_pages_unfold:
  "list_pages nt lenient c limit cursor seen acc s =
     (case doCtx nt c ''GET'' (list_path limit cursor) None [] s of
        (s1, res) \<Rightarrow>
          (case page_verdict lenient seen acc res of
             Inl out \<Rightarrow> Some (s1, out)
           | Inr (page, x) \<Rightarrow> list_pages nt lenient c limit x (insert x seen) (acc @ tp_tunnels page) s1))"
  by (subst list_pages.simps) (simp add: page_verdict_def split: prod.split sum.split option.split)

lemma page_verdict_InrD:
  "page_verdict lenient seen acc res = Inr (page, x) \<Longrightarrow>
     \<exists>a. res = Inr a \<and> decodeListPage lenient a = Inr page \<and> tp_next page = Some x \<and> x \<noteq> '''' \<and> x \<notin> seen"
  by (auto simp: page_verdict_def split: sum.splits option.splits if_splits)

lemma list_pages_return:
  assumes "finite C" "cursors_in lenient nt C"
  shows "\<exists>s' res sent'. list_pages nt lenient c limit cursor seen acc s = Some (s', res) \<and>
     list_pages (recording nt) lenient c limit cursor seen acc (sent, s) = Some ((sent', s'), res) \<and>
     length sent' \<le> length sent + 3 * (card (C - seen) + 1)"
proof (induction "card (C - seen)" arbitrary: cursor seen acc sent s rule: less_induct)
  case less
  let ?path = "list_path limit cursor"
  obtain s1 res where d: "doCtx nt c ''GET'' ?path None [] s = (s1, res)" by (cases "doCtx nt c ''GET'' ?path None [] s")
  obtain k where k: "k \<le> 3" "doCtx (recording nt) c ''GET'' ?path None [] (sent, s) =
      ((sent @ replicate k (client_request_of c ''GET'' ?path None []), s1), res)"
    using list_recorded [of nt c ?path sent s] unfolding d by auto
  define sent1 where "sent1 = sent @ replicate k (client_request_of c ''GET'' ?path None [])"
  then have r: "doCtx (recording nt) c ''GET'' ?path None [] (sent, s) = ((sent1, s1), res)"
    "length sent1 \<le> length sent + 3"
    using k by simp_all
  show ?case
  proof (cases "page_verdict lenient seen acc res")
    case (Inl out)
    have "list_pages nt lenient c limit cursor seen acc s = Some (s1, out)"
      by (subst list_pages_unfold) (simp add: d Inl)
    moreover have "list_pages (recording nt) lenient c limit cursor seen acc (sent, s) = Some ((sent1, s1), out)"
      by (subst list_pages_unfold) (simp add: r(1) Inl)
    ultimately show ?thesis using r(2) by (intro exI [of _ s1] exI [of _ out] exI [of _ sent1]) simp
  next
    case (Inr px)
    then obtain page x where px: "page_verdict lenient seen acc res = Inr (page, x)" by (cases px) auto
    from page_verdict_InrD [OF this] obtain a where x: "res = Inr a" "decodeListPage lenient a = Inr page"
      "tp_next page = Some x" "x \<noteq> ''''" "x \<notin> seen" by blast
    have "x \<in> C" using cursors_inD [OF assms(2) d [unfolded x(1)] x(2-4)] .
    then have "C - seen = insert x (C - insert x seen)" using x(5) by blast
    moreover have "x \<notin> C - insert x seen" "finite (C - insert x seen)" using assms(1) by simp_all
    ultimately have step: "card (C - seen) = Suc (card (C - insert x seen))" by (metis card_insert_disjoint)
    then have "card (C - insert x seen) < card (C - seen)" by simp
    from less.hyps [OF this, of x "acc @ tp_tunnels page" s1 sent1] obtain s' res' sent' where
      "list_pages nt lenient c limit x (insert x seen) (acc @ tp_tunnels page) s1 = Some (s', res')"
      "list_pages (recording nt) lenient c limit x (insert x seen) (acc @ tp_tunnels page) (sent1, s1) = Some ((sent', s'), res')"
      "length sent' \<le> length sent1 + 3 * (card (C - insert x seen) + 1)"
      by blast
    moreover have "list_pages nt lenient c limit cursor seen acc s =
        list_pages nt lenient c limit x (insert x seen) (acc @ tp_tunnels page) s1"
      by (subst list_pages_unfold) (simp add: d px)
    moreover have "list_pages (recording nt) lenient c limit cursor seen acc (sent, s) =
        list_pages (recording nt) lenient c limit x (insert x seen) (acc @ tp_tunnels page) (sent1, s1)"
      by (subst list_pages_unfold) (simp add: r(1) px)
    ultimately show ?thesis using r(2) step by (intro exI [of _ s'] exI [of _ res'] exI [of _ sent']) simp
  qed
qed

text \<open>
  C23: Listing ends, against any server that gives out finitely many cursors, however it orders or
  repeats them: after at most three requests for each of those cursors and for the first page.
\<close>

theorem listing_terminates:
  assumes "finite C" "cursors_in lenient nt C"
  shows "\<exists>sent s' res. ListTunnelsCtx nt lenient c limit s = Some (s', res) \<and>
     ListTunnelsCtx (recording nt) lenient c limit ([], s) = Some ((sent, s'), res) \<and>
     length sent \<le> 3 * (card C + 1)"
proof -
  from list_pages_return [OF assms, of c limit "''''" "{}" "[]" s "[]"] obtain s' res sent where
    "list_pages nt lenient c limit '''' {} [] s = Some (s', res)"
    "list_pages (recording nt) lenient c limit '''' {} [] ([], s) = Some ((sent, s'), res)"
    "length sent \<le> 0 + 3 * (card (C - {}) + 1)"
    by auto
  then show ?thesis unfolding ListTunnelsCtx_def by (intro exI [of _ sent] exI [of _ s'] exI [of _ res]) simp
qed

text \<open>A server that always answers the same page, with the same cursor.\<close>

definition stuck_answer :: client_answer where
  "stuck_answer = \<lparr>hp_status = 200, hp_headers = [],
     hp_body = json_text (JObj [(''next_cursor'', JStr ''x'')]), hp_broken = False\<rparr>"

definition stuck_net :: "unit net" where
  "stuck_net = \<lparr>nt_url_ok = (\<lambda>_. True), nt_do = (\<lambda>_ s. (s, Inr stuck_answer)), nt_sleep = (\<lambda>_ s. (s, None))\<rparr>"

definition sample_client :: client where
  "sample_client = \<lparr>cl_base = ''http://h'', cl_token = ''t''\<rparr>"

theorem listing_terminates_witness:
  "ListTunnelsCtx stuck_net (\<lambda>_. None) sample_client 0 () = Some ((), Inl RepeatedCursor) \<and>
   (\<exists>sent s' res. ListTunnelsCtx (recording stuck_net) (\<lambda>_. None) sample_client 0 ([], ()) = Some ((sent, s'), res) \<and>
      length sent \<le> 6)"
proof -
  have page: "decodeListPage (\<lambda>_. None) stuck_answer = Inr \<lparr>tp_tunnels = [], tp_next = Some ''x''\<rparr>" by code_simp
  have st: "hp_status stuck_answer = 200" by (simp add: stuck_answer_def)
  have do_page: "doCtx stuck_net sample_client ''GET'' path None [] () = ((), Inr stuck_answer)" for path
    by (simp add: doCtx_def send_attempts.simps stuck_net_def shouldRetry_def st)
  have c: "cursors_in (\<lambda>_. None) stuck_net {''x''}"
    unfolding cursors_in_def by (auto simp: stuck_net_def page)
  have "ListTunnelsCtx stuck_net (\<lambda>_. None) sample_client 0 () = Some ((), Inl RepeatedCursor)"
    unfolding ListTunnelsCtx_def by (simp add: list_pages.simps do_page page)
  then show ?thesis using listing_terminates [OF _ c, of sample_client 0 "()"] by (simp, blast)
qed

end
