(* ===== verification/Listing.thy ===== *)
theory Listing
  imports Tunnels JsonRoundtrip
begin

text \<open>
  What the list of tunnels promises (\<open>ListTunnels\<close> of \<open>internal/server/tunnels/handlers.go\<close>): a cursor
  leads back to the row it was made of, and following the cursors from page to page visits every
  tunnel of the caller once, the newest first.
\<close>

subsection \<open>Cursors\<close>

lemma cursor_names [simp]: "match_field [''c'', ''i''] ''c'' = Some ''c''" "match_field [''c'', ''i''] ''i'' = Some ''i''"
  by (simp_all add: match_field_def)

lemma rfc3339_ascii: "rfc3339 zone t = Some s \<Longrightarrow> \<bar>zone t\<bar> < 1440 \<Longrightarrow> list_all is_ascii s"
  using rfc3339_bound time_char_plain by (fastforce simp: list_all_iff)

text \<open>A written time has no character to escape, so \<open>time.Time\<close> finds it in the literal.\<close>

lemma decode_time_text:
  assumes "rfc3339 zone t = Some s" "\<bar>zone t\<bar> < 1440"
  shows "Option.bind (literal_of_value (written_string s)) (read_time lenient) = Some (t * 1000)"
proof -
  have "json_escape c = [c]" if "c \<in> set s" for c
    using that rfc3339_bound [OF assms] time_char_plain by (fastforce simp: list_all_iff json_escape_plain)
  then have "concat (map json_escape s) = s" by (induction s) auto
  then show ?thesis by (simp add: literal_written_string read_time_def rfc3339_roundtrip [OF assms])
qed

text \<open>The times that a cursor can carry: within the four-digit years, and not the zero time.\<close>

definition cursor_time :: "(time \<Rightarrow> int) \<Rightarrow> time \<Rightarrow> bool" where
  "cursor_time zone t \<longleftrightarrow> rfc3339 zone t \<noteq> None \<and> \<bar>zone t\<bar> < 1440 \<and> t * 1000 \<noteq> zero_time"

lemma decode_encode_cursor:
  assumes "cursor_time zone t" "list_all is_ascii tid" "tid \<noteq> []"
  shows "decodeCursor lenient (encodeCursor zone t tid) = Inr \<lparr>lc_created = t * 1000, lc_id = tid\<rparr>"
proof -
  obtain s where s: "rfc3339 zone t = Some s" and z: "\<bar>zone t\<bar> < 1440" "t * 1000 \<noteq> zero_time"
    using assms(1) by (auto simp: cursor_time_def)
  define j where "j = JObj [(''c'', JStr s), (''i'', JStr tid)]"
  have "parse_value (json_text j @ []) = Done (to_jval j) []"
    by (rule parse_value_text)
       (use rfc3339_ascii [OF s z(1)] assms(2) in \<open>simp_all add: j_def is_ascii_def\<close>)
  then have p: "parse_value (json_text j) = Done (VObj [(''c'', written_string s), (''i'', written_string tid)]) []"
    by (simp add: j_def)
  have "unmarshal_cursor lenient (json_text j) = Some \<lparr>lc_created = t * 1000, lc_id = tid\<rparr>"
    by (simp add: unmarshal_cursor_def p skip_ws_def decode_time_text [OF s z(1)] no_cursor_def)
  moreover have "b64_encode b64_url_alphabet (json_text j) \<noteq> []"
  proof
    assume "b64_encode b64_url_alphabet (json_text j) = []"
    then have "length (b64_encode b64_url_alphabet (json_text j)) = 0" by simp
    then show False by (simp add: length_b64_encode j_def)
  qed
  ultimately show ?thesis
    using assms(3) z(2) by (simp add: decodeCursor_def encodeCursor_def s j_def [symmetric])
qed

text \<open>
  A cursor that the server hands out decodes to the creation time and identifier of the row it
  was made of, to the microsecond, whatever the time zone of the process.
\<close>

lemma cursor_roundtrip:
  assumes "rfc3339 zone t \<noteq> None" "\<bar>zone t\<bar> < 1440" "t * 1000 \<noteq> zero_time" "list_all is_ascii tid" "tid \<noteq> []"
  shows "decodeCursor lenient (encodeCursor zone t tid) = Inr \<lparr>lc_created = t * 1000, lc_id = tid\<rparr>"
  by (rule decode_encode_cursor) (use assms in \<open>simp_all add: cursor_time_def\<close>)

lemma sample_time:
  "rfc3339 (\<lambda>_. 330) 1700000000123450 = Some ''2023-11-15T03:43:20.12345+05:30''"
proof -
  have civil: "civil_of_days 19676 = (2023, 11, 15)"
    by (simp add: civil_of_days_def march_split_def)
  have shown: "show_nat 123450 = ''123450''" "show_nat 2023 = ''2023''" "show_nat 11 = ''11''" "show_nat 15 = ''15''"
    "show_nat 3 = ''3''" "show_nat 43 = ''43''" "show_nat 20 = ''20''" "show_nat 5 = ''5''" "show_nat 30 = ''30''"
    by (simp_all add: show_nat.simps)
  have frac: "show_frac 123450 6 = ''.12345''"
    by (simp add: show_frac_def pad_zeros_def shown)
  have zone: "show_zone 330 = ''+05:30''"
    by (simp add: show_zone_def pad_int_def pad_zeros_def shown)
  show ?thesis
    by (simp add: rfc3339_def civil frac zone) (simp add: pad_int_def pad_zeros_def shown)
qed

lemma cursor_roundtrip_witness:
  "decodeCursor (\<lambda>_. None) (encodeCursor (\<lambda>_. 330) 1700000000123450 ''t-2222222222222222'') =
     Inr \<lparr>lc_created = 1700000000123450000, lc_id = ''t-2222222222222222''\<rparr>"
  using cursor_roundtrip [of "\<lambda>_. 330" 1700000000123450 "''t-2222222222222222''" "\<lambda>_. None"]
  by (simp add: sample_time zero_time_def days_of_civil_def is_ascii_def)

subsection \<open>Pages\<close>

text \<open>The order of the list: sort keys of the database are different for different identifiers.\<close>

definition user_rows :: "string \<Rightarrow> db \<Rightarrow> tunnel_row list" where
  "user_rows uid d = filter (\<lambda>r. tn_user r = uid) (db_tunnels d)"

definition listing :: "(string \<Rightarrow> string) \<Rightarrow> string \<Rightarrow> db \<Rightarrow> tunnel_row list" where
  "listing collate uid d = rev (sort_key (row_key collate) (user_rows uid d))"

lemma listing_set [simp]: "set (listing collate uid d) = set (user_rows uid d)"
  by (simp add: listing_def)

lemma filter_rev_sort: "filter P (rev (sort_key f xs)) = rev (sort_key f (filter P xs))"
  by (simp add: rev_filter [symmetric] filter_sort)

lemma sql_list_eq:
  "sql_list_tunnels collate uid ts tid n d =
     take n (filter (\<lambda>r. row_key collate r < (ts, collate tid)) (listing collate uid d))"
  by (simp add: sql_list_tunnels_def listing_def user_rows_def filter_rev_sort conj_commute)

lemma listing_distinct_keys:
  assumes "schema_ok d" "inj collate"
  shows "distinct (map (row_key collate) (listing collate uid d))"
proof -
  have "distinct (map tn_id (user_rows uid d))"
    using schema_okD(1) [OF assms(1)] by (simp add: user_rows_def distinct_map_filter)
  then have "distinct (map tn_id (listing collate uid d))"
    by (simp add: listing_def distinct_map)
  then show ?thesis
    by (auto simp: distinct_map row_key_def inj_on_def dest: injD [OF assms(2)])
qed

lemma listing_decreasing:
  assumes "schema_ok d" "inj collate"
  shows "sorted_wrt (\<lambda>a b. row_key collate b < row_key collate a) (listing collate uid d)"
proof -
  have "distinct (map (row_key collate) (sort_key (row_key collate) (user_rows uid d)))"
    using listing_distinct_keys [OF assms, of uid] by (simp add: listing_def rev_map [symmetric])
  then have "sorted_wrt (<) (map (row_key collate) (sort_key (row_key collate) (user_rows uid d)))"
    by (simp add: strict_sorted_iff)
  then show ?thesis by (simp add: listing_def sorted_wrt_rev sorted_wrt_map)
qed

text \<open>One request: the rows of the page at a cursor and the cursor to the next.\<close>

definition list_page ::
  "(string \<Rightarrow> int option) \<Rightarrow> (string \<Rightarrow> string) \<Rightarrow> (time \<Rightarrow> int) \<Rightarrow> string \<Rightarrow> nat \<Rightarrow> db \<Rightarrow> string \<Rightarrow>
     (tunnel_row list \<times> string option) option" where
  "list_page lenient collate zone uid limit d cursor =
     (case decodeCursor lenient cursor of
        Inl _ \<Rightarrow> None
      | Inr cur \<Rightarrow>
          (case page_position cur of (ts, tid) \<Rightarrow>
             Some (cut_page zone limit (sql_list_tunnels collate uid ts tid (limit + 1) d))))"

text \<open>Following the cursors, with a bound on the number of pages.\<close>

fun follow ::
  "(string \<Rightarrow> int option) \<Rightarrow> (string \<Rightarrow> string) \<Rightarrow> (time \<Rightarrow> int) \<Rightarrow> string \<Rightarrow> nat \<Rightarrow> db \<Rightarrow> nat \<Rightarrow> string \<Rightarrow>
     tunnel_row list option" where
  "follow lenient collate zone uid limit d 0 cursor = None"
| "follow lenient collate zone uid limit d (Suc n) cursor =
     (case list_page lenient collate zone uid limit d cursor of
        None \<Rightarrow> None
      | Some (rows, None) \<Rightarrow> Some rows
      | Some (rows, Some c) \<Rightarrow> map_option (\<lambda>rest. rows @ rest) (follow lenient collate zone uid limit d n c))"

text \<open>The rows for which cursors work.\<close>

definition listable :: "(time \<Rightarrow> int) \<Rightarrow> tunnel_row \<Rightarrow> bool" where
  "listable zone r \<longleftrightarrow>
     cursor_time zone (tn_created r) \<and> tn_created r < far_future \<and> list_all is_ascii (tn_id r) \<and> tn_id r \<noteq> []"

text \<open>
  The page at a position that splits the list is a prefix of the second part, and its cursor
  splits the list behind that prefix.
\<close>

definition splits :: "(string \<Rightarrow> string) \<Rightarrow> tunnel_row list \<Rightarrow> time \<times> string \<Rightarrow> tunnel_row list \<Rightarrow> bool" where
  "splits collate l K b \<longleftrightarrow>
     (\<exists>a. l = a @ b \<and> (\<forall>r \<in> set a. \<not> row_key collate r < K) \<and> (\<forall>r \<in> set b. row_key collate r < K))"

lemma splits_filter: "splits collate l K b \<Longrightarrow> filter (\<lambda>r. row_key collate r < K) l = b"
  unfolding splits_def by (auto simp: filter_empty_conv)

lemma splits_next:
  assumes dec: "sorted_wrt (\<lambda>a b. row_key collate b < row_key collate a) l"
    and sp: "splits collate l K b" and n: "0 < limit" "limit < length b"
  shows "splits collate l (row_key collate (b ! (limit - 1))) (drop limit b)"
proof -
  let ?key = "row_key collate"
  let ?x = "b ! (limit - 1)"
  obtain a where l: "l = a @ b" using sp by (auto simp: splits_def)
  have b: "b = take (limit - 1) b @ ?x # drop limit b"
    using n by (metis Suc_pred' id_take_nth_drop less_imp_diff_less)
  have all: "sorted_wrt (\<lambda>a b. ?key b < ?key a) (a @ take (limit - 1) b @ ?x # drop limit b)"
    using dec unfolding l by (subst (asm) b) simp
  then have lo: "\<forall>r \<in> set (drop limit b). ?key r < ?key ?x"
    and hi: "\<forall>r \<in> set (a @ take (limit - 1) b). ?key ?x < ?key r"
    by (auto simp: sorted_wrt_append)
  show ?thesis
    unfolding splits_def
  proof (intro exI [of _ "a @ take (limit - 1) b @ [?x]"] conjI)
    show "l = (a @ take (limit - 1) b @ [?x]) @ drop limit b" unfolding l by (subst b) simp
    show "\<forall>r \<in> set (a @ take (limit - 1) b @ [?x]). \<not> ?key r < ?key ?x"
    proof
      fix r assume "r \<in> set (a @ take (limit - 1) b @ [?x])"
      then have "?key r = ?key ?x \<or> ?key ?x < ?key r" using hi by auto
      then show "\<not> ?key r < ?key ?x" by (auto dest: order.asym)
    qed
    show "\<forall>r \<in> set (drop limit b). ?key r < ?key ?x" by (rule lo)
  qed
qed

lemma follow_listing:
  assumes dec: "sorted_wrt (\<lambda>a b. row_key collate b < row_key collate a) (listing collate uid d)"
    and rows: "\<And>r. r \<in> set (listing collate uid d) \<Longrightarrow> listable zone r" and limit: "0 < limit"
    and cur: "decodeCursor lenient cursor = Inr c" "page_position c = (ts, tid)"
    and sp: "splits collate (listing collate uid d) (ts, collate tid) b" and fuel: "length b < n"
  shows "follow lenient collate zone uid limit d n cursor = Some b"
  using cur sp fuel
proof (induction n arbitrary: cursor c ts tid b)
  case (Suc n)
  have page: "list_page lenient collate zone uid limit d cursor = Some (cut_page zone limit (take (limit + 1) b))"
    using Suc.prems(1,2) splits_filter [OF Suc.prems(3)] by (simp add: list_page_def sql_list_eq)
  show ?case
  proof (cases "limit < length b")
    case False
    then show ?thesis by (simp add: page cut_page_def)
  next
    case True
    let ?x = "b ! (limit - 1)"
    have "?x \<in> set b" using True by (simp add: less_imp_diff_less)
    moreover have "set b \<subseteq> set (listing collate uid d)"
      using Suc.prems(3) by (auto simp: splits_def simp del: listing_set)
    ultimately have x: "listable zone ?x" by (intro rows) blast
    let ?cursor = "encodeCursor zone (tn_created ?x) (tn_id ?x)"
    have nth: "take (limit + 1) b ! (limit - 1) = ?x" using True limit by simp
    have "list_page lenient collate zone uid limit d cursor = Some (take limit b, Some ?cursor)"
      using True limit by (simp add: page cut_page_def nth min_def)
    moreover have "follow lenient collate zone uid limit d n ?cursor = Some (drop limit b)"
    proof (rule Suc.IH)
      show "decodeCursor lenient ?cursor = Inr \<lparr>lc_created = tn_created ?x * 1000, lc_id = tn_id ?x\<rparr>"
        by (rule decode_encode_cursor) (use x in \<open>simp_all add: listable_def\<close>)
      show "page_position \<lparr>lc_created = tn_created ?x * 1000, lc_id = tn_id ?x\<rparr> = (tn_created ?x, tn_id ?x)"
        using x by (simp add: page_position_def listable_def)
      show "splits collate (listing collate uid d) (tn_created ?x, collate (tn_id ?x)) (drop limit b)"
        using splits_next [OF dec Suc.prems(3) limit True] by (simp add: row_key_def)
      show "length (drop limit b) < n" using Suc.prems(4) limit True by simp
    qed
    ultimately show ?thesis by simp
  qed
qed simp

text \<open>
  Following the cursors from the first page, with any page size, ends and visits every tunnel of
  the caller exactly once, the newest first.  As many requests as there are tunnels, and one more,
  are enough.
\<close>

lemma pagination_complete:
  assumes "schema_ok d" "inj collate" "0 < limit" "length (user_rows uid d) < n"
    and "\<And>r. r \<in> set (user_rows uid d) \<Longrightarrow> listable zone r"
  shows "\<exists>rows. follow lenient collate zone uid limit d n '''' = Some rows \<and>
     distinct rows \<and> set rows = set (user_rows uid d) \<and>
     sorted_wrt (\<lambda>a b. tn_created b \<le> tn_created a) rows"
proof -
  let ?l = "listing collate uid d"
  note dec = listing_decreasing [OF assms(1,2), of uid]
  have "follow lenient collate zone uid limit d n '''' = Some ?l"
  proof (rule follow_listing [OF dec _ assms(3)])
    show "\<And>r. r \<in> set ?l \<Longrightarrow> listable zone r" using assms(5) by simp
    show "decodeCursor lenient '''' = Inr no_cursor" by (simp add: decodeCursor_def)
    show "page_position no_cursor = (far_future, last_id)" by (simp add: page_position_def no_cursor_def)
    show "splits collate ?l (far_future, collate last_id) ?l"
      unfolding splits_def
      by (rule exI [of _ "[]"]) (use assms(5) in \<open>auto simp: listable_def row_key_def less_prod_def\<close>)
    show "length ?l < n" using assms(4) by (simp add: listing_def)
  qed
  moreover have "distinct ?l" using listing_distinct_keys [OF assms(1,2), of uid] by (simp add: distinct_map)
  moreover have "sorted_wrt (\<lambda>a b. tn_created b \<le> tn_created a) ?l"
    using dec by (rule sorted_wrt_mono_rel [rotated]) (auto simp: row_key_def less_prod_def)
  ultimately show ?thesis by auto
qed

definition two_tunnels :: db where
  "two_tunnels =
     (let d = sample_db Active 9; t = hd (db_tunnels d)
      in d\<lparr>db_tunnels := [t, t\<lparr>tn_id := ''t2'', tn_created := 1000000\<rparr>]\<rparr>)"

lemma two_tunnels_facts:
  "user_rows ''u1'' two_tunnels = db_tunnels two_tunnels" "schema_ok two_tunnels" "length (db_tunnels two_tunnels) = 2"
  by (simp_all add: user_rows_def two_tunnels_def sample_db_def Let_def schema_ok_def)

lemma epoch: "civil_of_days 0 = (1970, 1, 1)"
  by (simp add: civil_of_days_def march_split_def)

lemma two_tunnels_listable: "r \<in> set (db_tunnels two_tunnels) \<Longrightarrow> listable (\<lambda>_. 0) r"
proof -
  have "cursor_time (\<lambda>_. 0) 0" "cursor_time (\<lambda>_. 0) 1000000"
    using epoch by (simp_all add: cursor_time_def rfc3339_def zero_time_def days_of_civil_def)
  then show "r \<in> set (db_tunnels two_tunnels) \<Longrightarrow> listable (\<lambda>_. 0) r"
    by (auto simp: two_tunnels_def Let_def sample_db_def listable_def far_future_def days_of_civil_def is_ascii_def)
qed

lemma pagination_complete_witness:
  "\<exists>rows. follow (\<lambda>_. None) (\<lambda>s. s) (\<lambda>_. 0) ''u1'' 1 two_tunnels 3 '''' = Some rows \<and>
     distinct rows \<and> set rows = set (db_tunnels two_tunnels)"
  using pagination_complete [of two_tunnels "\<lambda>s. s" 1 "''u1''" 3 "\<lambda>_. 0" "\<lambda>_. None"]
  by (auto simp: two_tunnels_facts two_tunnels_listable)

end
