(* ===== verification/ClientServer.thy ===== *)
theory ClientServer
  imports ClientRetry Listing
begin

text \<open>
  The client of \<open>internal/cli/client.go\<close> against the handlers of \<open>internal/server\<close>: what the server
  marshals is what the client reads, listing over the API gives the whole list, and a creation over
  a network that loses, repeats and truncates messages makes at most one tunnel.
\<close>

section \<open>Reading the server's JSON\<close>

lemma atoi_show_int:
  assumes "- (2 ^ 63) \<le> i" "i < 2 ^ 63"
  shows "atoi (show_int i) = Some i"
proof -
  have d: "\<not> prefix ''-'' (show_nat n)" "\<not> prefix ''+'' (show_nat n)" for n
    using show_nat_digits [of n] by (auto simp: prefix_def is_digit_def in_range_def)
  show ?thesis
  proof (cases "i < 0")
    case True
    then show ?thesis using assms by (simp add: atoi_def show_int_def show_nat_digits dec_value_show_nat)
  next
    case False
    then show ?thesis using assms by (simp add: atoi_def show_int_def show_nat_digits dec_value_show_nat d)
  qed
qed

text \<open>The value that the client has of a tunnel of the server; times in nanoseconds.\<close>

definition client_frp_of :: "frp_config \<Rightarrow> client_frp" where
  "client_frp_of f =
     \<lparr>cf_addr = fc_server_addr f, cf_port = fc_server_port f, cf_token = fc_server_token f,
      cf_proxy_name = fc_proxy_name f, cf_proxy_type = fc_proxy_type f, cf_subdomain = fc_subdomain f,
      cf_local_ip = fc_local_ip f, cf_local_port = fc_local_port f\<rparr>"

definition client_view :: "tunnel_response \<Rightarrow> client_tunnel" where
  "client_view r =
     \<lparr>ct_id = tr_id r, ct_status = tr_status r, ct_type = tr_type r, ct_url = tr_url r,
      ct_expires = map_option (\<lambda>t. t * 1000) (tr_expires r), ct_token = tr_token r,
      ct_frp = map_option client_frp_of (tr_frp r)\<rparr>"

definition int_field :: "int \<Rightarrow> bool" where
  "int_field i \<longleftrightarrow> - (2 ^ 63) \<le> i \<and> i < 2 ^ 63"

text \<open>What can be marshalled and read back: ASCII strings, numbers of 64 bits, times with a zone.\<close>

definition frp_plain :: "frp_config \<Rightarrow> bool" where
  "frp_plain f \<longleftrightarrow>
     list_all (list_all is_ascii)
       [fc_server_addr f, fc_server_token f, fc_proxy_name f, fc_proxy_type f, fc_subdomain f, fc_local_ip f] \<and>
     int_field (fc_server_port f) \<and> int_field (fc_local_port f)"

definition response_plain :: "(time \<Rightarrow> int) \<Rightarrow> tunnel_response \<Rightarrow> bool" where
  "response_plain zone r \<longleftrightarrow>
     list_all (list_all is_ascii) [tr_id r, tr_status r, tr_type r, tr_url r, tr_token r] \<and>
     (case tr_expires r of None \<Rightarrow> True | Some t \<Rightarrow> \<bar>zone t\<bar> < 1440) \<and>
     (case tr_frp r of None \<Rightarrow> True | Some f \<Rightarrow> frp_plain f)"

lemma tunnel_field_names [simp]:
  "match_field tunnel_fields ''tunnel_id'' = Some ''tunnel_id''"
  "match_field tunnel_fields ''status'' = Some ''status''"
  "match_field tunnel_fields ''type'' = Some ''type''"
  "match_field tunnel_fields ''public_url'' = Some ''public_url''"
  "match_field tunnel_fields ''expires_at'' = Some ''expires_at''"
  "match_field tunnel_fields ''runtime_token'' = Some ''runtime_token''"
  "match_field tunnel_fields ''frp'' = Some ''frp''"
  by (simp_all add: match_field_def tunnel_fields_def)

lemma decode_frp_json:
  assumes "frp_plain f"
  shows "decode_frp None (to_jval (frp_json f)) = Some (Some (client_frp_of f))"
proof -
  have n: "atoi (show_int (fc_server_port f)) = Some (fc_server_port f)"
    "atoi (show_int (fc_local_port f)) = Some (fc_local_port f)"
    using assms by (auto simp: frp_plain_def int_field_def intro: atoi_show_int)
  show ?thesis
    by (simp add: decode_frp_def frp_json_def decode_struct_def frp_fields_def zero_frp_def match_field_def
        decode_int_def n frp_of_fields_def client_frp_of_def get_str_def get_int_def)
qed

lemma decode_time_json:
  assumes "time_json zone t = Some j" "case t of None \<Rightarrow> True | Some t \<Rightarrow> \<bar>zone t\<bar> < 1440"
  shows "decode_time lenient (to_jval j) = Some (map_option (\<lambda>t. t * 1000) t)"
  using assms
  by (auto simp: time_json_def decode_time_def decode_time_text split: option.splits)

lemma decode_tunnel_json:
  assumes "tunnel_json zone r = Some j" "response_plain zone r"
  shows "decode_tunnel lenient zero_tunnel (to_jval j) = Some (client_view r)"
proof -
  obtain t where t: "time_json zone (tr_expires r) = Some t" using assms(1) by (auto simp: tunnel_json_def)
  have time: "decode_time lenient (to_jval t) = Some (map_option (\<lambda>t. t * 1000) (tr_expires r))"
    by (rule decode_time_json [OF t]) (use assms(2) in \<open>simp add: response_plain_def\<close>)
  have frp: "decode_frp None (to_jval (frp_json f)) = Some (Some (client_frp_of f))" if "tr_frp r = Some f" for f
    by (rule decode_frp_json) (use assms(2) that in \<open>simp add: response_plain_def\<close>)
  have j: "to_jval j = VObj
      ([(''tunnel_id'', written_string (tr_id r)), (''status'', written_string (tr_status r)), (''type'', written_string (tr_type r)),
        (''public_url'', written_string (tr_url r)), (''expires_at'', to_jval t)] @
       (if tr_token r = '''' then [] else [(''runtime_token'', written_string (tr_token r))]) @
       (case tr_frp r of None \<Rightarrow> [] | Some f \<Rightarrow> [(''frp'', to_jval (frp_json f))]))"
    using assms(1) by (auto simp: tunnel_json_def t split: option.split)
  show ?thesis
    unfolding j
    by (cases "tr_frp r")
       (simp_all add: decode_tunnel_def store_member_def zero_tunnel_def time frp client_view_def)
qed

lemma time_json_plain:
  assumes "time_json zone t = Some j" "case t of None \<Rightarrow> True | Some t \<Rightarrow> \<bar>zone t\<bar> < 1440"
  shows "json_ascii j \<and> nests n j"
proof (cases t)
  case None
  then show ?thesis using assms(1) by (simp add: time_json_def)
next
  case (Some u)
  with assms(1) obtain s where s: "rfc3339 zone u = Some s" "j = JStr s" by (auto simp: time_json_def)
  with Some assms(2) show ?thesis using rfc3339_ascii [OF s(1)] by simp
qed

lemma frp_json_plain: "frp_plain f \<Longrightarrow> json_ascii (frp_json f) \<and> nests (Suc n) (frp_json f)"
  by (simp add: frp_json_def frp_plain_def is_ascii_def)

lemma tunnel_json_plain:
  assumes "tunnel_json zone r = Some j" "response_plain zone r"
  shows "json_ascii j \<and> nests (Suc (Suc n)) j"
proof -
  obtain t where t: "time_json zone (tr_expires r) = Some t" using assms(1) by (auto simp: tunnel_json_def)
  have time: "json_ascii t \<and> nests m t" for m
    by (rule time_json_plain [OF t]) (use assms(2) in \<open>simp add: response_plain_def\<close>)
  have frp: "json_ascii (frp_json f) \<and> nests (Suc n) (frp_json f)" if "tr_frp r = Some f" for f
    by (rule frp_json_plain) (use assms(2) that in \<open>simp add: response_plain_def\<close>)
  have j: "j = JObj
      ([(''tunnel_id'', JStr (tr_id r)), (''status'', JStr (tr_status r)), (''type'', JStr (tr_type r)),
        (''public_url'', JStr (tr_url r)), (''expires_at'', t)] @
       (if tr_token r = '''' then [] else [(''runtime_token'', JStr (tr_token r))]) @
       (case tr_frp r of None \<Rightarrow> [] | Some f \<Rightarrow> [(''frp'', frp_json f)]))"
    using assms(1) by (simp add: tunnel_json_def t)
  have strings: "list_all (list_all is_ascii) [tr_id r, tr_status r, tr_type r, tr_url r, tr_token r]"
    using assms(2) by (simp add: response_plain_def)
  show ?thesis
    unfolding j using strings time frp by (cases "tr_frp r") (simp_all add: is_ascii_def)
qed

lemma parse_body:
  assumes "json_ascii j" "nests 10000 j"
  shows "parse_value (json_text j @ ''\<newline>'') = Done (to_jval j) ''\<newline>''"
  by (rule parse_value_text) (use assms in \<open>simp_all add: ends_def\<close>)

lemma parse_tunnel:
  assumes "tunnel_json zone r = Some j" "response_plain zone r"
  shows "parse_value (json_text j @ ''\<newline>'') = Done (to_jval j) ''\<newline>''"
proof -
  have "(10000 :: nat) = Suc (Suc 9998)" by simp
  then show ?thesis using tunnel_json_plain [OF assms, of 9998] by (intro parse_body) simp_all
qed

lemma decode_answer:
  assumes "tunnel_json zone r = Some j" "response_plain zone r"
    and "hp_body a = json_text j @ ''\<newline>''" "\<not> hp_broken a" "length (hp_body a) \<le> maxClientResponseBodySize"
  shows "decodeTunnelResponse lenient a = Inr (client_view r)"
  using assms(3-5)
  by (simp add: decodeTunnelResponse_def read_limited_def unmarshal_def parse_tunnel [OF assms(1,2)]
      decode_tunnel_json [OF assms(1,2)] skip_ws_def json_space_def)

text \<open>
  C35: What the server writes of a tunnel is what the client reads of it, credential and frp settings
  included: in the answer to a creation and in the answer to a lookup.
\<close>

theorem tunnel_answer_roundtrip:
  assumes "tunnel_json zone r = Some j" "response_plain zone r"
    and "hp_body a = json_text j @ ''\<newline>''" "\<not> hp_broken a" "length (hp_body a) \<le> maxClientResponseBodySize"
  shows "decodeTunnelResponse lenient a = Inr (client_view r) \<and>
    decode_stream (decode_tunnel lenient zero_tunnel) a = Some (client_view r)"
proof -
  note p = parse_tunnel [OF assms(1,2)] and d = decode_tunnel_json [OF assms(1,2), of lenient]
  have "decodeTunnelResponse lenient a = Inr (client_view r)" by (rule decode_answer [OF assms])
  moreover have "decode_stream (decode_tunnel lenient zero_tunnel) a = Some (client_view r)"
    using assms(3,4) by (simp add: decode_stream_def scan_top_def p d)
  ultimately show ?thesis by blast
qed

definition sample_response :: tunnel_response where
  "sample_response =
     \<lparr>tr_id = ''t1'', tr_status = ''reserved'', tr_type = ''http'', tr_url = ''https://t1.h'', tr_expires = None,
      tr_token = ''rt_x'',
      tr_frp = Some \<lparr>fc_server_addr = ''h'', fc_server_port = 7, fc_server_token = ''x'', fc_proxy_name = ''t1'',
        fc_proxy_type = ''http'', fc_subdomain = ''t1'', fc_local_ip = ''127.0.0.1'', fc_local_port = 3\<rparr>\<rparr>"

definition sample_answer :: client_answer where
  "sample_answer =
     \<lparr>hp_status = 201, hp_headers = [], hp_body = json_text (the (tunnel_json (\<lambda>_. 0) sample_response)) @ ''\<newline>'',
      hp_broken = False\<rparr>"

lemma sample_answer_facts:
  "\<exists>j. tunnel_json (\<lambda>_. 0) sample_response = Some j \<and> hp_body sample_answer = json_text j @ ''\<newline>''"
  "response_plain (\<lambda>_. 0) sample_response"
  "length (hp_body sample_answer) \<le> maxClientResponseBodySize"
proof -
  show "\<exists>j. tunnel_json (\<lambda>_. 0) sample_response = Some j \<and> hp_body sample_answer = json_text j @ ''\<newline>''"
    by (simp add: sample_answer_def tunnel_json_def time_json_def sample_response_def)
  show "response_plain (\<lambda>_. 0) sample_response"
    by (simp add: response_plain_def sample_response_def frp_plain_def int_field_def is_ascii_def)
  have "length (hp_body sample_answer) \<le> 400" by code_simp
  then show "length (hp_body sample_answer) \<le> maxClientResponseBodySize" by (simp add: maxClientResponseBodySize_def)
qed

theorem tunnel_answer_roundtrip_witness:
  "decodeTunnelResponse (\<lambda>_. None) sample_answer = Inr (client_view sample_response)"
proof -
  obtain j where "tunnel_json (\<lambda>_. 0) sample_response = Some j" "hp_body sample_answer = json_text j @ ''\<newline>''"
    using sample_answer_facts(1) by blast
  from tunnel_answer_roundtrip [OF this(1) sample_answer_facts(2) this(2) _ sample_answer_facts(3)]
  show ?thesis by (simp add: sample_answer_def)
qed

section \<open>Listing\<close>

text \<open>
  A request as the server's HTTP library hands it to a handler, and a response as the client sees it.
  The base is where the server's root is reached, so it is what comes before the path in the URL.
  This is so for every base without a question mark.  \<open>normalizeServerURL\<close> also lets a URL with
  a lone \<open>?\<close> at its end through; with such a base the paths of the API would be sent as a query and
  would reach none of its routes, which \<open>deliver\<close> does not describe.
\<close>

definition deliver :: "string \<Rightarrow> client_request \<Rightarrow> request" where
  "deliver base q =
     (let target = drop (length base) (hq_url q);
          (path, query) = (case split_first CHR ''?'' target of None \<Rightarrow> (target, '''') | Some pq \<Rightarrow> pq)
      in \<lparr>rq_method = hq_method q, rq_path = path, rq_escaped_path = path, rq_raw_query = query,
          rq_headers = hq_headers q, rq_body = (case hq_body q of None \<Rightarrow> '''' | Some b \<Rightarrow> b),
          rq_broken_at = None, rq_limit = None\<rparr>)"

definition answer_of :: "wop list \<Rightarrow> client_answer" where
  "answer_of ops =
     \<lparr>hp_status = rs_status (render ops), hp_headers = rs_headers (render ops), hp_body = rs_body (render ops),
      hp_broken = False\<rparr>"

subsection \<open>The request of a page\<close>

definition query_char :: "char \<Rightarrow> bool" where
  "query_char c \<longleftrightarrow> c \<notin> {CHR ''&'', CHR ''='', CHR '';'', CHR ''?''}"

lemma query_escape_chars: "list_all query_char (query_escape s)"
proof -
  have hex: "list_all query_char (percent c)" for c
  proof -
    have "\<forall>n \<in> {..<16}. query_char (upper_hex ! n)"
      unfolding query_char_def upper_hex_def by code_simp
    moreover have "byte c div 16 < 16" "byte c mod 16 < 16" by (simp_all add: less_mult_imp_div_less)
    ultimately show ?thesis by (simp add: percent_def query_char_def)
  qed
  have "query_char c" if "unreserved c" for c
    using that by (auto simp: unreserved_def query_char_def is_lower_def is_upper_def is_digit_def in_range_def)
  then show ?thesis
    using hex by (induction s) (auto simp: query_escape_def query_char_def)
qed

lemma query_pair_escape:
  assumes "list_all unreserved k" "k \<noteq> ''''"
  shows "query_pair (k @ ''='' @ query_escape v) = Some (k, v)"
proof -
  have k: "query_escape k = k" using assms(1) by (induction k) (auto simp: query_escape_def)
  have kc: "list_all query_char k" using query_escape_chars [of k] by (simp add: k)
  have "query_unescape k = Some k" using query_roundtrip [of k] by (simp add: k)
  moreover have "CHR ''='' \<notin> set k" "CHR '';'' \<notin> set k" "CHR '';'' \<notin> set (query_escape v)"
    using kc query_escape_chars [of v] by (auto simp: list_all_iff query_char_def)
  ultimately show ?thesis
    using split_first_append [of "CHR ''=''" k "query_escape v"] assms(2)
    by (simp add: query_pair_def query_roundtrip)
qed

text \<open>The client's query reads back as the cursor and the limit.\<close>

lemma list_query:
  assumes "r = deliver base (client_request_of c ''GET'' (list_path limit cursor) None [])" "base = cl_base c"
  shows "query_get ''cursor'' (rq_raw_query r) = cursor"
    "query_get ''limit'' (rq_raw_query r) = (if 0 < limit then show_int limit else '''')"
proof -
  let ?c = "''cursor='' @ query_escape cursor" and ?l = "''limit='' @ query_escape (show_int limit)"
  have pc: "query_pair ?c = Some (''cursor'', cursor)"
    using query_pair_escape [of "''cursor''" cursor] by (simp add: unreserved_def is_lower_def in_range_def)
  have pl: "query_pair ?l = Some (''limit'', show_int limit)"
    using query_pair_escape [of "''limit''" "show_int limit"] by (simp add: unreserved_def is_lower_def in_range_def)
  have amp: "CHR ''&'' \<notin> set ?c" "CHR ''&'' \<notin> set ?l"
    using query_escape_chars [of cursor] query_escape_chars [of "show_int limit"] by (auto simp: list_all_iff query_char_def)
  have q: "rq_raw_query r = join_with ''&'' ((if cursor = '''' then [] else [?c]) @ (if 0 < limit then [?l] else []))"
    (is "_ = ?q")
  proof (cases "?q = ''''")
    case True
    then have "list_path limit cursor = ''/v1/tunnels''" by (auto simp: list_path_def split: if_splits)
    then show ?thesis using True by (simp add: assms deliver_def client_request_of_def Let_def)
  next
    case False
    then have "list_path limit cursor = ''/v1/tunnels'' @ CHR ''?'' # ?q" by (auto simp: list_path_def)
    then show ?thesis
      using split_first_append [of "CHR ''?''" "''/v1/tunnels''" ?q]
      by (simp add: assms deliver_def client_request_of_def Let_def)
  qed
  have "parse_query ?q = (if cursor = '''' then [] else [(''cursor'', cursor)]) @
      (if 0 < limit then [(''limit'', show_int limit)] else [])"
    using split_char_single [OF amp(1)] split_char_single [OF amp(2)] split_char_append [OF amp(1), of ?l] pc pl
    by (auto simp: parse_query_def List.map_filter_def query_pair_def)
  then show "query_get ''cursor'' (rq_raw_query r) = cursor"
    "query_get ''limit'' (rq_raw_query r) = (if 0 < limit then show_int limit else '''')"
    by (auto simp: q query_get_def)
qed

subsection \<open>The answer\<close>

lemma page_field_names [simp]:
  "match_field [''tunnels'', ''next_cursor''] ''tunnels'' = Some ''tunnels''"
  "match_field [''tunnels'', ''next_cursor''] ''next_cursor'' = Some ''next_cursor''"
  by (simp_all add: match_field_def)

lemma decode_tunnels_json:
  assumes "those (map (tunnel_json zone) rs) = Some js" "list_all (response_plain zone) rs"
  shows "decode_tunnels lenient [] (map to_jval js) = Some (map client_view rs) \<and>
     list_all json_ascii js \<and> list_all (nests (Suc (Suc n))) js"
  using assms
proof (induction rs arbitrary: js)
  case (Cons r rs)
  then obtain j js' where j: "tunnel_json zone r = Some j" "those (map (tunnel_json zone) rs) = Some js'" "js = j # js'"
    by (auto split: option.splits)
  with Cons show ?case using decode_tunnel_json [OF j(1)] tunnel_json_plain [OF j(1)] by simp
qed simp

lemma list_answer:
  assumes "page_json cfg zone (rows, cur) = Some j" "list_all (response_plain zone) (map (response_of_row cfg) rows)"
    and "case cur of None \<Rightarrow> True | Some x \<Rightarrow> list_all is_ascii x"
  shows "decodeListPage lenient (answer_of (SetHeader ''Content-Type'' ''application/json'' # writeJSON (Some j))) =
     Inr \<lparr>tp_tunnels = map (\<lambda>r. client_view (response_of_row cfg r)) rows, tp_next = cur\<rparr>"
proof -
  let ?cur = "case cur of None \<Rightarrow> JNull | Some c \<Rightarrow> JStr c"
  obtain js where js: "those (map (tunnel_json zone) (map (response_of_row cfg) rows)) = Some js"
    "j = JObj [(''next_cursor'', ?cur), (''tunnels'', JArr js)]"
    using assms(1) by (auto simp: page_json_def comp_def)
  note d = decode_tunnels_json [OF js(1) assms(2), of _ 9996]
  have "json_ascii j" using d assms(3) by (cases cur) (simp_all add: js(2) is_ascii_def)
  moreover have "nests 10000 j" using d by (cases cur) (simp_all add: js(2))
  ultimately have p: "parse_value (json_text j @ ''\<newline>'') = Done (to_jval j) ''\<newline>''" by (rule parse_body)
  have "to_jval j = VObj [(''next_cursor'', case cur of None \<Rightarrow> VNull | Some c \<Rightarrow> written_string c), (''tunnels'', VArr (map to_jval js))]"
    by (simp add: js(2) split: option.split)
  moreover have "rs_status (render (SetHeader h v # writeJSON (Some j))) = 200"
    "rs_body (render (SetHeader h v # writeJSON (Some j))) = json_text j @ ''\<newline>''" for h v
    by (simp_all add: writeJSON_def render_simps)
  ultimately show ?thesis
    using d [of lenient] by (cases cur)
      (simp_all add: decodeListPage_def answer_of_def decode_stream_def scan_top_def p decode_page_def
        store_page_member_def comp_def)
qed

lemma encode_cursor_ascii: "list_all is_ascii (encodeCursor zone t tid)"
proof -
  have "list_all is_ascii b64_url_alphabet" "length b64_url_alphabet = 64" by code_simp+
  then have "list_all is_ascii (b64_encode b64_url_alphabet bs)" for bs
    using b64_encode_chars [of b64_url_alphabet bs] by (auto simp: list_all_iff)
  then show ?thesis by (simp add: encodeCursor_def)
qed

subsection \<open>The walk\<close>

text \<open>The network between the client and the list handler, for an authenticated caller.\<close>

definition list_net ::
  "(string \<Rightarrow> int option) \<Rightarrow> (string \<Rightarrow> string) \<Rightarrow> env \<Rightarrow> (time \<Rightarrow> int) \<Rightarrow> config \<Rightarrow> ctx \<Rightarrow> string \<Rightarrow> srv net" where
  "list_net lenient collate e zone cfg cx base =
     \<lparr>nt_url_ok = (\<lambda>_. True),
      nt_do = (\<lambda>q s. case ListTunnels lenient collate e zone cfg cx (deliver base q) s of (s', ops) \<Rightarrow> (s', Inr (answer_of ops))),
      nt_sleep = (\<lambda>_ s. (s, None))\<rparr>"

definition page_size :: "int \<Rightarrow> nat" where
  "page_size limit = nat (if 0 < limit then limit else defaultListLimit)"

lemma list_call:
  assumes calls: "\<And>k. ok e k" and limit: "limit \<le> maxListLimit"
    and cur: "decodeCursor lenient cursor = Inr cur" "page_position cur = (ts, tid)"
    and rows: "rows = sql_list_tunnels collate (UserIDFromContext cx) ts tid (page_size limit + 1) (sv_db s)"
    and j: "page_json cfg zone (cut_page zone (page_size limit) rows) = Some j"
  shows "doCtx (list_net lenient collate e zone cfg cx (cl_base c)) c ''GET'' (list_path limit cursor) None [] s =
     (s, Inr (answer_of (SetHeader ''Content-Type'' ''application/json'' # writeJSON (Some j))))"
proof -
  let ?r = "deliver (cl_base c) (client_request_of c ''GET'' (list_path limit cursor) None [])"
  have pl: "page_limit (query_get ''limit'' (rq_raw_query ?r)) = Some (if 0 < limit then limit else defaultListLimit)"
  proof (cases "0 < limit")
    case True
    then have "atoi (show_int limit) = Some limit" "show_int limit \<noteq> ''''"
      using limit atoi_show_int [of limit] by (simp_all add: maxListLimit_def) (simp add: show_int_def)
    then show ?thesis
      unfolding list_query(2) [OF refl refl] using True limit by (simp add: page_limit_def)
  next
    case False
    then show ?thesis unfolding list_query(2) [OF refl refl] by (simp add: page_limit_def)
  qed
  have "ListTunnels lenient collate e zone cfg cx ?r s =
      (s, SetHeader ''Content-Type'' ''application/json'' # writeJSON (Some j))"
    using j unfolding rows page_size_def
    by (simp add: ListTunnels_def pl list_query(1) [OF refl refl] cur calls)
  then show ?thesis
    by (simp add: doCtx_def send_attempts.simps list_net_def shouldRetry_def answer_of_def writeJSON_def render_simps)
qed

text \<open>The rows that can be sent: cursors lead back to them and their answers can be marshalled and read.\<close>

definition sendable :: "(time \<Rightarrow> int) \<Rightarrow> config \<Rightarrow> tunnel_row \<Rightarrow> bool" where
  "sendable zone cfg r \<longleftrightarrow>
     listable zone r \<and> response_plain zone (response_of_row cfg r) \<and> tunnel_json zone (response_of_row cfg r) \<noteq> None"

lemma page_json_sendable:
  assumes "\<And>r. r \<in> set rows \<Longrightarrow> sendable zone cfg r"
  shows "\<exists>j. page_json cfg zone (rows, cur) = Some j"
proof -
  have "those (map (\<lambda>r. tunnel_json zone (response_of_row cfg r)) rows) \<noteq> None"
    using assms by (induction rows) (auto simp: sendable_def split: option.splits)
  then show ?thesis by (auto simp: page_json_def)
qed

definition row_cursor :: "(time \<Rightarrow> int) \<Rightarrow> tunnel_row \<Rightarrow> string" where
  "row_cursor zone r = encodeCursor zone (tn_created r) (tn_id r)"

lemma row_cursor_decode:
  assumes "listable zone r"
  shows "decodeCursor lenient (row_cursor zone r) = Inr \<lparr>lc_created = tn_created r * 1000, lc_id = tn_id r\<rparr>"
  unfolding row_cursor_def by (rule decode_encode_cursor) (use assms in \<open>simp_all add: listable_def\<close>)

lemma row_cursor_inject:
  assumes "listable zone a" "listable zone b" "row_cursor zone a = row_cursor zone b"
  shows "row_key collate a = row_key collate b"
proof -
  from row_cursor_decode [OF assms(1), of "\<lambda>_. None"] row_cursor_decode [OF assms(2), of "\<lambda>_. None"] assms(3)
  show ?thesis by (simp add: row_key_def)
qed

text \<open>One page: what is read of it and the cursor it gives, for the rest \<open>b\<close> of the list.\<close>

lemma client_page:
  assumes calls: "\<And>k. ok e k" and limit: "limit \<le> maxListLimit"
    and cur: "decodeCursor lenient cursor = Inr cur" "page_position cur = (ts, tid)"
    and sp: "splits collate (listing collate (UserIDFromContext cx) (sv_db s)) (ts, collate tid) b"
    and rows: "\<And>r. r \<in> set b \<Longrightarrow> sendable zone cfg r"
  defines "n \<equiv> page_size limit"
  shows "\<exists>a. doCtx (list_net lenient collate e zone cfg cx (cl_base c)) c ''GET'' (list_path limit cursor) None [] s = (s, Inr a) \<and>
     decodeListPage lenient' a = Inr \<lparr>tp_tunnels = map (\<lambda>r. client_view (response_of_row cfg r)) (take n b),
       tp_next = (if n < length b then Some (row_cursor zone (b ! (n - 1))) else None)\<rparr>"
proof -
  let ?rows = "take (n + 1) b"
  have n: "0 < n" by (simp add: n_def page_size_def defaultListLimit_def)
  have sql: "sql_list_tunnels collate (UserIDFromContext cx) ts tid (n + 1) (sv_db s) = ?rows"
    using splits_filter [OF sp] by (simp add: sql_list_eq)
  let ?next = "if n < length b then Some (row_cursor zone (b ! (n - 1))) else None"
  have cut: "cut_page zone n ?rows = (take n b, ?next)"
    using n by (auto simp: cut_page_def row_cursor_def min_def)
  have send: "sendable zone cfg r" if "r \<in> set (take n b)" for r
    using that rows by (meson in_set_takeD)
  obtain j where j: "page_json cfg zone (take n b, ?next) = Some j"
    using page_json_sendable [OF send] by blast
  have "doCtx (list_net lenient collate e zone cfg cx (cl_base c)) c ''GET'' (list_path limit cursor) None [] s =
      (s, Inr (answer_of (SetHeader ''Content-Type'' ''application/json'' # writeJSON (Some j))))"
    by (rule list_call [OF calls limit cur refl]) (use j in \<open>simp only: n_def [symmetric] sql cut\<close>)
  moreover have "list_all (response_plain zone) (map (response_of_row cfg) (take n b))"
    using send by (auto simp: list_all_iff sendable_def)
  moreover have "case ?next of None \<Rightarrow> True | Some x \<Rightarrow> list_all is_ascii x"
    by (simp add: row_cursor_def encode_cursor_ascii)
  ultimately show ?thesis using list_answer [OF j] by blast
qed

lemma sorted_keys_inj:
  "sorted_wrt (\<lambda>a b. row_key collate b < row_key collate a) l \<Longrightarrow> inj_on (row_key collate) (set l)"
proof (induction l)
  case (Cons r l)
  then have "\<forall>b \<in> set l. row_key collate b \<noteq> row_key collate r" by auto
  with Cons show ?case by (auto simp: inj_on_def)
qed simp

lemma sorted_keys_distinct:
  "sorted_wrt (\<lambda>a b. row_key collate b < row_key collate a) l \<Longrightarrow> distinct l"
  by (induction l) auto

lemma nth_notin_drop: "distinct b \<Longrightarrow> 0 < n \<Longrightarrow> n < length b \<Longrightarrow> b ! (n - 1) \<notin> set (drop n b)"
proof -
  assume b: "distinct b" "0 < n" "n < length b"
  then have "take (n - 1) b @ b ! (n - 1) # drop n b = b"
    by (metis Suc_pred' id_take_nth_drop less_imp_diff_less)
  with b(1) show ?thesis by (metis distinct.simps(2) distinct_append)
qed

text \<open>The cursor of a row that is still to come is none of those of the rows that were given.\<close>

lemma cursor_fresh:
  assumes "listable zone x" "\<And>r. r \<in> set l \<Longrightarrow> listable zone r" "sorted_wrt (\<lambda>a b. row_key collate b < row_key collate a) l"
    and "x \<in> set b" "set b \<subseteq> set l" "seen \<subseteq> row_cursor zone ` (set l - set b)"
  shows "row_cursor zone x \<notin> seen"
proof
  assume "row_cursor zone x \<in> seen"
  then obtain y where y: "y \<in> set l" "y \<notin> set b" "row_cursor zone x = row_cursor zone y" using assms(6) by blast
  then have "row_key collate x = row_key collate y" using row_cursor_inject [OF assms(1)] assms(2) by simp
  with sorted_keys_inj [OF assms(3)] show False using assms(4,5) y by (auto dest: inj_onD)
qed

lemma client_walk:
  fixes d uid collate
  defines "l \<equiv> listing collate uid d"
  assumes calls: "\<And>k. ok e k" and limit: "limit \<le> maxListLimit" and s: "sv_db s = d" and uid: "UserIDFromContext cx = uid"
    and dec: "sorted_wrt (\<lambda>a b. row_key collate b < row_key collate a) l"
    and rows: "\<And>r. r \<in> set l \<Longrightarrow> sendable zone cfg r"
    and cur: "decodeCursor lenient cursor = Inr cur" "page_position cur = (ts, tid)"
    and sp: "splits collate l (ts, collate tid) b" and seen: "seen \<subseteq> row_cursor zone ` (set l - set b)"
  shows "list_pages (list_net lenient collate e zone cfg cx (cl_base c)) lenient' c limit cursor seen acc s =
     Some (s, Inr (acc @ map (\<lambda>r. client_view (response_of_row cfg r)) b))"
  using cur sp seen
proof (induction "length b" arbitrary: cursor cur ts tid b seen acc rule: less_induct)
  case less
  define n where "n = page_size limit"
  have n: "0 < n" by (simp add: n_def page_size_def defaultListLimit_def)
  have sub: "set b \<subseteq> set l" using less.prems(3) by (auto simp: splits_def)
  have key_distinct: "distinct l" by (rule sorted_keys_distinct [OF dec])
  let ?view = "\<lambda>r. client_view (response_of_row cfg r)"
  let ?net = "list_net lenient collate e zone cfg cx (cl_base c)"
  obtain a where a: "doCtx ?net c ''GET'' (list_path limit cursor) None [] s = (s, Inr a)"
    "decodeListPage lenient' a = Inr \<lparr>tp_tunnels = map ?view (take n b),
       tp_next = (if n < length b then Some (row_cursor zone (b ! (n - 1))) else None)\<rparr>"
    using client_page [OF calls limit less.prems(1,2), of collate cx s b zone cfg c lenient'] less.prems(3) rows sub
    unfolding n_def uid s l_def by blast
  show ?case
  proof (cases "n < length b")
    case False
    then show ?thesis by (subst list_pages.simps) (simp add: a)
  next
    case True
    let ?x = "b ! (n - 1)"
    have x: "?x \<in> set b" using True by (simp add: less_imp_diff_less)
    then have lx: "listable zone ?x" using rows sub by (auto simp: sendable_def)
    have fresh: "row_cursor zone ?x \<notin> seen"
      by (rule cursor_fresh [OF lx _ dec x sub less.prems(4)]) (use rows in \<open>simp add: sendable_def\<close>)
    have ne: "row_cursor zone ?x \<noteq> ''''"
      using row_cursor_decode [OF lx, of "\<lambda>_. None"] lx by (auto simp: decodeCursor_def no_cursor_def listable_def)
    have step: "list_pages ?net lenient' c limit cursor seen acc s =
        list_pages ?net lenient' c limit (row_cursor zone ?x) (insert (row_cursor zone ?x) seen) (acc @ map ?view (take n b)) s"
      using True by (subst list_pages.simps) (simp add: a ne fresh del: One_nat_def)
    have pos: "page_position \<lparr>lc_created = tn_created ?x * 1000, lc_id = tn_id ?x\<rparr> = (tn_created ?x, tn_id ?x)"
      using lx by (simp add: page_position_def listable_def)
    have sp': "splits collate l (tn_created ?x, collate (tn_id ?x)) (drop n b)"
      using splits_next [OF dec less.prems(3) n True] by (simp add: row_key_def)
    have "?x \<notin> set (drop n b)"
      using key_distinct less.prems(3) True n nth_notin_drop [of b n] by (auto simp: splits_def)
    then have "insert (row_cursor zone ?x) seen \<subseteq> row_cursor zone ` (set l - set (drop n b))"
      using less.prems(4) x sub by (auto dest: in_set_dropD)
    from less.hyps [OF _ row_cursor_decode [OF lx] pos sp' this, of "acc @ map ?view (take n b)"] True n
    have "list_pages ?net lenient' c limit (row_cursor zone ?x) (insert (row_cursor zone ?x) seen) (acc @ map ?view (take n b)) s =
        Some (s, Inr ((acc @ map ?view (take n b)) @ map ?view (drop n b)))" by simp
    then show ?thesis unfolding step by (simp flip: map_append)
  qed
qed

text \<open>
  C22: \<open>hatchway list\<close> gives the whole list: while the list is not changed, the client that follows the cursors ends
  with every tunnel of the caller exactly once, the newest first, each with the values that the server holds.
  Any page size that the server accepts gives the same.
\<close>

theorem client_lists_everything:
  assumes "schema_ok (sv_db s)" "inj collate" "limit \<le> maxListLimit" "\<And>k. ok e k"
    and "\<And>r. r \<in> set (user_rows (UserIDFromContext cx) (sv_db s)) \<Longrightarrow> sendable zone cfg r"
  shows "\<exists>rows. ListTunnelsCtx (list_net lenient collate e zone cfg cx (cl_base c)) lenient' c limit s =
       Some (s, Inr (map (\<lambda>r. client_view (response_of_row cfg r)) rows)) \<and>
     distinct rows \<and> set rows = set (user_rows (UserIDFromContext cx) (sv_db s)) \<and>
     sorted_wrt (\<lambda>a b. tn_created b \<le> tn_created a) rows"
proof -
  let ?l = "listing collate (UserIDFromContext cx) (sv_db s)"
  note dec = listing_decreasing [OF assms(1,2), of "UserIDFromContext cx"]
  have "splits collate ?l (far_future, collate last_id) ?l"
    unfolding splits_def
    by (rule exI [of _ "[]"]) (use assms(5) in \<open>auto simp: sendable_def listable_def row_key_def less_prod_def\<close>)
  moreover have "decodeCursor lenient '''' = Inr no_cursor" by (simp add: decodeCursor_def)
  moreover have "page_position no_cursor = (far_future, last_id)" by (simp add: page_position_def no_cursor_def)
  ultimately have "ListTunnelsCtx (list_net lenient collate e zone cfg cx (cl_base c)) lenient' c limit s =
      Some (s, Inr ([] @ map (\<lambda>r. client_view (response_of_row cfg r)) ?l))"
    unfolding ListTunnelsCtx_def
    by (intro client_walk [OF assms(4,3) refl refl dec]) (use assms(5) in simp_all)
  moreover have "sorted_wrt (\<lambda>a b. tn_created b \<le> tn_created a) ?l"
    using dec by (rule sorted_wrt_mono_rel [rotated]) (auto simp: row_key_def less_prod_def)
  ultimately show ?thesis using sorted_keys_distinct [OF dec] by (intro exI [of _ ?l]) simp
qed

theorem client_lists_everything_witness:
  "\<exists>rows. ListTunnelsCtx (list_net (\<lambda>_. None) (\<lambda>s. s) (calm 5) (\<lambda>_. 0) sample_config sample_ctx ''http://h'') (\<lambda>_. None)
       sample_client 1 (fresh_srv two_tunnels) =
     Some (fresh_srv two_tunnels, Inr (map (\<lambda>r. client_view (response_of_row sample_config r)) rows)) \<and>
     set rows = set (db_tunnels two_tunnels)"
proof -
  have u: "UserIDFromContext sample_ctx = ''u1''" by (simp add: sample_ctx_def context_defs)
  have "sendable (\<lambda>_. 0) sample_config r" if "r \<in> set (db_tunnels two_tunnels)" for r
    using two_tunnels_listable [OF that] that epoch
    by (auto simp: sendable_def response_plain_def response_of_row_def tunnel_json_def time_json_def rfc3339_def
        two_tunnels_def sample_db_def Let_def sample_config_def publicURL_def is_ascii_def)
  with client_lists_everything [of "fresh_srv two_tunnels" "\<lambda>s. s" 1 "calm 5" sample_ctx "\<lambda>_. 0" sample_config
      "\<lambda>_. None" sample_client "\<lambda>_. None"]
  show ?thesis by (simp add: two_tunnels_facts u fresh_srv_def calm_def maxListLimit_def sample_client_def inj_on_def) blast
qed

end
