(* ===== verification/Overlap.thy ===== *)
theory Overlap
  imports Router
begin

text \<open>
  Requests of one client that are handled at the same time.  The middlewares of \<open>/v1\<close> and the
  handler behind them are taken apart into the steps that the server performs without another
  request in between: the lookup of the key, the turn at the rate limiter under its mutex, and the
  statements and transactions of the idempotency middleware (\<open>internal/server/api/idempotency.go\<close>:
  reserve, look at what is there, run the handler, persist its result).  Steps of different requests
  come in any order, and a request may stop anywhere.
\<close>

section \<open>A request in steps\<close>

text \<open>
  Where a request is: on its way to the server, past the authentication, past the limiter, before
  the lookup of a key that is taken, with a reservation, with the result of the handler, answered.
\<close>

datatype (plugins only: size code) phase =
    Arriving request
  | Authenticated ctx request
  | Admitted ctx request
  | Looking string string string
  | Holding ctx string string request
  | Handled string string "wop list"
  | Answered "wop list"

record job =
  jb_world :: world
  jb_phase :: phase

text \<open>\<open>AuthMiddleware\<close> and \<open>RateLimitMiddleware\<close> with what comes after them as the next phase.\<close>

definition arrive :: "platform \<Rightarrow> config \<Rightarrow> world \<Rightarrow> request \<Rightarrow> srv \<Rightarrow> srv \<times> phase" where
  "arrive p cfg w r s =
     (let r1 = (if 0 < MaxRequestBytes cfg then r\<lparr>rq_limit := Some (nat (MaxRequestBytes cfg))\<rparr> else r)
      in case authenticateRequest (pf_sha p) (pf_argon p) (wd_slots w) (TokenLookupFromDB (wd_env w)) background r1 s of
           Inl TokenLookupFailed \<Rightarrow> (s, Answered (WriteError 503 ErrInternal ''authentication service unavailable''))
         | Inl e \<Rightarrow> (s, Answered (WriteError 401 ErrUnauthenticated (auth_error_text e)))
         | Inr cx \<Rightarrow> (s, Authenticated cx r1))"

definition take_turn :: "world \<Rightarrow> ctx \<Rightarrow> request \<Rightarrow> srv \<Rightarrow> srv \<times> phase" where
  "take_turn w cx r s =
     (if \<not> requestNeedsRateLimit r \<or> TokenIDFromContext cx = '''' then (s, Admitted cx r)
      else (case Allow (wd_now w) (TokenIDFromContext cx) (sv_limiter s) of
              (rl, allowed) \<Rightarrow>
                (let s1 = s\<lparr>sv_limiter := rl\<rparr>
                 in if \<not> allowed
                    then (s1\<lparr>sv_metrics := IncrRateLimitReject (sv_metrics s1)\<rparr>,
                          Answered (WriteError 429 ErrRateLimited ''rate limit exceeded''))
                    else (s1, Admitted cx r))))"

text \<open>The start of \<open>IdempotencyMiddleware\<close>, up to the reservation.\<close>

definition reserve :: "platform \<Rightarrow> config \<Rightarrow> world \<Rightarrow> ctx \<Rightarrow> request \<Rightarrow> srv \<Rightarrow> srv \<times> phase" where
  "reserve p cfg w cx r s =
     (let e = wd_env w; key = header_get ''Idempotency-Key'' r; tok = TokenIDFromContext cx;
          plain = (case v1_dispatch p cfg w cx r s of (s', ops) \<Rightarrow> (s', Answered ops))
      in if \<not> methodNeedsIdempotency (rq_method r) \<or> key = '''' then plain
         else if maxIdempotencyKeyLen < length key
         then (s, Answered (WriteError 400 ErrInvalidRequest ''Idempotency-Key must be at most 255 bytes''))
         else if tok = '''' then plain
         else (case requestHashAndRestoreBody (pf_sha p) r of
                 Inl BodyTooLarge \<Rightarrow> (s, Answered (WriteError 413 ErrInvalidRequest ''request body too large''))
               | Inl _ \<Rightarrow> (s, Answered (WriteError 500 ErrInternal ''failed to read request body''))
               | Inr (hash, r') \<Rightarrow>
                   (case sql_reserve (e_time e IdReserve) tok key hash (sv_db s) of
                      Inl _ \<Rightarrow> (s, Answered (WriteError 500 ErrInternal ''idempotency reserve failed''))
                    | Inr (d', n) \<Rightarrow>
                        (case pool_exec e IdReserve (\<lambda>_. s\<lparr>sv_db := d'\<rparr>) s of
                           (s1, False) \<Rightarrow> (s1, Answered (WriteError 500 ErrInternal ''idempotency reserve failed''))
                         | (s1, True) \<Rightarrow>
                             if n = 0 then (s1, Looking tok key hash)
                             else (s1, Holding (cx\<lparr>cx_reservation := Some \<lparr>rv_token = tok, rv_key = key\<rparr>\<rparr>) tok key r')))))"

definition settle :: "platform \<Rightarrow> config \<Rightarrow> world \<Rightarrow> string \<Rightarrow> string \<Rightarrow> wop list \<Rightarrow> srv \<Rightarrow> srv \<times> phase" where
  "settle p cfg w tok key ops s =
     (let rc = captureResponse ops
      in (if Panicked \<in> set ops
          then on_db (\<lambda>d. fst (pool_exec (wd_env w) IdPanicRelease (sql_release tok key) d)) s
          else on_db (persistCompletion (wd_env w) (api_codec p cfg) (wd_nonce w) tok key rc) s,
          Answered (rc_out rc)))"

fun advance :: "platform \<Rightarrow> config \<Rightarrow> world \<Rightarrow> phase \<Rightarrow> srv \<Rightarrow> srv \<times> phase" where
  "advance p cfg w (Arriving r) s = arrive p cfg w r s"
| "advance p cfg w (Authenticated cx r) s = take_turn w cx r s"
| "advance p cfg w (Admitted cx r) s = reserve p cfg w cx r s"
| "advance p cfg w (Looking tok key hash) s =
     (s, Answered (serveExistingIdempotent (wd_env w) (api_codec p cfg) tok key hash (sv_db s)))"
| "advance p cfg w (Holding cx tok key r) s =
     (case v1_dispatch p cfg w cx r s of (s', ops) \<Rightarrow> (s', Handled tok key ops))"
| "advance p cfg w (Handled tok key ops) s = settle p cfg w tok key ops s"
| "advance p cfg w (Answered ops) s = (s, Answered ops)"

text \<open>One step of the request number \<open>i\<close>, and any sequence of such steps.\<close>

definition step_job :: "platform \<Rightarrow> config \<Rightarrow> nat \<Rightarrow> srv \<times> job list \<Rightarrow> srv \<times> job list" where
  "step_job p cfg i st =
     (case st of (s, jobs) \<Rightarrow>
        if i < length jobs
        then (case advance p cfg (jb_world (jobs ! i)) (jb_phase (jobs ! i)) s of
                (s', ph) \<Rightarrow> (s', jobs[i := (jobs ! i)\<lparr>jb_phase := ph\<rparr>]))
        else st)"

definition step_jobs :: "platform \<Rightarrow> config \<Rightarrow> nat list \<Rightarrow> srv \<times> job list \<Rightarrow> srv \<times> job list" where
  "step_jobs p cfg is st = fold (step_job p cfg) is st"

section \<open>The steps of one request make up the handler\<close>

fun finish_phase :: "platform \<Rightarrow> config \<Rightarrow> world \<Rightarrow> nat \<Rightarrow> srv \<times> phase \<Rightarrow> srv \<times> phase" where
  "finish_phase p cfg w 0 x = x"
| "finish_phase p cfg w (Suc n) x = (case x of (s, ph) \<Rightarrow> finish_phase p cfg w n (advance p cfg w ph s))"

lemma finish_answered [simp]: "finish_phase p cfg w n (s, Answered ops) = (s, Answered ops)"
  by (induction n) simp_all

text \<open>A request whose steps nothing comes between is handled as by the middlewares of \<open>/v1\<close>.\<close>

lemma finish_reserved:
  "finish_phase p cfg w 2 (s, Holding (cx\<lparr>cx_reservation := Some \<lparr>rv_token = tok, rv_key = key\<rparr>\<rparr>) tok key r) =
     (case runReserved (wd_env w) (api_codec p cfg) (wd_nonce w) (v1_dispatch p cfg w) tok key cx r s of
        (s', ops) \<Rightarrow> (s', Answered ops))"
  by (simp add: numeral_2_eq_2 runReserved_def settle_def Let_def split: prod.split)

lemma finish_reserve:
  "finish_phase p cfg w 2 (reserve p cfg w cx r s) =
     (case IdempotencyMiddleware (pf_sha p) (pf_seal p) (pf_open p) (PluginSecret cfg) (wd_env w) (wd_nonce w)
        (v1_dispatch p cfg w) cx r s of (s', ops) \<Rightarrow> (s', Answered ops))"
proof -
  have look: "finish_phase p cfg w 2 (s, Looking tok key hash) =
      (s, Answered (serveExistingIdempotent (wd_env w) (api_codec p cfg) tok key hash (sv_db s)))" for s tok key hash
    by (simp add: numeral_2_eq_2)
  have plain: "finish_phase p cfg w 2 (case v1_dispatch p cfg w cx r s of (s', ops) \<Rightarrow> (s', Answered ops)) =
      (case v1_dispatch p cfg w cx r s of (s', ops) \<Rightarrow> (s', Answered ops))"
    by (simp split: prod.split)
  show ?thesis
    unfolding reserve_def IdempotencyMiddleware_def handleIdempotentRequest_def Let_def api_codec_def [symmetric]
    using plain
    by (auto simp: look finish_reserved split: sum.split body_end.split prod.split bool.split)
qed

lemma steps_alone:
  "finish_phase p cfg w 5 (s, Arriving r) =
     (case v1_handler p cfg w background r s of (s', ops) \<Rightarrow> (s', Answered ops))"
proof -
  let ?r = "if 0 < MaxRequestBytes cfg then r\<lparr>rq_limit := Some (nat (MaxRequestBytes cfg))\<rparr> else r"
  have turn: "finish_phase p cfg w 4 (s, Authenticated cx r) =
      (case v1_authorized p cfg w cx r s of (s', ops) \<Rightarrow> (s', Answered ops))" for cx r s
  proof -
    have "finish_phase p cfg w 4 (s, Authenticated cx r) = finish_phase p cfg w 3 (take_turn w cx r s)"
      by (simp add: eval_nat_numeral)
    moreover have "finish_phase p cfg w 3 (s, Admitted cx r) = finish_phase p cfg w 2 (reserve p cfg w cx r s)" for s
      by (simp add: eval_nat_numeral)
    ultimately show ?thesis
      by (auto simp: take_turn_def v1_authorized_def RateLimitMiddleware_def finish_reserve Let_def split: prod.split)
  qed
  have "finish_phase p cfg w 5 (s, Arriving r) = finish_phase p cfg w 4 (arrive p cfg w r s)"
    by (simp add: eval_nat_numeral)
  then show ?thesis
    by (auto simp: arrive_def v1_handler_def MaxBodySize_def AuthMiddleware_def turn Let_def
        split: sum.split auth_error.split prod.split)
qed

section \<open>At most one effect\<close>

text \<open>The requests of one creation: same route, key and secret, and only one API key has that secret.\<close>

definition create_route :: "request \<Rightarrow> bool" where
  "create_route r \<longleftrightarrow> rq_method r = ''POST'' \<and> rq_path r = ''/v1/tunnels''"

definition routes_create :: "platform \<Rightarrow> bool" where
  "routes_create p \<longleftrightarrow> (\<forall>r. create_route r \<longrightarrow> (\<exists>x. pf_chi p v1_routes r = Matched EpCreate x))"

definition creation_request :: "string \<Rightarrow> string \<Rightarrow> request \<Rightarrow> bool" where
  "creation_request raw key r \<longleftrightarrow>
     create_route r \<and> header_get ''Idempotency-Key'' r = key \<and>
     extractBearerToken (header_get ''Authorization'' r) = Inr raw"

definition only_key :: "platform \<Rightarrow> string \<Rightarrow> string \<Rightarrow> db \<Rightarrow> bool" where
  "only_key p raw tok d \<longleftrightarrow>
     (\<forall>t \<in> set (db_api_tokens d). \<forall>slot.
        VerifyTokenContext (pf_sha p) (pf_argon p) slot raw (at_hash t) = Inr True \<longrightarrow> at_id t = tok)"

fun phase_ok :: "string \<Rightarrow> string \<Rightarrow> string \<Rightarrow> phase \<Rightarrow> bool" where
  "phase_ok raw tok key (Arriving r) = creation_request raw key r"
| "phase_ok raw tok key (Authenticated cx r) = (creation_request raw key r \<and> TokenIDFromContext cx = tok)"
| "phase_ok raw tok key (Admitted cx r) = (creation_request raw key r \<and> TokenIDFromContext cx = tok)"
| "phase_ok raw tok key (Holding cx t k r) =
     (create_route r \<and> t = tok \<and> k = key \<and> cx_reservation cx = Some \<lparr>rv_token = tok, rv_key = key\<rparr>)"
| "phase_ok raw tok key (Handled t k ops) = (t = tok \<and> k = key)"
| "phase_ok raw tok key _ = True"

fun holding :: "phase \<Rightarrow> bool" where
  "holding (Holding cx tok key r) = True"
| "holding _ = False"

fun active :: "phase \<Rightarrow> bool" where
  "active (Holding cx tok key r) = True"
| "active (Handled tok key ops) = True"
| "active _ = False"

lemma holding_active: "holding ph \<Longrightarrow> active ph"
  by (cases ph) simp_all

text \<open>
  What a step does to the row of the key and to the number of tunnels: nothing; it reserves a free
  key; the handler completes a pending key with at most one tunnel; or the result is persisted.
\<close>

definition pending_row :: "string \<Rightarrow> string \<Rightarrow> db \<Rightarrow> bool" where
  "pending_row tok key d \<longleftrightarrow> (\<exists>row. find_idem tok key d = Some row \<and> ik_completed row = None)"

definition completed_row :: "string \<Rightarrow> string \<Rightarrow> db \<Rightarrow> bool" where
  "completed_row tok key d \<longleftrightarrow> (\<exists>row. find_idem tok key d = Some row \<and> ik_completed row \<noteq> None)"

lemma row_cases: "find_idem tok key d = None \<or> pending_row tok key d \<or> completed_row tok key d"
  by (auto simp: pending_row_def completed_row_def)

lemma row_simps [simp]:
  "find_idem tok key d = None \<Longrightarrow> \<not> pending_row tok key d" "find_idem tok key d = None \<Longrightarrow> \<not> completed_row tok key d"
  "pending_row tok key d \<Longrightarrow> \<not> completed_row tok key d"
  by (auto simp: pending_row_def completed_row_def)

lemma row_same:
  assumes "find_idem tok key d' = find_idem tok key d"
  shows "pending_row tok key d' = pending_row tok key d" "completed_row tok key d' = completed_row tok key d"
  using assms by (simp_all add: pending_row_def completed_row_def)

inductive step_effect :: "string \<Rightarrow> string \<Rightarrow> db \<Rightarrow> phase \<Rightarrow> db \<Rightarrow> phase \<Rightarrow> bool" for tok key where
  quiet: "find_idem tok key d' = find_idem tok key d \<Longrightarrow> tunnel_count d' = tunnel_count d \<Longrightarrow>
    (active ph' \<longrightarrow> holding ph \<and> \<not> holding ph') \<Longrightarrow> step_effect tok key d ph d' ph'"
| reserving: "find_idem tok key d = None \<Longrightarrow> pending_row tok key d' \<Longrightarrow> tunnel_count d' = tunnel_count d \<Longrightarrow>
    step_effect tok key d ph d' ph'"
| completing: "holding ph \<Longrightarrow> completed_row tok key d' \<Longrightarrow> tunnel_count d' \<le> tunnel_count d + 1 \<Longrightarrow> \<not> holding ph' \<Longrightarrow>
    step_effect tok key d ph d' ph'"
| settling: "active ph \<Longrightarrow> \<not> active ph' \<Longrightarrow> tunnel_count d' = tunnel_count d \<Longrightarrow>
    (pending_row tok key d \<longrightarrow> find_idem tok key d' = None \<or> pending_row tok key d' \<or> completed_row tok key d') \<Longrightarrow>
    (\<not> pending_row tok key d \<longrightarrow> find_idem tok key d' = find_idem tok key d) \<Longrightarrow> step_effect tok key d ph d' ph'"

lemma arrive_effect:
  assumes "creation_request raw key r" "only_key p raw tok (sv_db s)" "arrive p cfg w r s = (s', ph')"
  shows "s' = s \<and> phase_ok raw tok key ph' \<and> \<not> active ph'"
proof -
  let ?r = "if 0 < MaxRequestBytes cfg then r\<lparr>rq_limit := Some (nat (MaxRequestBytes cfg))\<rparr> else r"
  have r: "creation_request raw key ?r"
    using assms(1) by (auto simp: creation_request_def create_route_def header_get_def)
  show ?thesis
  proof (cases "authenticateRequest (pf_sha p) (pf_argon p) (wd_slots w) (TokenLookupFromDB (wd_env w)) background ?r s")
    case (Inl err)
    with assms(3) show ?thesis by (auto simp: arrive_def Let_def split: auth_error.splits)
  next
    case (Inr cx)
    from authenticated_principal [OF Inr] obtain t slot where "t \<in> set (db_api_tokens (sv_db s))"
      "VerifyTokenContext (pf_sha p) (pf_argon p) slot raw (at_hash t) = Inr True" "TokenIDFromContext cx = at_id t"
      using r by (auto simp: creation_request_def)
    with assms(2) have "TokenIDFromContext cx = tok" by (auto simp: only_key_def)
    with Inr r assms(3) show ?thesis by (auto simp: arrive_def Let_def)
  qed
qed

lemma turn_effect:
  assumes "creation_request raw key r" "TokenIDFromContext cx = tok" "take_turn w cx r s = (s', ph')"
  shows "sv_db s' = sv_db s \<and> phase_ok raw tok key ph' \<and> \<not> active ph'"
  using assms by (auto simp: take_turn_def Let_def split: if_splits prod.splits)

lemma hashed_request:
  assumes "requestHashAndRestoreBody sha r = Inr (hash, r')"
  shows "rq_method r' = rq_method r" "rq_path r' = rq_path r"
  using assms by (auto simp: requestHashAndRestoreBody_def split: prod.splits body_end.splits)

lemma reserve_effect:
  assumes d: "schema_ok (sv_db s)" and r: "creation_request raw key r" "TokenIDFromContext cx = tok" "tok \<noteq> ''''" "key \<noteq> ''''"
    and run: "reserve p cfg w cx r s = (s', ph')"
  shows "schema_ok (sv_db s') \<and> db_api_tokens (sv_db s') = db_api_tokens (sv_db s) \<and> phase_ok raw tok key ph' \<and>
     step_effect tok key (sv_db s) (Admitted cx r) (sv_db s') ph'"
proof -
  have keyed: "methodNeedsIdempotency (rq_method r)" "header_get ''Idempotency-Key'' r = key"
    using r(1) by (simp_all add: creation_request_def create_route_def methodNeedsIdempotency_def)
  let ?row = "reservation_row tok key" and ?e = "wd_env w"
  have "(s' = s \<and> \<not> active ph' \<and> phase_ok raw tok key ph') \<or>
     (\<exists>hash r'. requestHashAndRestoreBody (pf_sha p) r = Inr (hash, r') \<and>
        find_idem tok key (sv_db s) = None \<and> tok \<in> at_id ` set (db_api_tokens (sv_db s)) \<and>
        sv_db s' = (sv_db s)\<lparr>db_idem := db_idem (sv_db s) @ [?row hash (e_time ?e IdReserve)]\<rparr> \<and>
        (\<not> active ph' \<and> phase_ok raw tok key ph' \<or>
         ph' = Holding (cx\<lparr>cx_reservation := Some \<lparr>rv_token = tok, rv_key = key\<rparr>\<rparr>) tok key r'))"
  proof (cases "maxIdempotencyKeyLen < length key")
    case True
    with run keyed r(4) show ?thesis by (auto simp: reserve_def Let_def)
  next
    case len: False
    show ?thesis
    proof (cases "requestHashAndRestoreBody (pf_sha p) r")
      case (Inl en)
      with run keyed r(2-4) len show ?thesis by (cases en) (auto simp: reserve_def Let_def)
    next
      case (Inr hr)
      obtain hash r' where hr: "hr = (hash, r')" by (cases hr)
      show ?thesis
      proof (cases "sql_reserve (e_time ?e IdReserve) tok key hash (sv_db s)")
        case (Inl err)
        with run keyed r(2-4) len Inr hr show ?thesis by (auto simp: reserve_def Let_def)
      next
        case q: (Inr dn)
        obtain d' n where dn: "dn = (d', n)" by (cases dn)
        from run keyed r(2-4) len Inr hr q dn have step: "(s', ph') =
          (case pool_exec ?e IdReserve (\<lambda>_. s\<lparr>sv_db := d'\<rparr>) s of
             (s1, False) \<Rightarrow> (s1, Answered (WriteError 500 ErrInternal ''idempotency reserve failed''))
           | (s1, True) \<Rightarrow> if n = 0 then (s1, Looking tok key hash)
               else (s1, Holding (cx\<lparr>cx_reservation := Some \<lparr>rv_token = tok, rv_key = key\<rparr>\<rparr>) tok key r'))"
          by (simp add: reserve_def Let_def)
        from sql_reserve_InrD [OF q [unfolded dn]] show ?thesis
        proof (elim disjE conjE)
          assume "n = 0" "d' = sv_db s"
          with step show ?thesis by (cases "e_out ?e IdReserve") (simp_all add: pool_exec_def)
        next
          assume "n = 1" "find_idem tok key (sv_db s) = None" "tok \<in> at_id ` set (db_api_tokens (sv_db s))"
            "d' = (sv_db s)\<lparr>db_idem := db_idem (sv_db s) @ [?row hash (e_time ?e IdReserve)]\<rparr>"
          with step Inr hr show ?thesis by (cases "e_out ?e IdReserve") (simp_all add: pool_exec_def)
        qed
      qed
    qed
  qed
  then consider (still) "s' = s" "\<not> active ph'" "phase_ok raw tok key ph'"
    | (row) hash r' where "requestHashAndRestoreBody (pf_sha p) r = Inr (hash, r')"
        "find_idem tok key (sv_db s) = None" "tok \<in> at_id ` set (db_api_tokens (sv_db s))"
        "sv_db s' = (sv_db s)\<lparr>db_idem := db_idem (sv_db s) @ [?row hash (e_time ?e IdReserve)]\<rparr>"
        "\<not> active ph' \<and> phase_ok raw tok key ph' \<or>
         ph' = Holding (cx\<lparr>cx_reservation := Some \<lparr>rv_token = tok, rv_key = key\<rparr>\<rparr>) tok key r'"
    by blast
  then show ?thesis
  proof cases
    case still
    then show ?thesis using d by (auto intro: quiet)
  next
    case row
    have "pending_row tok key (sv_db s')"
      using find_reserve [OF row(2)] unfolding row(4) pending_row_def by (simp add: reservation_row_def)
    moreover have "phase_ok raw tok key ph'"
      using row(5) r(1) hashed_request [OF row(1)] by (auto simp: creation_request_def create_route_def)
    ultimately show ?thesis
      using schema_reserve [OF d row(2,3)] row(2) by (simp add: row(4) reserving)
  qed
qed

lemma create_api_tokens:
  "db_api_tokens (sv_db (fst (CreateTunnel sha e c nonce zone cfg draw ids uuid cx r s))) = db_api_tokens (sv_db s)"
proof -
  have body: "db_api_tokens d' = db_api_tokens d"
    if "create_body e c nonce zone cfg ids uuid cx uid q rt d = Inr (d', body)" for uid q rt d d' body
    using that by (rule create_body_InrD) (auto dest: complete_frame(5))
  show ?thesis
    by (cases rule: CreateTunnel_cases [of sha e c nonce zone cfg draw ids uuid cx r s]) (simp_all add: body)
qed

lemma handle_effect:
  assumes d: "schema_ok (sv_db s)" "pending_row tok key (sv_db s)" and p: "routes_create p"
    and ph: "phase_ok raw tok key (Holding cx t k r)" and run: "advance p cfg w (Holding cx t k r) s = (s', ph')"
  shows "schema_ok (sv_db s') \<and> db_api_tokens (sv_db s') = db_api_tokens (sv_db s) \<and> phase_ok raw tok key ph' \<and>
     step_effect tok key (sv_db s) (Holding cx t k r) (sv_db s') ph'"
proof -
  let ?h = "CreateTunnel (pf_sha p) (wd_env w) (api_codec p cfg) (wd_create_nonce w) (pf_zone p) cfg (wd_draw w) (wd_ids w) (wd_uuid w)"
  have dispatch: "v1_dispatch p cfg w cx r s = ?h cx r s"
    using p ph by (auto simp: v1_dispatch_def routes_create_def tunnel_endpoint_def)
  obtain ops where h: "?h cx r s = (s', ops)" and ph': "ph' = Handled t k ops"
    using run by (auto simp: dispatch split: prod.splits)
  obtain row where row: "find_idem tok key (sv_db s) = Some row" "ik_completed row = None"
    using d(2) by (auto simp: pending_row_def)
  have "cx_reservation cx = Some \<lparr>rv_token = tok, rv_key = key\<rparr>" using ph by simp
  from create_reserved.reserved [OF d(1) this row h]
  have "step_effect tok key (sv_db s) (Holding cx t k r) (sv_db s') ph'"
    by (auto simp: ph' completed_row_def completed_with_def row intro: quiet completing)
  then show ?thesis
    using create_reserved.keeps_schema [OF d(1)] create_api_tokens h ph by (auto simp: ph' dest: spec) (metis fst_conv)+
qed

lemma settle_effect:
  assumes d: "schema_ok (sv_db s)" and run: "settle p cfg w tok key ops s = (s', ph')"
  shows "schema_ok (sv_db s') \<and> db_api_tokens (sv_db s') = db_api_tokens (sv_db s) \<and> phase_ok raw tok key ph' \<and>
     step_effect tok key (sv_db s) (Handled tok key ops) (sv_db s') ph'"
proof -
  let ?rc = "captureResponse ops"
  have ph': "\<not> active ph'" "phase_ok raw tok key ph'" using run by (auto simp: settle_def Let_def)
  consider "sv_db s' = sv_db s" | "sv_db s' = sql_release tok key (sv_db s)"
    | now st b where "200 \<le> st" "st < 300" "sv_db s' = fst (sql_complete now tok key st b (sv_db s))"
  proof (cases "Panicked \<in> set ops")
    case True
    then show thesis
      using that run pool_exec_fst [of "wd_env w" IdPanicRelease "sql_release tok key" "sv_db s"]
      by (auto simp: settle_def Let_def)
  next
    case False
    then have "sv_db s' = persistCompletion (wd_env w) (api_codec p cfg) (wd_nonce w) tok key ?rc (sv_db s)"
      using run by (auto simp: settle_def Let_def)
    with that show thesis
      by (cases rule: persist_cases [of "wd_env w" "api_codec p cfg" "wd_nonce w" tok key ?rc "sv_db s"]) auto
  qed
  then show ?thesis
  proof cases
    case 1
    with d ph' show ?thesis by (auto intro: quiet)
  next
    case 2
    have "db_api_tokens (sv_db s') = db_api_tokens (sv_db s)" by (simp add: 2 sql_release_def)
    moreover have "step_effect tok key (sv_db s) (Handled tok key ops) (sv_db s') ph'"
    proof (rule settling)
      show "pending_row tok key (sv_db s) \<longrightarrow> find_idem tok key (sv_db s') = None \<or> pending_row tok key (sv_db s') \<or> completed_row tok key (sv_db s')"
        using row_cases by blast
      show "\<not> pending_row tok key (sv_db s) \<longrightarrow> find_idem tok key (sv_db s') = find_idem tok key (sv_db s)"
        using d find_idem_SomeD [of tok key "sv_db s"]
        by (auto simp: 2 find_release pending_row_def pending_def split: option.split)
    qed (use ph' in \<open>simp_all add: 2\<close>)
    ultimately show ?thesis using d ph' by (simp add: 2 schema_release)
  next
    case (3 now st b)
    have "db_api_tokens (sv_db s') = db_api_tokens (sv_db s)" by (simp add: 3 sql_complete_def)
    moreover have "step_effect tok key (sv_db s) (Handled tok key ops) (sv_db s') ph'"
    proof (rule settling)
      show "pending_row tok key (sv_db s) \<longrightarrow> find_idem tok key (sv_db s') = None \<or> pending_row tok key (sv_db s') \<or> completed_row tok key (sv_db s')"
        using row_cases by blast
      show "\<not> pending_row tok key (sv_db s) \<longrightarrow> find_idem tok key (sv_db s') = find_idem tok key (sv_db s)"
        by (cases "find_idem tok key (sv_db s)") (auto simp: 3 find_complete pending_row_def pending_def)
    qed (use ph' in \<open>simp_all add: 3\<close>)
    moreover have "schema_ok (sv_db s')" unfolding 3(3) by (rule schema_complete [OF d]) (use 3 in auto)
    ultimately show ?thesis using ph' by simp
  qed
qed

text \<open>One step of a request, whatever its phase.\<close>

lemma advance_effect:
  assumes "schema_ok (sv_db s)" "only_key p raw tok (sv_db s)" "routes_create p" "tok \<noteq> ''''" "key \<noteq> ''''"
    and "phase_ok raw tok key ph" "holding ph \<longrightarrow> pending_row tok key (sv_db s)" "advance p cfg w ph s = (s', ph')"
  shows "schema_ok (sv_db s') \<and> db_api_tokens (sv_db s') = db_api_tokens (sv_db s) \<and> phase_ok raw tok key ph' \<and>
     step_effect tok key (sv_db s) ph (sv_db s') ph'"
proof (cases ph)
  case (Arriving r)
  with assms arrive_effect [of raw key r p tok s cfg w s' ph'] show ?thesis by (auto intro: quiet)
next
  case (Authenticated cx r)
  with assms turn_effect [of raw key r cx tok w s s' ph'] show ?thesis by (auto intro: quiet)
next
  case (Admitted cx r)
  with assms reserve_effect [of s raw key r cx tok p cfg w s' ph'] show ?thesis by simp
next
  case (Holding cx t k r)
  with assms handle_effect [of s tok key p raw cx t k r cfg w s' ph'] show ?thesis by simp
next
  case (Handled t k ops)
  with assms settle_effect [of s p cfg w tok key ops s' ph' raw] show ?thesis by simp
qed (use assms in \<open>auto intro: quiet\<close>)

text \<open>
  The invariant of the steps: until the key is completed there are as many tunnels as at the start,
  and then at most one more; of all the requests at most one is between its reservation and its end.
\<close>

definition once_inv :: "string \<Rightarrow> string \<Rightarrow> string \<Rightarrow> api_token_row list \<Rightarrow> nat \<Rightarrow> srv \<times> job list \<Rightarrow> bool" where
  "once_inv raw tok key keys n st \<longleftrightarrow>
     (case st of (s, jobs) \<Rightarrow>
        schema_ok (sv_db s) \<and> db_api_tokens (sv_db s) = keys \<and> tunnel_count (sv_db s) \<le> n + 1 \<and>
        (\<not> completed_row tok key (sv_db s) \<longrightarrow> tunnel_count (sv_db s) = n) \<and>
        (\<forall>i < length jobs. phase_ok raw tok key (jb_phase (jobs ! i)) \<and>
           (active (jb_phase (jobs ! i)) \<longrightarrow> find_idem tok key (sv_db s) \<noteq> None) \<and>
           (holding (jb_phase (jobs ! i)) \<longrightarrow> pending_row tok key (sv_db s)) \<and>
           (\<forall>j < length jobs. active (jb_phase (jobs ! i)) \<longrightarrow> active (jb_phase (jobs ! j)) \<longrightarrow> i = j)))"

lemma once_invD:
  assumes "once_inv raw tok key keys n (s, jobs)"
  shows "schema_ok (sv_db s)" "db_api_tokens (sv_db s) = keys" "tunnel_count (sv_db s) \<le> n + 1"
    "\<not> completed_row tok key (sv_db s) \<Longrightarrow> tunnel_count (sv_db s) = n"
    "i < length jobs \<Longrightarrow> phase_ok raw tok key (jb_phase (jobs ! i))"
    "i < length jobs \<Longrightarrow> active (jb_phase (jobs ! i)) \<Longrightarrow> find_idem tok key (sv_db s) \<noteq> None"
    "i < length jobs \<Longrightarrow> holding (jb_phase (jobs ! i)) \<Longrightarrow> pending_row tok key (sv_db s)"
    "i < length jobs \<Longrightarrow> j < length jobs \<Longrightarrow> active (jb_phase (jobs ! i)) \<Longrightarrow> active (jb_phase (jobs ! j)) \<Longrightarrow> i = j"
  using assms unfolding once_inv_def by auto

lemma once_invI:
  assumes "schema_ok (sv_db s)" "db_api_tokens (sv_db s) = keys" "tunnel_count (sv_db s) \<le> n + 1"
    "\<not> completed_row tok key (sv_db s) \<longrightarrow> tunnel_count (sv_db s) = n"
    "\<And>i. i < length jobs \<Longrightarrow> phase_ok raw tok key (jb_phase (jobs ! i)) \<and>
       (active (jb_phase (jobs ! i)) \<longrightarrow> find_idem tok key (sv_db s) \<noteq> None) \<and>
       (holding (jb_phase (jobs ! i)) \<longrightarrow> pending_row tok key (sv_db s))"
    "\<And>i j. i < length jobs \<Longrightarrow> j < length jobs \<Longrightarrow> active (jb_phase (jobs ! i)) \<Longrightarrow> active (jb_phase (jobs ! j)) \<Longrightarrow> i = j"
  shows "once_inv raw tok key keys n (s, jobs)"
  using assms unfolding once_inv_def by blast

lemma once_step:
  assumes inv: "once_inv raw tok key keys n (s, jobs)" and p: "routes_create p"
    and k: "\<forall>d. db_api_tokens d = keys \<longrightarrow> only_key p raw tok d" "tok \<noteq> ''''" "key \<noteq> ''''"
  shows "once_inv raw tok key keys n (step_job p cfg i (s, jobs))"
proof (cases "i < length jobs")
  case False
  with inv show ?thesis by (simp add: step_job_def)
next
  case True
  let ?j = "jobs ! i"
  obtain s' ph' where a: "advance p cfg (jb_world ?j) (jb_phase ?j) s = (s', ph')"
    by (cases "advance p cfg (jb_world ?j) (jb_phase ?j) s")
  note d = once_invD [OF inv]
  have only: "only_key p raw tok (sv_db s)" using k(1) d(2) by blast
  have step: "schema_ok (sv_db s')" "db_api_tokens (sv_db s') = db_api_tokens (sv_db s)" "phase_ok raw tok key ph'"
    and eff: "step_effect tok key (sv_db s) (jb_phase ?j) (sv_db s') ph'"
    using advance_effect [OF d(1) only p k(2,3) d(5) [OF True] _ a] d(7) [OF True] by auto
  have others: "\<not> active (jb_phase (jobs ! m))" if "m < length jobs" "m \<noteq> i" "active (jb_phase ?j)" for m
    using d(8) [OF True that(1) that(3)] that(2) by blast
  let ?jobs = "jobs[i := ?j\<lparr>jb_phase := ph'\<rparr>]"
  let ?ph = "\<lambda>m. if m = i then ph' else jb_phase (jobs ! m)"
  have at: "jb_phase (?jobs ! m) = ?ph m" if "m < length jobs" for m
    using that by simp
  have count: "tunnel_count (sv_db s') \<le> n + 1 \<and> (\<not> completed_row tok key (sv_db s') \<longrightarrow> tunnel_count (sv_db s') = n)"
    using eff
  proof cases
    case quiet
    with d(3,4) row_same(2) [OF quiet(1)] show ?thesis by simp
  next
    case reserving
    with d(4) show ?thesis by simp
  next
    case completing
    with d(4) d(7) [OF True] show ?thesis by simp
  next
    case settling
    with d(3,4) row_same(2) [of tok key "sv_db s'" "sv_db s"] show ?thesis
      by (cases "pending_row tok key (sv_db s)") auto
  qed
  have rows: "(active (?ph m) \<longrightarrow> find_idem tok key (sv_db s') \<noteq> None) \<and>
      (holding (?ph m) \<longrightarrow> pending_row tok key (sv_db s'))" if m: "m < length jobs" for m
    using eff
  proof cases
    case quiet
    with d(6,7) [OF m] d(6) [OF True] row_same(1) [OF quiet(1)] holding_active [of ph'] holding_active [of "jb_phase ?j"]
    show ?thesis by (cases "m = i") auto
  next
    case reserving
    with d(6) [OF m] holding_active [of "jb_phase (jobs ! m)"] holding_active [of ph'] show ?thesis
      by (cases "m = i") (auto simp: pending_row_def)
  next
    case completing
    with others [OF m] holding_active [of "jb_phase ?j"] holding_active [of "jb_phase (jobs ! m)"] show ?thesis
      by (cases "m = i") (auto simp: completed_row_def)
  next
    case settling
    with others [OF m] holding_active [of "jb_phase (jobs ! m)"] holding_active [of ph'] show ?thesis
      by (cases "m = i") auto
  qed
  have single: "m = l" if "m < length jobs" "l < length jobs" "active (?ph m)" "active (?ph l)" for m l
  proof (cases "m = i \<or> l = i")
    case False
    with that d(8) [OF that(1,2)] show ?thesis by simp
  next
    case True
    have "active ph' \<Longrightarrow> x < length jobs \<Longrightarrow> x \<noteq> i \<Longrightarrow> \<not> active (jb_phase (jobs ! x))" for x
      using eff by cases (use others [of x] holding_active [of "jb_phase ?j"] d(6) [of x] in auto)
    with that True show ?thesis
      by (cases "m = i"; cases "l = i") auto
  qed
  have phase: "phase_ok raw tok key (?ph m)" if "m < length jobs" for m
    using d(5) [OF that] step(3) by simp
  have eq: "step_job p cfg i (s, jobs) = (s', ?jobs)" using True by (simp add: step_job_def a)
  show ?thesis
    unfolding eq
  proof (rule once_invI)
    fix m assume "m < length ?jobs"
    then have m: "m < length jobs" by simp
    show "phase_ok raw tok key (jb_phase (?jobs ! m)) \<and>
       (active (jb_phase (?jobs ! m)) \<longrightarrow> find_idem tok key (sv_db s') \<noteq> None) \<and>
       (holding (jb_phase (?jobs ! m)) \<longrightarrow> pending_row tok key (sv_db s'))"
      unfolding at [OF m] using phase [OF m] rows [OF m] by blast
  next
    fix m l assume "m < length ?jobs" "l < length ?jobs" and act: "active (jb_phase (?jobs ! m))" "active (jb_phase (?jobs ! l))"
    then have ml: "m < length jobs" "l < length jobs" by simp_all
    show "m = l" by (rule single [OF ml]) (use act in \<open>simp_all only: at [OF ml(1)] at [OF ml(2)]\<close>)
  qed (use step(1,2) d(2) count in auto)
qed

lemma once_steps:
  assumes "once_inv raw tok key keys n st" "routes_create p"
    and "\<forall>d. db_api_tokens d = keys \<longrightarrow> only_key p raw tok d" "tok \<noteq> ''''" "key \<noteq> ''''"
  shows "once_inv raw tok key keys n (step_jobs p cfg is st)"
  using assms(1)
proof (induction "is" arbitrary: st)
  case (Cons i "is")
  obtain s jobs where st: "st = (s, jobs)" by (cases st)
  from Cons.IH [OF once_step [OF Cons.prems [unfolded st] assms(2-5)]] show ?case by (simp add: step_jobs_def st)
qed (simp add: step_jobs_def)

text \<open>A new request changes nothing yet.\<close>

lemma once_arrival:
  assumes inv: "once_inv raw tok key keys n (s, jobs)" and r: "creation_request raw key r"
  shows "once_inv raw tok key keys n (s, jobs @ map (\<lambda>w. \<lparr>jb_world = w, jb_phase = Arriving r\<rparr>) ws)"
proof -
  let ?jobs = "jobs @ map (\<lambda>w. \<lparr>jb_world = w, jb_phase = Arriving r\<rparr>) ws"
  have at: "jb_phase (?jobs ! i) = (if i < length jobs then jb_phase (jobs ! i) else Arriving r)" if "i < length ?jobs" for i
    using that by (simp add: nth_append)
  note d = once_invD [OF inv]
  show ?thesis
  proof (rule once_invI)
    fix i assume i: "i < length ?jobs"
    show "phase_ok raw tok key (jb_phase (?jobs ! i)) \<and>
       (active (jb_phase (?jobs ! i)) \<longrightarrow> find_idem tok key (sv_db s) \<noteq> None) \<and>
       (holding (jb_phase (?jobs ! i)) \<longrightarrow> pending_row tok key (sv_db s))"
      unfolding at [OF i] using d(5-7) [of i] r by simp
  next
    fix i j assume ij: "i < length ?jobs" "j < length ?jobs" and act: "active (jb_phase (?jobs ! i))" "active (jb_phase (?jobs ! j))"
    from act(1) [unfolded at [OF ij(1)]] have "i < length jobs" "active (jb_phase (jobs ! i))" by (auto split: if_splits)
    moreover from act(2) [unfolded at [OF ij(2)]] have "j < length jobs" "active (jb_phase (jobs ! j))" by (auto split: if_splits)
    ultimately show "i = j" using d(8) by blast
  qed (use d in auto)
qed

end
