(* ===== verification/ClientCreate.thy ===== *)
theory ClientCreate
  imports ClientServer Overlap
begin

text \<open>
  A creation end to end: \<open>CreateTunnelCtx\<close> of \<open>internal/cli/client.go\<close> over a network that loses and
  delays requests, sends them twice, and loses answers or cuts them short, against the server's \<open>/v1\<close> handler, in
  whose steps the requests that are under way at the same time take turns.
\<close>

subsection \<open>Invariants of a network\<close>

text \<open>What every request of a kind and every wait keep is kept by the client's calls.\<close>

locale net_invariant =
  fixes nt :: "'s net" and sends :: "client_request \<Rightarrow> bool" and inv :: "'s \<Rightarrow> bool"
  assumes do_keeps: "sends q \<Longrightarrow> inv s \<Longrightarrow> inv (fst (nt_do nt q s))"
    and sleep_keeps: "inv s \<Longrightarrow> inv (fst (nt_sleep nt d s))"
begin

lemma send_keeps: "sends q \<Longrightarrow> inv s \<Longrightarrow> inv (fst (send_attempts nt rt conflict q left s))"
proof (induction left arbitrary: s)
  case 0
  obtain s1 res where d: "nt_do nt q s = (s1, res)" by (cases "nt_do nt q s")
  with do_keeps [OF 0] 0(2) show ?case by (simp add: send_attempts.simps [of _ _ _ _ 0])
next
  case (Suc left)
  obtain s1 res where d: "nt_do nt q s = (s1, res)" by (cases "nt_do nt q s")
  with do_keeps [OF Suc.prems] have s1: "inv s1" by simp
  let ?delay = "retryDelay (case res of Inl _ \<Rightarrow> None | Inr a \<Rightarrow> Some a) (maxAttempts - Suc left)"
  obtain s2 c where w: "nt_sleep nt ?delay s1 = (s2, c)" by (cases "nt_sleep nt ?delay s1")
  with sleep_keeps [OF s1, of ?delay] have s2: "inv s2" by simp
  show ?case
    using Suc.prems(2) s1 s2 Suc.IH [OF Suc.prems(1) s2]
    by (cases rt) (simp_all add: send_attempts.simps [of _ _ _ _ "Suc left"] d waitForRetry_def w split: option.split)
qed

lemma doCtx_keeps:
  "sends (client_request_of c method path body headers) \<Longrightarrow> inv s \<Longrightarrow> inv (fst (doCtx nt c method path body headers s))"
  unfolding doCtx_def Let_def by (rule send_keeps)

lemma create_keeps:
  assumes "sends (client_request_of c ''POST'' ''/v1/tunnels'' (Some body) (create_headers key))"
  shows "inv s \<Longrightarrow> inv (fst (create_attempts nt lenient c body key left s))"
proof (induction left arbitrary: s)
  case 0
  obtain s1 res where d: "doCtx nt c ''POST'' ''/v1/tunnels'' (Some body) (create_headers key) s = (s1, res)"
    by (cases "doCtx nt c ''POST'' ''/v1/tunnels'' (Some body) (create_headers key) s")
  with doCtx_keeps [OF assms 0] show ?case
    by (simp add: create_attempts.simps [of _ _ _ _ _ 0] split: sum.split)
next
  case (Suc left)
  obtain s1 res where d: "doCtx nt c ''POST'' ''/v1/tunnels'' (Some body) (create_headers key) s = (s1, res)"
    by (cases "doCtx nt c ''POST'' ''/v1/tunnels'' (Some body) (create_headers key) s")
  with doCtx_keeps [OF assms Suc.prems] have s1: "inv s1" by simp
  let ?delay = "retryDelay None (maxDecodeAttempts - Suc left)"
  obtain s2 w where w: "nt_sleep nt ?delay s1 = (s2, w)" by (cases "nt_sleep nt ?delay s1")
  with sleep_keeps [OF s1, of ?delay] have s2: "inv s2" by simp
  show ?case
    using s1 s2 Suc.IH [OF s2]
    by (simp add: create_attempts.simps [of _ _ _ _ _ "Suc left"] d waitForRetry_def w split: sum.split option.split)
qed

lemma CreateTunnelCtx_keeps:
  assumes "sends (client_request_of c ''POST'' ''/v1/tunnels'' (Some (create_payload_json q)) (create_headers key))" "inv s"
  shows "inv (fst (CreateTunnelCtx nt lenient c q key s))"
  unfolding CreateTunnelCtx_def by (rule create_keeps [OF assms])

end

subsection \<open>The network\<close>

text \<open>
  What becomes of a request: the copies of it that are sent (Go's transport sends a request with an
  idempotency key again when a kept connection turns out to be closed), each with the world of its
  run at the server; the steps that the server does, of these and of earlier requests, before the
  client's call returns; and the answer that the client reads, that of which copy and cut after how
  many bytes, if any.  A copy whose steps never come is a request that was lost, one whose steps come
  during a later exchange has been delayed.  The plan names this for each exchange in turn; when it
  is used up, nothing more is sent.
\<close>

record exchange =
  xc_copies :: "world list"
  xc_steps :: "nat list"
  xc_answer :: "(nat \<times> nat option) option"

type_synonym network = "srv \<times> job list \<times> exchange list"

definition read_answer :: "nat option \<Rightarrow> wop list \<Rightarrow> client_answer" where
  "read_answer bound ops =
     (case bound of
        None \<Rightarrow> answer_of ops
      | Some n \<Rightarrow> (answer_of ops)\<lparr>hp_body := take n (hp_body (answer_of ops)), hp_broken := True\<rparr>)"

definition received :: "(nat \<times> nat option) option \<Rightarrow> job list \<Rightarrow> string + client_answer" where
  "received reading copies =
     (case reading of
        None \<Rightarrow> Inl ''connection lost''
      | Some (i, bound) \<Rightarrow>
          if length copies \<le> i then Inl ''connection lost''
          else (case jb_phase (copies ! i) of
                  Answered ops \<Rightarrow> Inr (read_answer bound ops)
                | _ \<Rightarrow> Inl ''connection lost''))"

fun create_do ::
  "platform \<Rightarrow> config \<Rightarrow> string \<Rightarrow> client_request \<Rightarrow> network \<Rightarrow> network \<times> (string + client_answer)" where
  "create_do p cfg base q (s, jobs, []) = ((s, jobs, []), Inl ''no route'')"
| "create_do p cfg base q (s, jobs, x # plan) =
     (case step_jobs p cfg (xc_steps x)
             (s, jobs @ map (\<lambda>w. \<lparr>jb_world = w, jb_phase = Arriving (deliver base q)\<rparr>) (xc_copies x)) of
        (s', jobs') \<Rightarrow> ((s', jobs', plan), received (xc_answer x) (drop (length jobs) jobs')))"

definition create_net ::
  "platform \<Rightarrow> config \<Rightarrow> string \<Rightarrow> (duration \<Rightarrow> string option) \<Rightarrow> network net" where
  "create_net p cfg base sleep =
     \<lparr>nt_url_ok = (\<lambda>_. True), nt_do = create_do p cfg base, nt_sleep = (\<lambda>d st. (st, sleep d))\<rparr>"

text \<open>The invariant of the requests, where they are those of one creation.\<close>

definition created_once ::
  "platform \<Rightarrow> request \<Rightarrow> string \<Rightarrow> string \<Rightarrow> string \<Rightarrow> api_token_row list \<Rightarrow> nat \<Rightarrow> network \<Rightarrow> bool" where
  "created_once p r raw tok key keys n st \<longleftrightarrow>
     (routes_create p \<and> creation_request raw key r \<and> (\<forall>d. db_api_tokens d = keys \<longrightarrow> only_key p raw tok d) \<and>
      tok \<noteq> '''' \<and> key \<noteq> '''' \<longrightarrow> (case st of (s, jobs, plan) \<Rightarrow> once_inv raw tok key keys n (s, jobs)))"

interpretation creation: net_invariant "create_net p cfg base sleep" "\<lambda>q. deliver base q = r"
    "created_once p r raw tok key keys n"
  for p cfg base sleep r raw tok key keys n
proof (unfold_locales, goal_cases)
  case (1 q st)
  obtain s jobs plan where st: "st = (s, jobs, plan)" by (cases st)
  show ?case
  proof (cases plan)
    case Nil
    with 1(2) show ?thesis by (simp add: create_net_def st)
  next
    case (Cons x plan')
    let ?jobs = "jobs @ map (\<lambda>w. \<lparr>jb_world = w, jb_phase = Arriving r\<rparr>) (xc_copies x)"
    obtain s' jobs' where run: "step_jobs p cfg (xc_steps x) (s, ?jobs) = (s', jobs')"
      by (cases "step_jobs p cfg (xc_steps x) (s, ?jobs)")
    then have do: "fst (nt_do (create_net p cfg base sleep) q st) = (s', jobs', plan')"
      using 1(1) by (simp add: create_net_def st Cons)
    show ?thesis
      unfolding do created_once_def prod.case
    proof (intro impI, elim conjE)
      assume c: "routes_create p" "creation_request raw key r" "\<forall>d. db_api_tokens d = keys \<longrightarrow> only_key p raw tok d"
        "tok \<noteq> ''''" "key \<noteq> ''''"
      with 1(2) have "once_inv raw tok key keys n (s, jobs)" by (simp add: created_once_def st)
      from once_steps [OF once_arrival [OF this c(2), of "xc_copies x"] c(1,3-5), of cfg "xc_steps x"]
      show "once_inv raw tok key keys n (s', jobs')" by (simp add: run)
    qed
  qed
next
  case (2 st d)
  then show ?case by (simp add: create_net_def)
qed

lemma create_request_of_client:
  assumes "key \<noteq> ''''"
  shows "creation_request (cl_token c) key
     (deliver (cl_base c) (client_request_of c ''POST'' ''/v1/tunnels'' (Some body) (create_headers key)))"
proof -
  have "equal_fold ''Bearer'' ''bearer''" by code_simp
  then have "extractBearerToken (''Bearer '' @ cl_token c) = Inr (cl_token c)"
    using split_first_append [of "CHR '' ''" "''Bearer''" "cl_token c"] by (simp add: extractBearerToken_def)
  moreover have "split_first CHR ''?'' ''/v1/tunnels'' = None" by code_simp
  ultimately show ?thesis
    using assms
    by (simp add: creation_request_def create_route_def deliver_def client_request_of_def create_headers_def header_get_def Let_def)
qed

text \<open>
  C25: One call of \<open>CreateTunnel\<close> with a key makes at most one tunnel, while and after it runs: whatever the
  network loses, delays, repeats or cuts short of the requests that the client sends and of their
  answers, however the steps of those requests overlap in the server or stop half-way, whatever
  fails in them, and however many of their steps are still done after the client has returned.  The
  secret of the client belongs to one API key only, and the router's matcher finds the route of a
  creation.
\<close>

theorem client_creates_once:
  assumes "schema_ok (sv_db s)" "routes_create p" "only_key p (cl_token c) tok (sv_db s)" "tok \<noteq> ''''" "key \<noteq> ''''"
    and "CreateTunnelCtx (create_net p cfg (cl_base c) sleep) lenient c q key (s, [], plan) = ((s', jobs, plan'), res)"
  shows "tunnel_count (sv_db (fst (step_jobs p cfg later (s', jobs)))) \<le> tunnel_count (sv_db s) + 1"
proof -
  let ?q = "client_request_of c ''POST'' ''/v1/tunnels'' (Some (create_payload_json q)) (create_headers key)"
  let ?r = "deliver (cl_base c) ?q" and ?keys = "db_api_tokens (sv_db s)"
  have "once_inv (cl_token c) tok key ?keys (tunnel_count (sv_db s)) (s, [])"
    using assms(1) by (simp add: once_inv_def)
  then have "created_once p ?r (cl_token c) tok key ?keys (tunnel_count (sv_db s)) (s, [], plan)"
    by (simp add: created_once_def)
  from creation.CreateTunnelCtx_keeps [OF refl this, of cfg sleep lenient]
  have "created_once p ?r (cl_token c) tok key ?keys (tunnel_count (sv_db s)) (s', jobs, plan')"
    unfolding assms(6) by simp
  moreover have only: "\<forall>d. db_api_tokens d = ?keys \<longrightarrow> only_key p (cl_token c) tok d"
    using assms(3) by (simp add: only_key_def)
  ultimately have "once_inv (cl_token c) tok key ?keys (tunnel_count (sv_db s)) (s', jobs)"
    using assms(2,4,5) create_request_of_client [OF assms(5)] by (simp add: created_once_def)
  from once_steps [OF this assms(2) only assms(4,5), of cfg later] show ?thesis
    by (cases "step_jobs p cfg later (s', jobs)") (auto dest: once_invD(3))
qed

subsection \<open>A creation whose attempts overlap\<close>

text \<open>
  The first request is answered by nobody while its run holds the reservation; the second is refused
  as being in flight; the third brings the first run to its end and finds its answer.
\<close>

definition overlap_client :: client where
  "overlap_client = \<lparr>cl_base = ''http://h'', cl_token = ''sk_live_AAAABBBB''\<rparr>"

definition overlap_plan :: "exchange list" where
  "overlap_plan =
     [\<lparr>xc_copies = [sample_world], xc_steps = [0, 0, 0], xc_answer = None\<rparr>,
      \<lparr>xc_copies = [sample_world], xc_steps = [1, 1, 1, 1], xc_answer = Some (0, None)\<rparr>,
      \<lparr>xc_copies = [sample_world], xc_steps = [0, 0, 2, 2, 2, 2], xc_answer = Some (0, None)\<rparr>]"

theorem client_creates_once_witness:
  "\<exists>s' jobs plan' res. CreateTunnelCtx (create_net sample_platform sample_limits ''http://h'' (\<lambda>_. None)) (\<lambda>_. None) overlap_client
       \<lparr>cp_type = ''http'', cp_local_host = ''127.0.0.1'', cp_local_port = 8, cp_ttl = 0\<rparr> ''k''
       (auth_sample sample_sha ''sk_live_AAAABBBB'', [], overlap_plan) = ((s', jobs, plan'), res) \<and>
     tunnel_count (sv_db (fst (step_jobs sample_platform sample_limits [0, 1, 2] (s', jobs)))) \<le> 2"
proof -
  let ?s = "auth_sample sample_sha ''sk_live_AAAABBBB''"
  let ?net = "create_net sample_platform sample_limits (cl_base overlap_client) (\<lambda>_. None)"
  let ?q = "\<lparr>cp_type = ''http'', cp_local_host = ''127.0.0.1'', cp_local_port = 8, cp_ttl = 0\<rparr>"
  let ?tok = "at_id (hd (db_api_tokens (sv_db ?s)))"
  obtain s' jobs plan' res where run: "CreateTunnelCtx ?net (\<lambda>_. None) overlap_client ?q ''k'' (?s, [], overlap_plan) = ((s', jobs, plan'), res)"
    by (metis surj_pair)
  have "schema_ok (sv_db ?s)" by (simp add: auth_sample_def Let_def schema_ok_def sample_db_def)
  moreover have "routes_create sample_platform"
    by (simp add: routes_create_def create_route_def sample_platform_def sample_chi_def v1_routes_def root_routes_def RegisterRoutes_def)
  moreover have "only_key sample_platform (cl_token overlap_client) ?tok (sv_db ?s)" "?tok \<noteq> ''''" "tunnel_count (sv_db ?s) = 1"
    by (simp_all add: only_key_def auth_sample_def Let_def sample_db_def)
  ultimately have "tunnel_count (sv_db (fst (step_jobs sample_platform sample_limits [0, 1, 2] (s', jobs)))) \<le> 2"
    using client_creates_once [OF _ _ _ _ _ run, of ?tok "[0, 1, 2]"] by simp
  with run show ?thesis by (auto simp: overlap_client_def)
qed

end
