(* ===== verification/ClientCommands.thy ===== *)
theory ClientCommands
  imports ClientServer Credentials
begin

unbundle bit_operations_syntax

text \<open>
  The client's commands (\<open>internal/cli/commands/client.go\<close>, \<open>root.go\<close>): what each does once cobra has parsed its
  arguments.  \<open>hatchway http\<close> is the large one: it creates a tunnel, writes the configuration of frpc,
  runs and restarts frpc until a signal, a clean exit or too many failures, and takes everything
  down again.  What it does is a list of actions; how the operating system answers is a record.
\<close>

section \<open>Errors and surroundings\<close>

datatype frpc_config_error = MissingFRP | IncompleteFRP | InconsistentIdentity | LocalTargetMismatch

datatype client_cmd_error =
    TokenUnreadable | TokenRequired | ServerRequired
  | CredentialsFailed cred_error
  | ApiCallFailed client_error
  | InvalidPort string | PortUnusable port_error | InvalidTTL ttl_error
  | CreateFailed client_error
  | BadFRPCConfig frpc_config_error
  | TempDirFailed | WriteConfigFailed | FRPCNotFound | StartFRPCFailed | ResultNotWritten
  | FRPCFailed string | RestartFRPCFailed
  | NotSupported | OutputFailed

text \<open>What a command prints: a line of standard output or standard error, a table, the tunnels as JSON.\<close>

datatype printed = Out string | Err string | OutTable "string list list" | OutTunnels "client_tunnel list"

text \<open>
  One run of frpc: whether it starts, how it ends (None: it goes on for ever), and whether a signal
  arrives while the next restart is waited for.
\<close>

datatype frpc_end = GotSignal | ExitedCleanly | ExitedWith string

record frpc_run =
  fr_starts :: bool
  fr_end :: "frpc_end option"
  fr_interrupted :: bool

text \<open>\<open>ce_cleanup\<close>: the network under the context of three seconds that the cleanup has.\<close>

record 's client_env =
  ce_os :: os_world
  ce_files :: files
  ce_net :: "'s net"
  ce_cleanup :: "'s net"
  ce_lenient :: "string \<Rightarrow> int option"
  ce_fraction :: frac_fun
  ce_dial :: "string \<Rightarrow> bool option"
  ce_uuid :: string
  ce_quote :: "string \<Rightarrow> string"
  ce_prints :: bool
  ce_temp_dir :: "string option"
  ce_writes_config :: bool
  ce_executable :: "string option"
  ce_stat :: "string \<Rightarrow> (file_kind \<times> 32 word) option"
  ce_look_path :: "string option"
  ce_runs :: "nat \<Rightarrow> frpc_run"

definition NewClient :: "credentials \<Rightarrow> client" where
  "NewClient cred = \<lparr>cl_base = cd_server cred, cl_token = cd_token cred\<rparr>"

definition ListTunnels where "ListTunnels nt lenient c limit s = ListTunnelsCtx nt lenient c limit s"
definition GetTunnel where "GetTunnel nt lenient c tid s = GetTunnelCtx nt lenient c tid s"
definition DeleteTunnel where "DeleteTunnel nt c tid s = DeleteTunnelCtx nt c tid s"
definition Whoami where "Whoami nt c s = WhoamiCtx nt c s"

section \<open>hatchway auth\<close>

text \<open>
  Where the token comes from: the argument, a terminal (None: reading fails), or what standard input
  holds.  \<open>fmt.Fscanln\<close> takes the first word of the first line; its error is dropped.
\<close>

datatype token_source = Argument string | Terminal "string option" | Piped string

definition space_at :: "string \<Rightarrow> nat option" where
  "space_at s =
     (case s of [] \<Rightarrow> None
      | c # _ \<Rightarrow> if is_space_ascii c then Some 1
                  else map_option length (List.find (\<lambda>u. prefix u s) unicode_spaces))"

function scan_blank :: "string \<Rightarrow> string" where
  "scan_blank s =
     (if prefix [CHR 0x0A] s then s
      else (case space_at s of None \<Rightarrow> s | Some n \<Rightarrow> if n = 0 \<or> s = [] then s else scan_blank (drop n s)))"
  by pat_completeness auto
termination by (relation "measure length") auto

fun scan_word :: "string \<Rightarrow> string" where
  "scan_word [] = []"
| "scan_word (c # cs) = (if space_at (c # cs) = None then c # scan_word cs else [])"

definition read_token :: "token_source \<Rightarrow> string option" where
  "read_token src =
     (case src of
        Argument t \<Rightarrow> Some t
      | Terminal line \<Rightarrow> map_option trim_space line
      | Piped input \<Rightarrow> Some (scan_word (scan_blank input)))"

definition authSetToken :: "os_world \<Rightarrow> token_source \<Rightarrow> string \<Rightarrow> files \<Rightarrow> files \<times> client_cmd_error option" where
  "authSetToken w src server fs =
     (case read_token src of
        None \<Rightarrow> (fs, Some TokenUnreadable)
      | Some token \<Rightarrow>
          if token = '''' then (fs, Some TokenRequired)
          else (let server' = (if server = '''' then ow_getenv w ''HATCHWAY_SERVER'' else server)
                in if server' = '''' then (fs, Some ServerRequired)
                   else (case WriteCredentials w (Some \<lparr>cd_server = server', cd_token = token\<rparr>) fs of
                           (fs', err) \<Rightarrow> (fs', map_option CredentialsFailed err))))"

text \<open>A Go map is marshalled with its keys in order.\<close>

definition authWhoami :: "'s client_env \<Rightarrow> bool \<Rightarrow> 's \<Rightarrow> 's \<times> (client_cmd_error + printed)" where
  "authWhoami env asJSON s =
     (case ResolveCredentials (ce_os env) (ce_files env) of
        Inl err \<Rightarrow> (s, Inl (CredentialsFailed err))
      | Inr cred \<Rightarrow>
          (case Whoami (ce_net env) (NewClient cred) s of
             (s1, Inl err) \<Rightarrow> (s1, Inl (ApiCallFailed err))
           | (s1, Inr userID) \<Rightarrow>
               (s1, Inr (if asJSON
                         then Out (json_text (JObj [(''server'', JStr (cd_server cred)), (''user_id'', JStr userID)]))
                         else Err (''Authenticated as '' @ userID @ '' on '' @ cd_server cred)))))"

definition authLogout :: "os_world \<Rightarrow> files \<Rightarrow> files \<times> client_cmd_error option" where
  "authLogout w fs = (case DeleteCredentials w fs of (fs', err) \<Rightarrow> (fs', map_option CredentialsFailed err))"

section \<open>hatchway list and delete\<close>

text \<open>None: the walk over the pages does not end.\<close>

definition listCmd :: "'s client_env \<Rightarrow> bool \<Rightarrow> 's \<Rightarrow> ('s \<times> (client_cmd_error + printed)) option" where
  "listCmd env asJSON s =
     (case ResolveCredentials (ce_os env) (ce_files env) of
        Inl err \<Rightarrow> Some (s, Inl (CredentialsFailed err))
      | Inr cred \<Rightarrow>
          (case ListTunnels (ce_net env) (ce_lenient env) (NewClient cred) 0 s of
             None \<Rightarrow> None
           | Some (s1, Inl err) \<Rightarrow> Some (s1, Inl (ApiCallFailed err))
           | Some (s1, Inr ts) \<Rightarrow>
               Some (s1,
                 if asJSON then (if ce_prints env then Inr (OutTunnels ts) else Inl OutputFailed)
                 else if ts = [] then Inr (Err ''No tunnels found.'')
                 else if ce_prints env
                 then Inr (OutTable ([''ID'', ''TYPE'', ''STATUS'', ''URL''] #
                             map (\<lambda>t. [ct_id t, ct_type t, ct_status t, ct_url t]) ts))
                 else Inl OutputFailed)))"

definition deleteCmd :: "'s client_env \<Rightarrow> string \<Rightarrow> 's \<Rightarrow> 's \<times> (client_cmd_error + printed)" where
  "deleteCmd env tid s =
     (case ResolveCredentials (ce_os env) (ce_files env) of
        Inl err \<Rightarrow> (s, Inl (CredentialsFailed err))
      | Inr cred \<Rightarrow>
          (case DeleteTunnel (ce_net env) (NewClient cred) tid s of
             (s1, Some err) \<Rightarrow> (s1, Inl (ApiCallFailed err))
           | (s1, None) \<Rightarrow> (s1, Inr (Err (''Tunnel '' @ tid @ '' revoked.'')))))"

definition tcpCmd :: "string \<Rightarrow> client_cmd_error + printed" where "tcpCmd port = Inl NotSupported"
definition udpCmd :: "string \<Rightarrow> client_cmd_error + printed" where "udpCmd port = Inl NotSupported"
definition versionCmd :: "string \<Rightarrow> printed" where "versionCmd v = Out v"

section \<open>The configuration of frpc\<close>

text \<open>\<open>strconv.Quote\<close> of ASCII text; of other text it is the parameter \<open>wide\<close>.\<close>

definition go_escape :: "char \<Rightarrow> string" where
  "go_escape c =
     (if c = CHR 0x22 \<or> c = CHR 0x5C then [CHR 0x5C, c]
      else if byte c = 7 then [CHR 0x5C, CHR ''a'']
      else if byte c = 8 then [CHR 0x5C, CHR ''b'']
      else if byte c = 9 then [CHR 0x5C, CHR ''t'']
      else if byte c = 10 then [CHR 0x5C, CHR ''n'']
      else if byte c = 11 then [CHR 0x5C, CHR ''v'']
      else if byte c = 12 then [CHR 0x5C, CHR ''f'']
      else if byte c = 13 then [CHR 0x5C, CHR ''r'']
      else if byte c < 32 \<or> byte c = 127 then [CHR 0x5C, CHR ''x''] @ hex_encode [c]
      else [c])"

definition go_quote :: "(string \<Rightarrow> string) \<Rightarrow> string \<Rightarrow> string" where
  "go_quote wide s =
     (if list_all is_ascii s then [quote_char] @ concat (map go_escape s) @ [quote_char] else wide s)"

definition frpc_lines :: "(string \<Rightarrow> string) \<Rightarrow> client_tunnel \<Rightarrow> client_frp \<Rightarrow> string \<Rightarrow> int \<Rightarrow> string list" where
  "frpc_lines wide t f host port =
     [''serverAddr = '' @ go_quote wide (cf_addr f), ''serverPort = '' @ show_int (cf_port f), '''',
      ''auth.method = '' @ [quote_char] @ ''token'' @ [quote_char], ''auth.token = '' @ go_quote wide (cf_token f), '''',
      ''metadatas.runtime_token = '' @ go_quote wide (ct_token t), '''',
      ''['' @ ''[proxies]'' @ '']'', ''name = '' @ go_quote wide (cf_proxy_name f), ''type = '' @ go_quote wide (cf_proxy_type f),
      ''localIP = '' @ go_quote wide host, ''localPort = '' @ show_int port, ''subdomain = '' @ go_quote wide (cf_subdomain f)]"

definition port_in_range :: "int \<Rightarrow> bool" where
  "port_in_range p \<longleftrightarrow> \<not> (p < 1 \<or> 65535 < p)"

definition generateFRPCConfig ::
  "(string \<Rightarrow> string) \<Rightarrow> client_tunnel option \<Rightarrow> string \<Rightarrow> int \<Rightarrow> frpc_config_error + string" where
  "generateFRPCConfig wide tunnel host port =
     (case tunnel of
        None \<Rightarrow> Inl MissingFRP
      | Some t \<Rightarrow>
          (case ct_frp t of
             None \<Rightarrow> Inl MissingFRP
           | Some f \<Rightarrow>
               if ct_id t = '''' \<or> ct_token t = '''' \<or> cf_addr f = '''' \<or> \<not> port_in_range (cf_port f) \<or>
                  cf_token f = '''' \<or> cf_proxy_name f = '''' \<or> cf_proxy_type f = '''' \<or> cf_subdomain f = '''' \<or>
                  cf_local_ip f = '''' \<or> \<not> port_in_range (cf_local_port f)
               then Inl IncompleteFRP
               else if cf_proxy_name f \<noteq> ct_id t \<or> cf_subdomain f \<noteq> ct_id t \<or> cf_proxy_type f \<noteq> ''http''
               then Inl InconsistentIdentity
               else if host = '''' \<or> \<not> port_in_range port \<or> cf_local_ip f \<noteq> host \<or> cf_local_port f \<noteq> port
               then Inl LocalTargetMismatch
               else Inr (concat (map (\<lambda>l. l @ ''\<newline>'') (frpc_lines wide t f host port)))))"


section \<open>hatchway http\<close>

text \<open>
  What the command does to the world, in order.  \<open>SignalsCaught\<close> is \<open>signal.Notify\<close> and
  \<open>SignalsDefault\<close> is \<open>signal.Stop\<close>, after which SIGINT and SIGTERM end the process again;
  \<open>DeletionSent\<close> is the request of the cleanup with its error, which is only logged.
\<close>

datatype http_action =
    TunnelCreated string
  | TempDirMade string
  | ConfigWritten string string
  | SignalsCaught
  | FRPCStarted string string
  | Printed printed
  | BackedOff duration
  | SignalsDefault
  | FRPCCancelled
  | TempDirRemoved string
  | DeletionSent string "client_error option"

type_synonym http_outcome = "http_action list \<times> client_cmd_error option"

definition maxFRPCRestarts :: nat where "maxFRPCRestarts = 3"

definition localHost :: string where "localHost = ''127.0.0.1''"

text \<open>The actions come before those of the outcome, and None, not returning, stays None.\<close>

definition acting :: "http_action list \<Rightarrow> http_outcome option \<Rightarrow> http_outcome option" where
  "acting before = map_option (\<lambda>(acts, res). (before @ acts, res))"

text \<open>A deferred call runs when the function returns, whatever it returns.\<close>

definition deferring :: "http_action \<Rightarrow> http_outcome option \<Rightarrow> http_outcome option" where
  "deferring a = map_option (\<lambda>(acts, res). (acts @ [a], res))"

text \<open>
  The loop around frpc, whose run number \<open>restarts\<close> has started.  The multiplication of the backoff
  stays far below 64 bits.
\<close>

function supervise :: "(nat \<Rightarrow> frpc_run) \<Rightarrow> string \<Rightarrow> string \<Rightarrow> nat \<Rightarrow> http_outcome option" where
  "supervise runs path config restarts =
     (case fr_end (runs restarts) of
        None \<Rightarrow> None
      | Some GotSignal \<Rightarrow> Some ([], None)
      | Some ExitedCleanly \<Rightarrow> Some ([], None)
      | Some (ExitedWith err) \<Rightarrow>
          if maxFRPCRestarts \<le> restarts then Some ([], Some (FRPCFailed err))
          else (let restarts' = Suc restarts; backoff = BackedOff (int restarts' * 2 * ns_per_sec)
                in if fr_interrupted (runs restarts) then Some ([], None)
                   else if \<not> fr_starts (runs restarts') then Some ([backoff], Some RestartFRPCFailed)
                   else acting [backoff, FRPCStarted path config] (supervise runs path config restarts')))"
  by pat_completeness auto
termination by (relation "measure (\<lambda>(runs, path, config, restarts). maxFRPCRestarts - restarts)") auto

declare supervise.simps [simp del]










section \<open>What hatchway http leaves behind\<close>

text \<open>The actions of the loop around frpc.\<close>

fun supervising :: "http_action \<Rightarrow> bool" where
  "supervising (FRPCStarted path config) = True"
| "supervising (Printed p) = True"
| "supervising (BackedOff d) = True"
| "supervising _ = False"



text \<open>The restarts after the run number \<open>n\<close>, \<open>k\<close> of them.\<close>

definition restarted :: "string \<Rightarrow> string \<Rightarrow> nat \<Rightarrow> nat \<Rightarrow> http_action list" where
  "restarted path config n k =
     concat (map (\<lambda>i. [BackedOff (int i * 2 * ns_per_sec), FRPCStarted path config]) [Suc n ..< Suc n + k])"

lemma restarted_0 [simp]: "restarted path config n 0 = []"
  by (simp add: restarted_def)


lemma acting_Some [simp]: "acting before x = Some (acts, res) \<longleftrightarrow> (\<exists>rest. x = Some (rest, res) \<and> acts = before @ rest)"
  by (auto simp: acting_def)

lemma deferring_Some [simp]: "deferring a x = Some (acts, res) \<longleftrightarrow> (\<exists>rest. x = Some (rest, res) \<and> acts = rest @ [a])"
  by (auto simp: deferring_def)

lemma acting_None [simp]: "acting before x = None \<longleftrightarrow> x = None" "deferring a x = None \<longleftrightarrow> x = None"
  by (simp_all add: acting_def deferring_def)


text \<open>It returns when every run of frpc ends.\<close>

lemma supervise_returns: "(\<And>i. fr_end (runs i) \<noteq> None) \<Longrightarrow> supervise runs path config n \<noteq> None"
proof (induction runs path config n rule: supervise.induct)
  case (1 runs path config n)
  obtain ending where e: "fr_end (runs n) = Some ending" using 1(2) [of n] by auto
  show ?case
  proof (cases "\<exists>err. ending = ExitedWith err \<and> \<not> maxFRPCRestarts \<le> n \<and> \<not> fr_interrupted (runs n) \<and> fr_starts (runs (Suc n))")
    case True
    then obtain err where x: "ending = ExitedWith err" "\<not> maxFRPCRestarts \<le> n" "\<not> fr_interrupted (runs n)" "fr_starts (runs (Suc n))"
      by blast
    have "supervise runs path config (Suc n) \<noteq> None"
      by (rule 1(1) [OF e x(1) x(2) refl refl x(3)]) (use 1(2) x(4) in auto)
    then show ?thesis using e x by (simp add: supervise.simps [of runs path config n] Let_def)
  next
    case False
    then show ?thesis using e by (auto simp: supervise.simps [of runs path config n] Let_def split: frpc_end.split)
  qed
qed









text \<open>A split of a list of actions falls before, inside or after the part that catches signals.\<close>

lemma not_supervising [simp]: "supervising a \<Longrightarrow> a \<noteq> SignalsCaught \<and> a \<noteq> SignalsDefault"
  by (cases a) simp_all




section \<open>The configuration of frpc holds what it should\<close>

text \<open>What is read back from a quoted string, up to its closing quote; None when it is malformed.\<close>

fun escape_letter :: "char \<Rightarrow> char option" where
  "escape_letter c =
     map_of [(CHR 0x22, CHR 0x22), (CHR 0x5C, CHR 0x5C), (CHR ''a'', CHR 0x07), (CHR ''b'', CHR 0x08), (CHR ''t'', CHR 0x09),
             (CHR ''n'', CHR 0x0A), (CHR ''v'', CHR 0x0B), (CHR ''f'', CHR 0x0C), (CHR ''r'', CHR 0x0D)] c"

fun read_quoted :: "string \<Rightarrow> (string \<times> string) option" where
  "read_quoted [] = None"
| "read_quoted (c # cs) =
     (if c = quote_char then Some ([], cs)
      else if c \<noteq> CHR 0x5C then map_option (\<lambda>(v, r). (c # v, r)) (read_quoted cs)
      else (case cs of
              [] \<Rightarrow> None
            | e # r \<Rightarrow>
                (case escape_letter e of
                   Some x \<Rightarrow> map_option (\<lambda>(v, r). (x # v, r)) (read_quoted r)
                 | None \<Rightarrow>
                     (case r of a # b # r' \<Rightarrow>
                        (case (hex_value a, hex_value b) of
                           (Some x, Some y) \<Rightarrow>
                             if e = CHR ''x'' then map_option (\<lambda>(v, r). (char_of (16 * x + y) # v, r)) (read_quoted r') else None
                         | _ \<Rightarrow> None)
                      | _ \<Rightarrow> None))))"

lemma escaped_char:
  "(c \<noteq> quote_char \<and> c \<noteq> CHR 0x5C \<and> 32 \<le> byte c \<and> byte c \<noteq> 127 \<and> go_escape c = [c]) \<or>
   (\<exists>e. go_escape c = [CHR 0x5C, e] \<and> escape_letter e = Some c \<and> e \<noteq> CHR 0x0A) \<or>
   go_escape c = [CHR 0x5C, CHR ''x'', hex_digits ! (byte c div 16), hex_digits ! (byte c mod 16)]"
proof -
  have special: "\<exists>e. go_escape c = [CHR 0x5C, e] \<and> escape_letter e = Some c \<and> e \<noteq> CHR 0x0A"
    if "c \<in> {CHR 0x07, CHR 0x08, CHR 0x09, CHR 0x0A, CHR 0x0B, CHR 0x0C, CHR 0x0D, CHR 0x22, CHR 0x5C}"
    using that by (elim insertE emptyE) (simp_all add: go_escape_def)
  show ?thesis
  proof (cases "byte c \<in> {7, 8, 9, 10, 11, 12, 13, 34, 92}")
    case True
    then have "byte c \<in> byte ` {CHR 0x07, CHR 0x08, CHR 0x09, CHR 0x0A, CHR 0x0B, CHR 0x0C, CHR 0x0D, CHR 0x22, CHR 0x5C}"
      by simp
    then have "c \<in> {CHR 0x07, CHR 0x08, CHR 0x09, CHR 0x0A, CHR 0x0B, CHR 0x0C, CHR 0x0D, CHR 0x22, CHR 0x5C}"
      by (rule inj_image_mem_iff [OF inj_of_char, THEN iffD1])
    from special [OF this] show ?thesis by (intro disjI2 disjI1)
  next
    case False
    then have "c \<noteq> CHR 0x22" "c \<noteq> CHR 0x5C" by auto
    with False show ?thesis by (auto simp: go_escape_def hex_encode_def quote_char_def)
  qed
qed

lemma read_go_escape: "read_quoted (go_escape c @ s) = map_option (\<lambda>(v, r). (c # v, r)) (read_quoted s)"
proof -
  have digits: "hex_value (hex_digits ! (byte c div 16)) = Some (byte c div 16)"
    "hex_value (hex_digits ! (byte c mod 16)) = Some (byte c mod 16)"
    by (rule hex_value_digit, simp add: less_mult_imp_div_less)+
  have whole: "char_of (16 * (byte c div 16) + byte c mod 16) = c" by simp
  show ?thesis
    using escaped_char [of c] digits whole by (elim disjE exE conjE) (simp_all add: quote_char_def)
qed

lemma read_go_quote:
  assumes "list_all is_ascii s"
  shows "\<exists>q. go_quote wide s = quote_char # q \<and> (\<forall>rest. read_quoted (q @ rest) = Some (s, rest))"
proof -
  have "read_quoted (concat (map go_escape s) @ quote_char # rest) = Some (s, rest)" for rest
    by (induction s) (simp_all add: read_go_escape del: read_quoted.simps(2), simp add: quote_char_def)
  then show ?thesis using assms by (simp add: go_quote_def)
qed

lemma hex_digit_not_newline: "n < 16 \<Longrightarrow> hex_digits ! n \<noteq> CHR 0x0A"
proof -
  have "list_all (\<lambda>n. hex_digits ! n \<noteq> CHR 0x0A) [0..<16 :: nat]" by code_simp
  then show "n < 16 \<Longrightarrow> ?thesis" by (auto simp: list_all_iff)
qed

lemma go_quote_one_line:
  assumes "list_all is_ascii s \<or> CHR 0x0A \<notin> set (wide s)"
  shows "CHR 0x0A \<notin> set (go_quote wide s)"
proof -
  have "CHR 0x0A \<notin> set (go_escape c)" for c
    using escaped_char [of c] hex_digit_not_newline [of "byte c div 16"] hex_digit_not_newline [of "byte c mod 16"]
    by (auto simp: less_mult_imp_div_less)
  then show ?thesis using assms by (auto simp: go_quote_def quote_char_def)
qed

lemma show_int_one_line: "CHR 0x0A \<notin> set (show_int i)"
  using show_nat_digits [of "nat i"] show_nat_digits [of "nat (- i)"]
  by (auto simp: show_int_def list_all_iff is_digit_def in_range_def)

lemma split_terminated: "\<forall>l \<in> set ls. d \<notin> set l \<Longrightarrow> split_char d (concat (map (\<lambda>l. l @ [d]) ls)) = ls @ ['''']"
  by (induction ls) (simp_all add: split_char_append)

text \<open>
  C39: Whatever a server answers to a creation, the configuration that the client writes for frpc has exactly its
  fourteen lines, each with the value it is for, so no string of the answer adds or changes a setting; and
  it exposes the requested local service under the created tunnel and nothing else, or none is written.
\<close>

theorem frpc_config_safe:
  assumes "generateFRPCConfig wide (Some t) host port = Inr config"
    and "\<And>s. \<not> list_all is_ascii s \<Longrightarrow> CHR 0x0A \<notin> set (wide s)"
  shows "\<exists>f. ct_frp t = Some f \<and> split_char CHR 0x0A config = frpc_lines wide t f host port @ [''''] \<and>
     cf_proxy_type f = ''http'' \<and> cf_proxy_name f = ct_id t \<and> cf_subdomain f = ct_id t \<and> cf_local_ip f = host \<and> cf_local_port f = port \<and>
     (\<forall>v \<in> {cf_addr f, cf_token f, ct_token t, ct_id t, host}. v \<noteq> '''' \<and>
        (list_all is_ascii v \<longrightarrow>
           (\<exists>q. go_quote wide v = quote_char # q \<and> (\<forall>rest. read_quoted (q @ rest) = Some (v, rest)))))"
proof -
  from assms(1) obtain f where f: "ct_frp t = Some f" and config: "config = concat (map (\<lambda>l. l @ ''\<newline>'') (frpc_lines wide t f host port))"
    and fits: "cf_addr f \<noteq> ''''" "cf_token f \<noteq> ''''" "ct_token t \<noteq> ''''" "ct_id t \<noteq> ''''" "host \<noteq> ''''"
      "cf_proxy_type f = ''http''" "cf_proxy_name f = ct_id t" "cf_subdomain f = ct_id t" "cf_local_ip f = host" "cf_local_port f = port"
    by (auto simp: generateFRPCConfig_def split: option.splits if_splits)
  have q: "CHR 0x0A \<notin> set (go_quote wide s)" for s using assms(2) go_quote_one_line by blast
  have "\<forall>l \<in> set (frpc_lines wide t f host port). CHR 0x0A \<notin> set l"
    unfolding frpc_lines_def using q show_int_one_line by (simp add: quote_char_def)
  from split_terminated [OF this] have "split_char CHR 0x0A config = frpc_lines wide t f host port @ ['''']" by (simp add: config)
  with f fits read_go_quote show ?thesis by (intro exI [of _ f]) auto
qed

lemma sample_config_made:
  "\<exists>config. generateFRPCConfig (\<lambda>_. '''') (Some (client_view sample_response)) localHost 3 = Inr config"
  by (simp add: generateFRPCConfig_def client_view_def sample_response_def client_frp_of_def port_in_range_def localHost_def)

theorem frpc_config_safe_witness:
  "\<exists>config f. generateFRPCConfig (\<lambda>_. '''') (Some (client_view sample_response)) localHost 3 = Inr config \<and>
     split_char CHR 0x0A config = frpc_lines (\<lambda>_. '''') (client_view sample_response) f localHost 3 @ ['''']"
proof -
  obtain config where c: "generateFRPCConfig (\<lambda>_. '''') (Some (client_view sample_response)) localHost 3 = Inr config"
    using sample_config_made by blast
  from frpc_config_safe [OF this] show ?thesis using c by auto
qed

section \<open>A run of hatchway http\<close>








end
