(* ===== verification/ClientConnect.thy ===== *)
theory ClientConnect
  imports ClientCommands Plugin
begin

text \<open>
  From \<open>hatchway http\<close> to traffic: what the server answers to a creation is what the client can configure
  frpc with (\<open>internal/cli/commands/client.go\<close>), and what frpc then reports to the plugin
  (\<open>internal/server/plugin/handler.go\<close>) is accepted and makes the tunnel active.  frpc itself is not
  modelled: the last step holds of every NewProxy request that carries the configured values on.
\<close>

section \<open>The answer can be read\<close>

lemma is_ascii_alnum: "is_digit c \<or> is_lower c \<or> is_upper c \<or> c \<in> {CHR ''_'', CHR ''-'', CHR ''.''} \<Longrightarrow> is_ascii c"
  by (auto simp: is_ascii_def char_class_defs)

lemma hostname_ascii:
  assumes "validHostname h"
  shows "list_all is_ascii h"
  unfolding list_all_iff
proof
  fix c assume c: "c \<in> set h"
  show "is_ascii c"
  proof (cases "c = CHR ''.''")
    case False
    then obtain l where "l \<in> set (split_char CHR ''.'' h)" "c \<in> set l" using split_char_cover c by blast
    with assms have "label_char c" by (auto simp: validHostname_def valid_label_def list_all_iff)
    then show ?thesis by (intro is_ascii_alnum) (auto simp: label_char_def)
  qed (simp add: is_ascii_alnum)
qed

lemma created_response_plain:
  assumes cfg: "Validate cfg = Inr ()" and q: "decode_create cfg r = Inr q"
    and rt: "MintRuntimeToken sha draw = Some rt" "\<And>i n. draw i = Some n \<Longrightarrow> n < 62"
    and tid: "GenerateTunnelID ids = Some tid" "\<And>i n. ids i = Some n \<Longrightarrow> n < 31"
    and z: "\<bar>zone expires\<bar> < 1440"
  shows "response_plain zone (create_response cfg q rt tid expires)"
proof -
  note v = Validate_InrD [OF cfg]
  obtain q0 where "check_create cfg q0 = Inr q" using decode_create_InrD [OF q] .
  note q = check_create_InrD [OF this]
  have sh: "tunnel_id_shape tid" by (rule GenerateTunnelID_shape [OF tid])
  have "is_ascii x" if "x \<in> set tid" for x
    by (rule is_ascii_alnum) (use tunnel_id_chars [OF sh that] in blast)
  then have "list_all is_ascii tid" by (simp add: list_all_iff)
  moreover have "is_ascii x" if "x \<in> set (tk_raw rt)" for x
    by (rule is_ascii_alnum) (use minted_runtime_chars [OF rt(1) _ that] rt(2) in blast)
  then have "list_all is_ascii (tk_raw rt)" by (simp add: list_all_iff)
  moreover have "list_all is_ascii (FRPSAuthToken cfg)"
    using v(3) by (auto simp: validServiceSecret_def list_all_iff url_safe_def intro!: is_ascii_alnum)
  moreover have "list_all is_ascii (cr_host q)" "list_all is_ascii (cr_type q)"
    using q(1,4) by (auto simp: is_ascii_def)
  moreover have "int_field (cr_port q)" "int_field 7000" using q(2,3) by (simp_all add: int_field_def)
  ultimately show ?thesis
    using hostname_ascii [OF v(5)] hostname_ascii [OF v(7)] z
    by (simp add: response_plain_def frp_plain_def create_response_def publicURL_def)
       (simp add: is_ascii_def)
qed

section \<open>The configuration can be written\<close>

text \<open>What a created tunnel answers with is what \<open>generateFRPCConfig\<close> asks for.\<close>

lemma created_config:
  assumes cfg: "Validate cfg = Inr ()" and q: "decode_create cfg r = Inr q" and tid: "tid \<noteq> ''''" and rt: "tk_raw rt \<noteq> ''''"
  shows "\<exists>config. generateFRPCConfig wide (Some (client_view (create_response cfg q rt tid expires))) (cr_host q) (cr_port q) = Inr config"
proof -
  note v = Validate_InrD [OF cfg]
  obtain q0 where "check_create cfg q0 = Inr q" using decode_create_InrD [OF q] .
  note q = check_create_InrD [OF this]
  have "FRPSDomain cfg \<noteq> ''''" "FRPSAuthToken cfg \<noteq> ''''" "cr_host q \<noteq> ''''"
    using v(3,7) q(4) by (auto simp: validHostname_def validServiceSecret_def)
  then show ?thesis
    using tid rt q(2,3)
    by (simp add: generateFRPCConfig_def client_view_def create_response_def client_frp_of_def port_in_range_def)
qed

section \<open>The plugin accepts it\<close>

lemma minted_runtime_hash: "MintRuntimeToken sha draw = Some rt \<Longrightarrow> UsesCurrentHash (tk_hash rt)"
  by (auto simp: MintRuntimeToken_def Let_def split: option.splits)
lemma lookup_finds:
  assumes t: "t \<in> set (db_rt_tokens d)" "rt_usable (e_time e PlQuery) d t" "UsesCurrentHash (rt_hash t)"
    and raw: "ParsePrefix raw = Some (rt_prefix t)" "VerifyTokenContext sha argon slot raw (rt_hash t) = Inr True"
    and only: "\<And>k slot. k \<in> set (db_rt_tokens d) \<Longrightarrow> VerifyTokenContext sha argon slot raw (rt_hash k) = Inr True \<Longrightarrow> k = t"
    and calls: "\<And>k. ok e k"
  shows "lookupRuntimeToken sha argon slots e late raw d = Inr \<lparr>ti_token_id = rt_id t, ti_tunnel_id = rt_tunnel t\<rparr>"
proof -
  let ?cs = "sql_rt_candidates (e_time e PlQuery) (rt_prefix t) d"
  let ?v = "\<lambda>h. VerifyTokenContext sha argon (slots h) raw h"
  let ?c = "\<lparr>rc_token_id = rt_id t, rc_tunnel_id = rt_tunnel t, rc_hash = rt_hash t\<rparr>"
  have "?c \<in> set ?cs" using t(1,2) by (simp add: sql_rt_candidates_def)
  moreover have "?v (rc_hash ?c) = Inr True" using raw(2) t(3) by (simp add: VerifyTokenContext_current)
  ultimately obtain c where c: "scan_candidates rc_hash ?v ?cs = Inr (Some c)" "c \<in> set ?cs" "?v (rc_hash c) = Inr True"
    using rt_scan.scan_finds_current [of ?c ?cs sha argon slots raw] t(3) by auto
  from c(2) obtain k where "k \<in> set (db_rt_tokens d)" "c = \<lparr>rc_token_id = rt_id k, rc_tunnel_id = rt_tunnel k, rc_hash = rt_hash k\<rparr>"
    by (auto simp: sql_rt_candidates_def)
  with only [of k "slots (rt_hash k)"] c(3) have "c = ?c" by simp
  with c(1) show ?thesis using calls by (simp add: lookupRuntimeToken_def raw(1) Let_def)
qed

lemma first_connection:
  assumes r: "find_tunnel tid (sv_db s) = Some r" "tn_status r = Reserved" "tn_expires r = Some x" "e_time e TrTTL < x"
    and calls: "\<And>k. ok e k"
  shows "\<exists>s'. transitionFn e tid ''NewProxy'' s = (s', True) \<and> find_tunnel tid (sv_db s') = Some (r\<lparr>tn_status := Active\<rparr>)"
proof -
  have ev: "event_of_text ''NewProxy'' = Some EventNewProxy" by code_simp
  define P where "P = (\<lambda>r :: tunnel_row. tn_id r = tid \<and> tn_status r = Reserved)"
  have "r \<in> set (db_tunnels (sv_db s))" "P r" using find_tunnel_SomeD [OF r(1)] r(2) by (simp_all add: P_def)
  then have moved: "count_where P (db_tunnels (sv_db s)) \<noteq> 0" using count_where_pos_iff by (metis not_gr_zero)
  obtain d where d: "transition_body e tid EventNewProxy Reserved (sv_db s) = Inr d"
    "db_tunnels d = update_where P (\<lambda>r. r\<lparr>tn_status := Active\<rparr>) (db_tunnels (sv_db s))"
    using moved calls by (simp add: transition_body_def sql_set_status_def Let_def P_def insertEvent_def)
  have "Transition e tid EventNewProxy s = (count_transition (s\<lparr>sv_db := d\<rparr>), Inr ())"
    using r calls d(1) by (simp add: Transition_def within_ttl_def commit_simps)
  moreover have "find_tunnel tid d = Some (r\<lparr>tn_status := Active\<rparr>)"
    using r(1) \<open>P r\<close> by (simp add: find_tunnel_def d(2) status_upd.find_update)
  ultimately show ?thesis by (simp add: transitionFn_def ev)
qed

text \<open>The credential of a tunnel that was just created finds it, while no older token verifies it.\<close>

lemma created_token_found:
  assumes rows: "find_tunnel tid d = Some (new_tunnel_row tid uid q expires now)"
    "db_rt_tokens d = ts @ [new_rt_row uuid tid rt expires now]"
    and rt: "MintRuntimeToken sha draw = Some rt" "\<And>i n. draw i = Some n \<Longrightarrow> n < 62" "\<And>x. length (sha x) = 32"
    and new: "\<And>k slot. k \<in> set ts \<Longrightarrow> VerifyTokenContext sha argon slot (tk_raw rt) (rt_hash k) \<noteq> Inr True"
    and calls: "\<And>k. ok e k" and early: "e_time e PlQuery < expires"
  shows "\<exists>i. lookupRuntimeToken sha argon slots e late (tk_raw rt) d = Inr i \<and> ti_tunnel_id i = tid"
proof -
  let ?k = "new_rt_row uuid tid rt expires now"
  have raw: "ParsePrefix (tk_raw rt) = Some (tk_prefix rt)" "VerifyTokenContext sha argon slot (tk_raw rt) (tk_hash rt) = Inr True" for slot
    using minted_runtime_token [OF rt(1,2) rt(3), where argon = argon and slot = slot] by auto
  have usable: "rt_usable (e_time e PlQuery) d ?k"
    using rows(1) early by (simp add: rt_usable_def new_rt_row_def new_tunnel_row_def)
  have "lookupRuntimeToken sha argon slots e late (tk_raw rt) d = Inr \<lparr>ti_token_id = rt_id ?k, ti_tunnel_id = rt_tunnel ?k\<rparr>"
  proof (rule lookup_finds [OF _ usable])
    fix k slot assume "k \<in> set (db_rt_tokens d)" "VerifyTokenContext sha argon slot (tk_raw rt) (rt_hash k) = Inr True"
    then show "k = ?k" using new unfolding rows(2) by auto
  qed (use raw calls minted_runtime_hash [OF rt(1)] in \<open>simp_all add: rows(2) new_rt_row_def\<close>)
  then show ?thesis by (simp add: new_rt_row_def)
qed

section \<open>End to end\<close>

text \<open>The body of a NewProxy request carries on what the client configured frpc with.\<close>

definition carries_config :: "client_tunnel \<Rightarrow> client_frp \<Rightarrow> gostruct \<Rightarrow> bool" where
  "carries_config t f np \<longleftrightarrow>
     get_str ''proxy_name'' np = cf_proxy_name f \<and> get_str ''proxy_type'' np = cf_proxy_type f \<and>
     get_str ''subdomain'' np = cf_subdomain f \<and> get_list ''custom_domains'' np = [] \<and>
     map_index (get_map ''metas'' (get_struct ''user'' np)) ''runtime_token'' = ct_token t"

text \<open>The answer of a committed creation is read by the client, which can configure frpc with it.\<close>

lemma created_answer_read:
  assumes cfg: "Validate cfg = Inr ()" and q: "decode_create cfg r = Inr q"
    and rt: "MintRuntimeToken sha draw = Some rt" "\<And>i n. draw i = Some n \<Longrightarrow> n < 62" "\<And>x. length (sha x) = 32"
    and tid: "GenerateTunnelID ids = Some tid" "\<And>i n. ids i = Some n \<Longrightarrow> n < 31"
    and json: "tunnel_json zone (create_response cfg q rt tid expires) = Some j" and z: "\<And>t. \<bar>zone t\<bar> < 1440"
  shows "decodeTunnelResponse lenient (answer_of (created_ops (json_text j @ ''\<newline>''))) =
      Inr (client_view (create_response cfg q rt tid expires))"
    "\<exists>config. generateFRPCConfig wide (Some (client_view (create_response cfg q rt tid expires))) (cr_host q) (cr_port q) = Inr config"
proof -
  have plain: "response_plain zone (create_response cfg q rt tid expires)"
    by (rule created_response_plain [OF cfg q rt(1) _ tid(1)]) (use rt(2) tid(2) z in blast)+
  have "length (json_text j @ ''\<newline>'') \<le> maxCachedBodySize"
    by (rule created_body_fits [OF cfg q rt(1) _ tid(1) _ json]) (use rt(2) tid(2) z in blast)+
  then show "decodeTunnelResponse lenient (answer_of (created_ops (json_text j @ ''\<newline>''))) =
      Inr (client_view (create_response cfg q rt tid expires))"
    by (intro decode_answer [OF json plain]) (simp_all add: answer_of_def maxCachedBodySize_def maxClientResponseBodySize_def)
  have "tk_raw rt \<noteq> ''''" "tid \<noteq> ''''"
    using minted_runtime_token [OF rt(1,2) rt(3)] tunnel_id_length [OF GenerateTunnelID_shape [OF tid]] by auto
  then show "\<exists>config. generateFRPCConfig wide (Some (client_view (create_response cfg q rt tid expires))) (cr_host q) (cr_port q) = Inr config"
    using created_config [OF cfg q] by blast
qed

text \<open>A NewProxy request that carries the configuration on is accepted when its credential finds the tunnel.\<close>

lemma carried_config_accepted:
  assumes "lookupRuntimeToken sha argon slots e late (tk_raw rt) (sv_db s) = Inr i" "ti_tunnel_id i = tid" "tk_raw rt \<noteq> ''''"
    and "move tid ''NewProxy'' s = (s', True)" "unmarshal_raw new_proxy_fields content = Some np"
    and "carries_config (client_view (create_response cfg q rt tid expires)) f np" "ct_frp (client_view (create_response cfg q rt tid expires)) = Some f"
  shows "handleNewProxy sha argon slots e late move content s = (s', allowUnchange)"
  using assms by (auto simp: carries_config_def handleNewProxy_def Let_def client_view_def create_response_def client_frp_of_def)

text \<open>
  C2: A tunnel that was just created can be connected: under a validated configuration the 201 answer is read by
  the client, which writes a configuration for the service that was asked for; and any NewProxy request that
  carries the configured name, type, subdomain and credential, before the tunnel expires, is accepted
  by the plugin and makes that tunnel active.
\<close>

theorem created_tunnel_connects:
  assumes cfg: "Validate cfg = Inr ()" and q: "decode_create cfg r = Inr q"
    and run: "Tunnels.CreateTunnel sha e c nonce zone cfg draw ids uuid cx r s = (s', ops)" and st: "rs_status (render ops) = 201"
    and draws: "\<And>i x. draw i = Some x \<Longrightarrow> x < 62" "\<And>n i x. ids n i = Some x \<Longrightarrow> x < 31"
    and sha: "\<And>x. length (sha x) = 32" and zone: "\<And>t. \<bar>zone t\<bar> < 1440"
    and new: "\<And>rt k slot. MintRuntimeToken sha draw = Some rt \<Longrightarrow> k \<in> set (db_rt_tokens (sv_db s)) \<Longrightarrow>
       VerifyTokenContext sha argon slot (tk_raw rt) (rt_hash k) \<noteq> Inr True"
    and calls: "\<And>k. ok e' k" and early: "\<And>n k. e_time e' k < e_time e (CtInsert n) + cr_ttl q * usec_per_sec"
  shows "\<exists>t f config. decodeTunnelResponse lenient (answer_of ops) = Inr t \<and> ct_frp t = Some f \<and>
     generateFRPCConfig wide (Some t) (cr_host q) (cr_port q) = Inr config \<and>
     (\<forall>content np. unmarshal_raw new_proxy_fields content = Some np \<longrightarrow> carries_config t f np \<longrightarrow>
        (\<exists>s2 row. handleNewProxy sha argon slots e' late (transitionFn e') content s' = (s2, allowUnchange) \<and>
           find_tunnel (ct_id t) (sv_db s2) = Some row \<and> tn_status row = Active \<and>
           tn_user row = UserIDFromContext cx \<and> tn_local_port row = cr_port q))"
  using run
proof (cases rule: CreateTunnel_cases [of sha e c nonce zone cfg draw ids uuid cx r s])
  case (refused w)
  then show ?thesis using run st refusalD [of w] by auto
next
  case in_doubt
  then show ?thesis using run st by auto
next
  case (committed q' rt d' body)
  let ?now = "e_time e CtBegin" and ?uid = "UserIDFromContext cx"
  have q': "q' = q" using committed(2) q by simp
  from committed(6) obtain n tid expires j b where h: "GenerateTunnelID (ids n) = Some tid"
    "find_tunnel tid (sv_db s) = None" "expires = e_time e (CtInsert n) + cr_ttl q * usec_per_sec"
    "tunnel_json zone (create_response cfg q rt tid expires) = Some j" "body = json_text j @ ''\<newline>''"
    and cp: "CompleteIdempotentResponseInTransaction e c nonce ?now cx 201 body
       (tunnel_created ?uid q rt tid expires ?now uuid (sv_db s)) = Inr (d', b)"
    unfolding q' by (rule create_body_InrD)
  let ?t = "client_view (create_response cfg q rt tid expires)" and ?r = "new_tunnel_row tid ?uid q expires ?now"
  have s': "sv_db s' = d'" and ops: "ops = created_ops body" using run committed(7) by auto
  note rows = created_rows [OF cp h(2), folded s']
  note read = created_answer_read [OF cfg q committed(3) _ sha h(1) _ h(4) zone, folded h(5) ops]
  have answer: "decodeTunnelResponse lenient (answer_of ops) = Inr ?t" by (rule read(1)) (use draws in blast)+
  have "\<exists>config. generateFRPCConfig wide (Some ?t) (cr_host q) (cr_port q) = Inr config" by (rule read(2)) (use draws in blast)+
  then obtain config where config: "generateFRPCConfig wide (Some ?t) (cr_host q) (cr_port q) = Inr config" by blast
  have "\<exists>i. lookupRuntimeToken sha argon slots e' late (tk_raw rt) (sv_db s') = Inr i \<and> ti_tunnel_id i = tid"
    by (rule created_token_found [OF rows committed(3) _ sha new [OF committed(3)] calls]) (use draws(1) early in \<open>simp_all add: h(3)\<close>)
  then obtain i where i: "lookupRuntimeToken sha argon slots e' late (tk_raw rt) (sv_db s') = Inr i" "ti_tunnel_id i = tid" by blast
  from first_connection [OF rows(1) _ _ _ calls] obtain s2 where s2: "transitionFn e' tid ''NewProxy'' s' = (s2, True)"
    "find_tunnel tid (sv_db s2) = Some (?r\<lparr>tn_status := Active\<rparr>)"
    using early by (auto simp: new_tunnel_row_def h(3))
  have f: "ct_frp ?t = Some (the (ct_frp ?t))" "ct_id ?t = tid" by (simp_all add: client_view_def create_response_def)
  have raw: "tk_raw rt \<noteq> ''''" using minted_runtime_token [OF committed(3) draws(1) sha] by auto
  note accepted = carried_config_accepted [where move = "transitionFn e'", OF i raw s2(1) _ _ f(1)]
  have row: "tn_user (?r\<lparr>tn_status := Active\<rparr>) = ?uid" "tn_local_port (?r\<lparr>tn_status := Active\<rparr>) = cr_port q"
    by (simp_all add: new_tunnel_row_def)
  have "\<exists>s2 row. handleNewProxy sha argon slots e' late (transitionFn e') content s' = (s2, allowUnchange) \<and>
      find_tunnel (ct_id ?t) (sv_db s2) = Some row \<and> tn_status row = Active \<and> tn_user row = ?uid \<and> tn_local_port row = cr_port q"
    if "unmarshal_raw new_proxy_fields content = Some np" "carries_config ?t (the (ct_frp ?t)) np" for content np
    using accepted [OF that] s2(2) row by (intro exI [of _ s2] exI [of _ "?r\<lparr>tn_status := Active\<rparr>"]) (simp add: f(2))
  with answer f(1) config show ?thesis by blast
qed

text \<open>A NewProxy request with the values of a configuration.\<close>

definition sample_new_proxy :: "client_tunnel \<Rightarrow> client_frp \<Rightarrow> jval" where
  "sample_new_proxy t f =
     VObj [(''user'', VObj [(''metas'', VObj [(''runtime_token'', VStr (ct_token t))])]), (''proxy_name'', VStr (cf_proxy_name f)),
           (''proxy_type'', VStr (cf_proxy_type f)), (''subdomain'', VStr (cf_subdomain f))]"

lemma sample_new_proxy_read:
  "\<exists>np. unmarshal_raw new_proxy_fields (Some (sample_new_proxy t f)) = Some np \<and> carries_config t f np"
  by (simp add: carries_config_def sample_new_proxy_def unmarshal_raw_def new_proxy_fields_def new_proxy_user_fields_def decode_struct_def
      decode_strmap_def match_field_def decode_string_def get_str_def get_list_def get_map_def get_struct_def map_index_def)

lemma sample_tokens_old:
  assumes "k \<in> set (db_rt_tokens (sv_db (fresh_srv (sample_db Active 9))))"
  shows "VerifyTokenContext sample_sha argon slot raw (rt_hash k) \<noteq> Inr True"
proof -
  have "b64_decode b64_url_alphabet (trim_prefix sha256HashPrefix ''sha256:y'') = None" by code_simp
  then have "\<not> verifySHA256 sample_sha raw ''sha256:y''" by (simp add: verifySHA256_def)
  moreover have "UsesCurrentHash ''sha256:y''" by code_simp
  moreover have "rt_hash k = ''sha256:y''" using assms by (simp add: fresh_srv_def sample_db_def)
  ultimately show ?thesis by (simp add: VerifyTokenContext_current)
qed

theorem created_tunnel_connects_witness:
  "\<exists>t f config s2. decodeTunnelResponse (\<lambda>_. None) (answer_of (snd (Tunnels.CreateTunnel sample_sha (calm 0) sample_codec None
       (\<lambda>_. 0) sample_config (\<lambda>_. Some 2) (\<lambda>_ _. Some 2) ''r9'' sample_ctx create_sample (fresh_srv (sample_db Active 9))))) = Inr t \<and>
     generateFRPCConfig (\<lambda>_. '''') (Some t) ''127.0.0.1'' 80 = Inr config \<and>
     handleNewProxy sample_sha (\<lambda>_ _ _ _ _ _. []) (\<lambda>_. SlotWaitExpired) (calm 1) (\<lambda>_. False) (transitionFn (calm 1))
       (Some (sample_new_proxy t f)) (fst (Tunnels.CreateTunnel sample_sha (calm 0) sample_codec None
       (\<lambda>_. 0) sample_config (\<lambda>_. Some 2) (\<lambda>_ _. Some 2) ''r9'' sample_ctx create_sample (fresh_srv (sample_db Active 9)))) =
     (s2, allowUnchange)"
proof -
  let ?run = "Tunnels.CreateTunnel sample_sha (calm 0) sample_codec None (\<lambda>_. 0) sample_config (\<lambda>_. Some 2) (\<lambda>_ _. Some 2)
       ''r9'' sample_ctx create_sample (fresh_srv (sample_db Active 9))"
  let ?plugin = "handleNewProxy sample_sha (\<lambda>_ _ _ _ _ _. []) (\<lambda>_. SlotWaitExpired) (calm 1) (\<lambda>_. False) (transitionFn (calm 1))"
  have early: "e_time (calm 1) k < e_time (calm 0) (CtInsert n) + cr_ttl sample_create * usec_per_sec" for k n
    by (simp add: calm_def sample_create_def)
  have "\<exists>t f config. decodeTunnelResponse (\<lambda>_. None) (answer_of (snd ?run)) = Inr t \<and> ct_frp t = Some f \<and>
     generateFRPCConfig (\<lambda>_. '''') (Some t) (cr_host sample_create) (cr_port sample_create) = Inr config \<and>
     (\<forall>content np. unmarshal_raw new_proxy_fields content = Some np \<longrightarrow> carries_config t f np \<longrightarrow>
        (\<exists>s2 row. ?plugin content (fst ?run) = (s2, allowUnchange) \<and>
           find_tunnel (ct_id t) (sv_db s2) = Some row \<and> tn_status row = Active \<and>
           tn_user row = UserIDFromContext sample_ctx \<and> tn_local_port row = cr_port sample_create))"
    by (rule created_tunnel_connects [OF Validate_sample decode_create_sample prod.collapse [symmetric] create_sample_201])
       (use sample_tokens_old early in \<open>simp_all add: calm_def\<close>)
  then obtain t f config where t: "decodeTunnelResponse (\<lambda>_. None) (answer_of (snd ?run)) = Inr t"
    "generateFRPCConfig (\<lambda>_. '''') (Some t) (cr_host sample_create) (cr_port sample_create) = Inr config"
    and connects: "\<And>content np. unmarshal_raw new_proxy_fields content = Some np \<Longrightarrow> carries_config t f np \<Longrightarrow>
       \<exists>s2. ?plugin content (fst ?run) = (s2, allowUnchange)" by (elim exE conjE) blast
  obtain np where "unmarshal_raw new_proxy_fields (Some (sample_new_proxy t f)) = Some np" "carries_config t f np"
    using sample_new_proxy_read [of t f] by blast
  from connects [OF this] obtain s2 where "?plugin (Some (sample_new_proxy t f)) (fst ?run) = (s2, allowUnchange)" by blast
  moreover have "cr_host sample_create = ''127.0.0.1''" "cr_port sample_create = 80" by (simp_all add: sample_create_def)
  ultimately show ?thesis using t by (auto simp only: simp_thms)
qed

end
