(* ===== verification/Spec2Isabelle.thy ===== *)
theory Spec2Isabelle
  imports ServerRun ClientCreate ClientConnect
begin

text \<open>
  Hatchway, a self-hosted tunnel service, as Isabelle definitions with the theorems that make it
  correct.

  \<^bold>\<open>The program.\<close>  A client on a developer's machine asks the server's HTTP API for a tunnel
  (\<open>internal/server/tunnels/handlers.go\<close>) and gets a public host name and a runtime credential.  It
  starts \<open>frpc\<close>, which connects to \<open>frps\<close>; \<open>frps\<close> asks the server's plugin endpoint
  (\<open>internal/server/plugin/handler.go\<close>) whether the login and the proxy are allowed.  A reverse proxy
  asks the server's gate (\<open>plugin/authorize.go\<close>) of every public request whether its host names a
  tunnel in use.  All of these share one PostgreSQL database, in which a tunnel runs through the
  states reserved, active, closed, expired and revoked (\<open>tunnels/lifecycle.go\<close>); a reaper
  expires tunnels and sweepers delete old rows.  Operators use the \<open>hatchway server\<close> commands
  (\<open>internal/cli/commands/server.go\<close>), developers \<open>hatchway auth\<close>, \<open>http\<close>, \<open>list\<close> and \<open>delete\<close>
  (\<open>cli/commands/client.go\<close>), which keep their key in a file (\<open>cli/credentials.go\<close>) and call the API
  (\<open>cli/client.go\<close>).

  \<^bold>\<open>How it is modelled.\<close>  An operation is a function of its input, of what it meets outside the
  program, and of the state \<open>srv\<close> (database, counters, rate limiter: \<open>ServerState\<close>), and gives the new
  state and its result; a handler's result is the list of its writes to the \<open>ResponseWriter\<close>, which
  \<open>render\<close> turns into a response.  Each call to the database has a name (\<open>Store.call\<close>) and an outcome
  that an environment \<open>env\<close> chooses: done, failed, or in doubt (it took effect, its answer was lost).
  A transaction works on a copy of the database that its commit publishes.  All theorems are for
  arbitrary environments, so for arbitrary failures, unless they say which calls succeed.

  \<^bold>\<open>The theories\<close>, each importing those it calls:

  \<^item> \<open>HwPrelude\<close>: tables as lists of rows, updates and lookups by key, outcomes; the locale
    \<open>keyed_update\<close>.  \<open>GoStrings\<close>, \<open>GoTime\<close>, \<open>GoDate\<close>, \<open>GoUrl\<close>, \<open>GoEncoding\<close>, \<open>Json\<close>, \<open>JsonParse\<close>,
    \<open>JsonRoundtrip\<close>, \<open>Http\<close>: the parts of Go's library that the code rests on, with the round trips
    of decimal numbers, dates, base64, hexadecimal, queries and JSON.
  \<^item> \<open>Tokens\<close> (\<open>internal/tokens/tokens.go\<close>): minting, lookup prefix, digests, the three stored
    formats, and the slots that bound Argon2 work, as a step relation.
  \<^item> \<open>Config\<close> (\<open>config/config.go\<close>, \<open>tunnels/id.go\<close>): the environment, validation, tunnel identifiers.
  \<^item> \<open>Store\<close> (\<open>db/migrations\<close>): tables, constraints as \<open>schema_ok\<close>, statuses as an ordered datatype.
    \<open>Database\<close> (\<open>db/db.go\<close>, \<open>db/migrate.go\<close>): the pool, the schema check, \<open>InTx\<close>, the migrations.
  \<^item> \<open>Lifecycle\<close> (\<open>tunnels/lifecycle.go\<close>): the transition table, \<open>Transition\<close>, \<open>Revoke\<close>, the reaper and
    the sweepers.  \<open>status_step\<close> is the abstract state machine; \<open>evolves\<close> says that rows only move
    along it, \<open>revoked_dead\<close> that a revoked tunnel has no live credential.  The locale \<open>tunnel_op\<close> is
    the contract of everything that touches tunnels, and is interpreted for each operation.
  \<^item> \<open>Auth\<close> (\<open>api/auth.go\<close>): bearer tokens, the two passes over lookup candidates.  \<open>Metrics\<close>,
    \<open>RateLimit\<close>, \<open>Idempotency\<close>: the files of \<open>api/\<close> of those names; the limiter counts in the
    \<open>float64\<close> arithmetic of \<open>Float64\<close>.  \<open>Router\<close> (\<open>router.go\<close>, \<open>health.go\<close>,
    \<open>RegisterRoutes\<close>) composes them to the public API as one function \<open>NewRouter\<close> of a request.
  \<^item> \<open>Tunnels\<close> (\<open>tunnels/handlers.go\<close>): creation, list, lookup, revocation.  \<open>Listing\<close> proves the
    pagination, \<open>Replay\<close> the promises of the idempotency middleware around a creation, through the
    locale of handlers that complete their reservation inside their transaction.  \<open>Overlap\<close> takes the
    middlewares of a request apart into the steps between which other requests run (\<open>steps_alone\<close>:
    without others they make up the handler) and keeps an invariant over every order of the steps.
  \<^item> \<open>Authorize\<close> and \<open>Plugin\<close> (\<open>server/plugin\<close>): the gate and the frps callbacks.
  \<^item> \<open>ServerCommands\<close> (\<open>cli/commands/server.go\<close>): the operator's commands.  \<open>System\<close>: all operations
    on the shared database as steps in any order, and what holds in every history.

  \<^item> \<open>ServerRun\<close> (\<open>api/router.go\<close>, \<open>cli/commands/server.go\<close>): the internal server's routes, the start
    and shutdown of both servers, \<open>hatchway server run\<close>, the tables of the other commands.
    \<open>FrpProcess\<close> (\<open>internal/frp/process.go\<close>): the supervised child process, its sections under the mutex
    as functions and their interleavings as the relation \<open>frp_step\<close>.
  \<^item> \<open>ClientApi\<close> (\<open>cli/client.go\<close>): requests with retries, decoding, the page walk.  \<open>ClientRetry\<close> counts
    its requests through the wrapper \<open>recording\<close> and proves that the walk ends; \<open>ClientServer\<close> and
    \<open>ClientCreate\<close> run it against the server's handlers, the latter over a network that loses, delays,
    repeats and cuts messages, with requests that overlap in the server (locale \<open>net_invariant\<close>).
  \<^item> \<open>Credentials\<close> (\<open>cli/credentials.go\<close>): the stored key over a file system in which each call can fail.
    \<open>ClientCommands\<close> (\<open>cli/commands/client.go\<close>): the client's commands; \<open>hatchway http\<close> gives the list of
    its actions, with the points where it begins and stops to catch signals.  \<open>ClientConnect\<close> follows a tunnel from its creation to its first connection.

  \<^bold>\<open>What is proved.\<close>  Credentials: a minted token is accepted by every later step, a wrong or revoked
  one never is, legacy formats cannot exhaust memory.  Lifecycle: every operation keeps the schema,
  moves tunnels along the state machine only, and logs what it does; revocation is complete and
  final.  API: quota, atomicity of errors, the exact effect of a creation, complete pagination,
  at-most-once creation under retries, isolation of tenants.  Gate and plugin: the exact condition
  under which traffic and clients pass.  Rate limiter: the bound of a token bucket over every window
  of time and its freedom from starvation, with the error of \<open>float64\<close>.  Client: bounded requests, a
  listing that ends and is complete, at most one tunnel per run of \<open>hatchway http\<close>, its deletion on every
  return and exactly where a signal prevents it, an frpc configuration that no
  answer can tamper with, a key file that is private and replaced as a whole.  End to end: a tunnel
  that was just created is read, configured and accepted by the plugin.  Processes: at most one child
  at a time under every interleaving; every listener is closed again.

  \<^bold>\<open>Parameters and bounds.\<close>  SHA-256, Argon2, AES-GCM, random draws, UUIDs, clocks, the time zone,
  the collation of the database, Unicode case tables, chi's matcher, the network
  (\<open>net\<close>), the calls of the operating system (\<open>os_world\<close>, \<open>client_env\<close>), bracketed IPv6 hosts and
  \<open>strconv.Quote\<close> beyond ASCII are arguments; theorems name what they need of them, such as digests of 32
  bytes.  The JSON scanner has fuel, which \<open>parse_value\<close> sets from the length of its input, enough for
  every text (\<open>JsonParse\<close>).  Loops that Go bounds are recursions on their bound: three attempts of a
  request, two to read a creation, three draws of an identifier, three restarts of frpc.  The walk over
  the pages of a list has none, is a \<open>partial_function\<close>, and is proved to end for finitely many cursors
  (\<open>listing_terminates\<close>); the loop around frpc returns whenever each run of frpc ends
  (\<open>supervise_returns\<close>).

  \<^bold>\<open>Not modelled.\<close>  Flag parsing (cobra), the alignment of tables (tabwriter), log lines, frpc and frps
  themselves, a signal during one of the actions of \<open>hatchway http\<close> rather than between them, \<open>internal/models\<close>
  (unused types), the entry point and the test helpers.
  Transactions are atomic steps: PostgreSQL's row and advisory locks, which the code takes so that
  they are, are not modelled as locks.  \<open>float64\<close> has the precision of Go's, not the limits of its
  exponent, which the numbers of the limiter do not come near.
\<close>

end
